(* ===== verification/Prelude.thy ===== *)
theory Prelude
  imports Complex_Main
begin

text \<open>
  Shared vocabulary of the development.

  \<^item> \<open>exc\<close> is the type of the Python exceptions the modelled code raises or catches, and
    \<open>'a res\<close> the result of code that may raise (\<open>Inl\<close> the exception, \<open>Inr\<close> the value).
    \<open>res_bind\<close> is sequencing: an exception skips the rest.
  \<^item> A database table is the list of its rows in insertion order. \<open>get_row\<close> is the lookup by
    primary key (\<open>session.get\<close>), \<open>upd_where\<close> and \<open>count_where\<close> are the two halves of an SQL
    \<open>UPDATE ... WHERE\<close> (the new table and the row count), \<open>one_or_none\<close> is SQLAlchemy's
    \<open>scalar_one_or_none\<close>.
  \<^item> The locale \<open>keyed_table\<close> is the contract every table offers to the components: what a lookup
    returns after an insert of a new key and after an update that keeps the keys.
  \<^item> The locale \<open>row_history\<close> is the contract of a history relation on rows: a preorder that keeps
    the key. \<open>rows_evolve\<close> lifts it to tables: rows are rewritten in place or appended, never
    deleted or reordered.
\<close>

named_theorems row_simps \<open>lookup and update of rows\<close>
named_theorems evolves_intros \<open>operations that respect the history relation\<close>

subsection \<open>Exceptions and results\<close>

datatype exc =
    InvalidStateTransition string
  | MoneyError string
  | ValueError string
  | ValidationError
  | TypeError string
  | IntegrityError
  | DataError
  | OperationalError string
  | MultipleResultsFound
  | NoResultFound
  | RazorpayError string
  | RazorpayTimeoutError string
  | LLMError string
  | LLMTimeoutError string
  | WebhookSignatureError string
  | MerchantNotFoundError
  | DuplicateWebhookError
  | OverflowError
  | OtherException string

type_synonym 'a res = "exc + 'a"

fun res_bind :: "'a res \<Rightarrow> ('a \<Rightarrow> 'b res) \<Rightarrow> 'b res" where
  "res_bind (Inl e) f = Inl e"
| "res_bind (Inr x) f = f x"

lemma res_bind_Inr [simp]:
  "res_bind m f = Inr y \<longleftrightarrow> (\<exists>x. m = Inr x \<and> f x = Inr y)"
  by (cases m) auto

lemma res_bind_Inl:
  "res_bind m f = Inl e \<longleftrightarrow> m = Inl e \<or> (\<exists>x. m = Inr x \<and> f x = Inl e)"
  by (cases m) auto

lemma res_bind_cong [fundef_cong]:
  "m = m' \<Longrightarrow> (\<And>x. m' = Inr x \<Longrightarrow> f x = g x) \<Longrightarrow> res_bind m f = res_bind m' g"
  by (cases m') auto

subsection \<open>Tables as lists of rows\<close>

definition get_row :: "('r \<Rightarrow> 'k) \<Rightarrow> 'k \<Rightarrow> 'r list \<Rightarrow> 'r option" where
  "get_row key k rows = find (\<lambda>r. key r = k) rows"

definition upd_where :: "('r \<Rightarrow> bool) \<Rightarrow> ('r \<Rightarrow> 'r) \<Rightarrow> 'r list \<Rightarrow> 'r list" where
  "upd_where p f rows = map (\<lambda>r. if p r then f r else r) rows"

definition count_where :: "('r \<Rightarrow> bool) \<Rightarrow> 'r list \<Rightarrow> nat" where
  "count_where p rows = length (filter p rows)"

definition one_or_none :: "'r list \<Rightarrow> 'r option res" where
  "one_or_none rows =
     (case rows of [] \<Rightarrow> Inr None | [r] \<Rightarrow> Inr (Some r) | _ \<Rightarrow> Inl MultipleResultsFound)"

definition exactly_one :: "'r list \<Rightarrow> 'r res" where
  "exactly_one rows =
     (case rows of [] \<Rightarrow> Inl NoResultFound | [r] \<Rightarrow> Inr r | _ \<Rightarrow> Inl MultipleResultsFound)"

lemma get_row_Nil [simp]: "get_row key k [] = None"
  by (simp add: get_row_def)

lemma get_row_Cons [simp]:
  "get_row key k (r # rows) = (if key r = k then Some r else get_row key k rows)"
  by (simp add: get_row_def)

lemma get_row_append [row_simps]:
  "get_row key k (xs @ ys) = (case get_row key k xs of None \<Rightarrow> get_row key k ys | Some r \<Rightarrow> Some r)"
  by (induction xs) auto

lemma get_row_SomeD: "get_row key k rows = Some r \<Longrightarrow> key r = k \<and> r \<in> set rows"
  by (induction rows) (auto split: if_splits)

lemma get_row_None_iff: "get_row key k rows = None \<longleftrightarrow> k \<notin> key ` set rows"
  by (induction rows) auto

lemma get_row_distinct:
  "distinct (map key rows) \<Longrightarrow> r \<in> set rows \<Longrightarrow> get_row key (key r) rows = Some r"
  by (induction rows) (auto simp: rev_image_eqI)

lemma upd_where_Nil [simp]: "upd_where p f [] = []"
  by (simp add: upd_where_def)

lemma upd_where_Cons [simp]:
  "upd_where p f (r # rows) = (if p r then f r else r) # upd_where p f rows"
  by (simp add: upd_where_def)

lemma upd_where_append [simp]: "upd_where p f (xs @ ys) = upd_where p f xs @ upd_where p f ys"
  by (simp add: upd_where_def)

lemma length_upd_where [simp]: "length (upd_where p f rows) = length rows"
  by (simp add: upd_where_def)

lemma set_upd_where: "set (upd_where p f rows) = (\<lambda>r. if p r then f r else r) ` set rows"
  by (simp add: upd_where_def)

lemma map_upd_where:
  assumes "\<And>r. r \<in> set rows \<Longrightarrow> p r \<Longrightarrow> g (f r) = g r"
  shows "map g (upd_where p f rows) = map g rows"
  using assms by (simp add: upd_where_def)

lemma get_row_upd_where [row_simps]:
  assumes "\<And>r. key (f r) = key r"
  shows "get_row key k (upd_where p f rows) = map_option (\<lambda>r. if p r then f r else r) (get_row key k rows)"
  using assms by (induction rows) auto

lemma upd_where_none: "\<forall>r \<in> set rows. \<not> p r \<Longrightarrow> upd_where p f rows = rows"
  by (induction rows) auto

lemma count_where_0_iff: "count_where p rows = 0 \<longleftrightarrow> (\<forall>r \<in> set rows. \<not> p r)"
  by (simp add: count_where_def filter_empty_conv)

lemma count_where_Nil [simp]: "count_where p [] = 0"
  by (simp add: count_where_def)

lemma count_where_Cons [simp]:
  "count_where p (r # rows) = (if p r then Suc (count_where p rows) else count_where p rows)"
  by (simp add: count_where_def)

lemma count_where_append [simp]: "count_where p (xs @ ys) = count_where p xs + count_where p ys"
  by (simp add: count_where_def)

lemma count_where_key:
  assumes "distinct (map key rows)"
  shows "count_where (\<lambda>r. key r = k \<and> q r) rows =
    (case get_row key k rows of None \<Rightarrow> 0 | Some r \<Rightarrow> if q r then 1 else 0)"
  using assms
proof (induction rows)
  case Nil
  then show ?case by simp
next
  case (Cons r rows)
  show ?case
  proof (cases "key r = k")
    case True
    with Cons.prems have "\<forall>r' \<in> set rows. \<not> (key r' = k \<and> q r')"
      by (auto simp: image_iff)
    then have "count_where (\<lambda>r. key r = k \<and> q r) rows = 0" by (simp add: count_where_0_iff)
    with True show ?thesis by simp
  next
    case False
    with Cons show ?thesis by simp
  qed
qed

lemma one_or_none_Some: "one_or_none rows = Inr (Some r) \<longleftrightarrow> rows = [r]"
  by (auto simp: one_or_none_def split: list.splits)

lemma one_or_none_filter: "one_or_none (filter p rows) = Inr (Some r) \<Longrightarrow> r \<in> set rows \<and> p r"
  by (metis filter_eq_ConsD in_set_conv_decomp one_or_none_Some)

lemma one_or_none_None: "one_or_none rows = Inr None \<longleftrightarrow> rows = []"
  by (auto simp: one_or_none_def split: list.splits)

lemma filter_key_le_1:
  assumes "distinct (map key rows)"
  shows "filter (\<lambda>r. key r = k) rows = (case get_row key k rows of None \<Rightarrow> [] | Some r \<Rightarrow> [r])"
  using assms
proof (induction rows)
  case (Cons r rows)
  show ?case
  proof (cases "key r = k")
    case True
    with Cons.prems have "get_row key k rows = None" by (auto simp: get_row_None_iff)
    with Cons True show ?thesis by simp
  next
    case False
    with Cons show ?thesis by simp
  qed
qed simp

lemma one_or_none_key:
  "distinct (map key rows) \<Longrightarrow> one_or_none (filter (\<lambda>r. key r = k) rows) = Inr (get_row key k rows)"
  by (simp add: filter_key_le_1 one_or_none_def split: option.splits)

lemma image_upd_where:
  assumes "\<And>r. r \<in> set rows \<Longrightarrow> p r \<Longrightarrow> g (f r) = g r"
  shows "g ` set (upd_where p f rows) = g ` set rows"
  using map_upd_where [of rows p g f] assms by (metis set_map)

lemma get_row_ex_iff: "(\<exists>r. get_row key k rows = Some r) \<longleftrightarrow> k \<in> key ` set rows"
  by (metis get_row_None_iff not_None_eq)

lemma get_row_unique:
  "distinct (map key rows) \<Longrightarrow> get_row key k rows = Some r \<Longrightarrow> r' \<in> set rows \<Longrightarrow> key r' = k \<Longrightarrow> r' = r"
  using get_row_distinct by fastforce

subsection \<open>The contract of a table\<close>

locale keyed_table =
  fixes key :: "'r \<Rightarrow> 'k"
    and get :: "'d \<Rightarrow> 'k \<Rightarrow> 'r option"
    and add :: "'r \<Rightarrow> 'd \<Rightarrow> 'd res"
    and modify :: "('r \<Rightarrow> bool) \<Rightarrow> ('r \<Rightarrow> 'r) \<Rightarrow> 'd \<Rightarrow> 'd"
  assumes get_key: "get d k = Some r \<Longrightarrow> key r = k"
    and add_new_key: "add r d = Inr d' \<Longrightarrow> get d (key r) = None"
    and get_add: "add r d = Inr d' \<Longrightarrow> get d' k = (if k = key r then Some r else get d k)"
    and get_modify: "(\<And>r. key (f r) = key r) \<Longrightarrow>
      get (modify p f d) k = map_option (\<lambda>r. if p r then f r else r) (get d k)"
begin

lemma get_added: "add r d = Inr d' \<Longrightarrow> get d' (key r) = Some r"
  by (simp add: get_add)

lemma add_keeps: "add r d = Inr d' \<Longrightarrow> get d k = Some r' \<Longrightarrow> get d' k = Some r'"
  using add_new_key [of r d d'] by (auto simp: get_add)

lemma add_only_once: "add r d = Inr d' \<Longrightarrow> key r' = key r \<Longrightarrow> add r' d' \<noteq> Inr d''"
  using add_new_key [of r' d' d''] get_added [of r d d'] by auto

lemma modify_keeps_absent:
  "(\<And>r. key (f r) = key r) \<Longrightarrow> get d k = None \<Longrightarrow> get (modify p f d) k = None"
  by (simp add: get_modify)

lemma modify_other_row:
  "(\<And>r. key (f r) = key r) \<Longrightarrow> get d k = Some r \<Longrightarrow> \<not> p r \<Longrightarrow> get (modify p f d) k = Some r"
  by (simp add: get_modify)

end

subsection \<open>Histories of tables\<close>

definition rows_evolve :: "('r \<Rightarrow> 'r \<Rightarrow> bool) \<Rightarrow> 'r list \<Rightarrow> 'r list \<Rightarrow> bool" where
  "rows_evolve R xs ys \<longleftrightarrow> (\<exists>zs ws. ys = zs @ ws \<and> list_all2 R xs zs)"

locale row_history =
  fixes R :: "'r \<Rightarrow> 'r \<Rightarrow> bool"
    and key :: "'r \<Rightarrow> 'k"
  assumes R_refl: "R r r"
    and R_trans: "R r s \<Longrightarrow> R s t \<Longrightarrow> R r t"
    and R_key: "R r s \<Longrightarrow> key s = key r"
begin

lemma rows_append: "rows_evolve R xs (xs @ ys)"
proof -
  have "list_all2 R xs xs" by (simp add: list_all2_refl R_refl)
  then show ?thesis unfolding rows_evolve_def by blast
qed

lemma rows_refl: "rows_evolve R xs xs"
  using rows_append [of xs "[]"] by simp

lemma rows_upd:
  assumes "\<And>r. r \<in> set xs \<Longrightarrow> p r \<Longrightarrow> R r (f r)"
  shows "rows_evolve R xs (upd_where p f xs)"
proof -
  have "list_all2 R xs (upd_where p f xs)"
    using assms by (induction xs) (auto simp: R_refl)
  then show ?thesis by (auto simp: rows_evolve_def)
qed

lemma rows_trans:
  assumes "rows_evolve R xs ys" and "rows_evolve R ys zs"
  shows "rows_evolve R xs zs"
proof -
  from assms(1) obtain y1 y2 where y: "ys = y1 @ y2" "list_all2 R xs y1" by (auto simp: rows_evolve_def)
  from assms(2) y(1) obtain z1 z2 where z: "zs = z1 @ z2" "list_all2 R (y1 @ y2) z1"
    by (auto simp: rows_evolve_def)
  then obtain u1 u2 where u: "z1 = u1 @ u2" "list_all2 R y1 u1"
    by (auto simp: list_all2_append1)
  have "list_all2 R xs u1"
    by (rule list_all2_trans [OF _ y(2) u(2)]) (rule R_trans)
  with z(1) u(1) show ?thesis by (auto simp: rows_evolve_def)
qed

lemma rows_get:
  assumes "rows_evolve R xs ys" and "get_row key k xs = Some r"
  shows "\<exists>s. get_row key k ys = Some s \<and> R r s"
proof -
  from assms(1) obtain zs ws where z: "ys = zs @ ws" "list_all2 R xs zs" by (auto simp: rows_evolve_def)
  have "\<exists>s. get_row key k zs = Some s \<and> R r s"
    using z(2) assms(2) by (induction rule: list_all2_induct) (auto split: if_splits dest: R_key)
  with z(1) show ?thesis by (auto simp: get_row_append)
qed

lemma rows_mem:
  assumes "rows_evolve R xs ys" and "r \<in> set xs"
  shows "\<exists>s \<in> set ys. R r s"
proof -
  from assms(1) obtain zs ws where z: "ys = zs @ ws" "list_all2 R xs zs" by (auto simp: rows_evolve_def)
  from z(2) assms(2) have "\<exists>s \<in> set zs. R r s" by (induction rule: list_all2_induct) auto
  with z(1) show ?thesis by auto
qed

lemma rows_keys: "rows_evolve R xs ys \<Longrightarrow> key ` set xs \<subseteq> key ` set ys"
  by (metis (no_types, lifting) get_row_None_iff not_None_eq rows_get subsetI)

lemma rows_length: "rows_evolve R xs ys \<Longrightarrow> length xs \<le> length ys"
  by (auto simp: rows_evolve_def dest: list_all2_lengthD)

end

subsection \<open>Computations that respect a relation on states\<close>

text \<open>
  \<open>keeps_rel R d m\<close>: the computation \<open>m\<close>, started in a state reached from \<open>d\<close>, ends in one reached
  from \<open>d\<close>. For a preorder \<open>R\<close> the rules of the locale follow the structure of the handlers.
\<close>

definition keeps_rel :: "('d \<Rightarrow> 'd \<Rightarrow> bool) \<Rightarrow> 'd \<Rightarrow> ('a \<times> 'd) res \<Rightarrow> bool" where
  "keeps_rel R d m \<longleftrightarrow> (\<forall>x d'. m = Inr (x, d') \<longrightarrow> R d d')"

lemma keeps_relI: "(\<And>x d'. m = Inr (x, d') \<Longrightarrow> R d d') \<Longrightarrow> keeps_rel R d m"
  by (simp add: keeps_rel_def)

lemma keeps_relD: "keeps_rel R d m \<Longrightarrow> m = Inr (x, d') \<Longrightarrow> R d d'"
  by (simp add: keeps_rel_def)

lemma keeps_rel_return: "R d d' \<Longrightarrow> keeps_rel R d (Inr (x, d'))"
  by (simp add: keeps_rel_def)

lemma keeps_rel_raise [simp]: "keeps_rel R d (Inl e)"
  by (simp add: keeps_rel_def)

locale state_preorder =
  fixes R :: "'d \<Rightarrow> 'd \<Rightarrow> bool"
  assumes state_refl: "R d d"
    and state_trans: "R a b \<Longrightarrow> R b c \<Longrightarrow> R a c"
begin

lemma bind_rule:
  assumes "keeps_rel R d1 m" and "R d d1"
    and "\<And>x d2. m = Inr (x, d2) \<Longrightarrow> R d d2 \<Longrightarrow> keeps_rel R d (f (x, d2))"
  shows "keeps_rel R d (res_bind m f)"
  using assms state_trans by (cases m) (fastforce simp: keeps_rel_def)+

lemma bind_db_rule:
  assumes "\<And>d2. m = Inr d2 \<Longrightarrow> R d1 d2" and "R d d1"
    and "\<And>d2. m = Inr d2 \<Longrightarrow> R d d2 \<Longrightarrow> keeps_rel R d (f d2)"
  shows "keeps_rel R d (res_bind m f)"
  using assms state_trans by (cases m) auto

lemma trans_rule: "R d0 d \<Longrightarrow> keeps_rel R d m \<Longrightarrow> keeps_rel R d0 m"
  unfolding keeps_rel_def using state_trans by blast

end

end
