(* ===== verification/Python_Lib.thy ===== *)
theory Python_Lib
  imports Prelude "HOL-Library.Word"
begin

text \<open>
  The part of Python's standard library the modelled code relies on: string methods, JSON values,
  \<open>uuid.UUID\<close> with its printed and parsed forms, decimal printing of integers.

  A Python string is a list of characters read as code points below 256 (Latin-1); code points
  above are outside of the model. \<open>str.upper\<close> is written out on that range except for the
  two characters (0xB5 and 0xFF) whose upper case lies above it and which are left as they are.
\<close>

subsection \<open>Characters and strings\<close>

abbreviation ord :: "char \<Rightarrow> nat" where
  "ord c \<equiv> of_char c"

definition is_ascii :: "string \<Rightarrow> bool" where
  "is_ascii s = list_all (\<lambda>c. ord c < 128) s"

definition py_isspace :: "char \<Rightarrow> bool" where
  "py_isspace c = (let n = ord c in 9 \<le> n \<and> n \<le> 13 \<or> 28 \<le> n \<and> n \<le> 32 \<or> n = 133 \<or> n = 160)"

definition py_isalpha_char :: "char \<Rightarrow> bool" where
  "py_isalpha_char c =
     (let n = ord c in
        65 \<le> n \<and> n \<le> 90 \<or> 97 \<le> n \<and> n \<le> 122 \<or> n = 170 \<or> n = 181 \<or> n = 186
        \<or> 192 \<le> n \<and> n \<le> 255 \<and> n \<noteq> 215 \<and> n \<noteq> 247)"

definition py_isalpha :: "string \<Rightarrow> bool" where
  "py_isalpha s = (s \<noteq> [] \<and> list_all py_isalpha_char s)"

definition py_upper_char :: "char \<Rightarrow> string" where
  "py_upper_char c =
     (let n = ord c in
        if n = 223 then ''SS''
        else if 97 \<le> n \<and> n \<le> 122 \<or> 224 \<le> n \<and> n \<le> 254 \<and> n \<noteq> 247 then [char_of (n - 32)]
        else [c])"

definition py_upper :: "string \<Rightarrow> string" where
  "py_upper s = concat (map py_upper_char s)"

definition py_lower_char :: "char \<Rightarrow> char" where
  "py_lower_char c =
     (let n = ord c in
        if 65 \<le> n \<and> n \<le> 90 \<or> 192 \<le> n \<and> n \<le> 222 \<and> n \<noteq> 215 then char_of (n + 32) else c)"

definition py_lower :: "string \<Rightarrow> string" where
  "py_lower s = map py_lower_char s"

definition strip_by :: "(char \<Rightarrow> bool) \<Rightarrow> string \<Rightarrow> string" where
  "strip_by p s = rev (dropWhile p (rev (dropWhile p s)))"

definition py_strip :: "string \<Rightarrow> string" where
  "py_strip s = strip_by py_isspace s"

fun starts_with :: "string \<Rightarrow> string \<Rightarrow> bool" where
  "starts_with [] s = True"
| "starts_with (p # ps) [] = False"
| "starts_with (p # ps) (c # cs) = (p = c \<and> starts_with ps cs)"

text \<open>The operator \<open>sub in s\<close> on strings.\<close>

fun py_in :: "string \<Rightarrow> string \<Rightarrow> bool" where
  "py_in sub [] = (sub = [])"
| "py_in sub (c # cs) = (starts_with sub (c # cs) \<or> py_in sub cs)"

text \<open>\<open>s.replace(sub, '')\<close> for a non-empty \<open>sub\<close>.\<close>

fun remove_all :: "string \<Rightarrow> string \<Rightarrow> string" where
  "remove_all sub [] = []"
| "remove_all sub (c # cs) =
     (if sub \<noteq> [] \<and> starts_with sub (c # cs) then remove_all sub (drop (length sub - 1) cs)
      else c # remove_all sub cs)"

subsection \<open>Decimal printing\<close>

definition digit_char :: "nat \<Rightarrow> char" where
  "digit_char n = ''0123456789abcdef'' ! n"

fun show_nat :: "nat \<Rightarrow> string" where
  "show_nat n = (if n < 10 then [digit_char n] else show_nat (n div 10) @ [digit_char (n mod 10)])"

declare show_nat.simps [simp del]

definition show_int :: "int \<Rightarrow> string" where
  "show_int i = (if i < 0 then CHR ''-'' # show_nat (nat (- i)) else show_nat (nat i))"

subsection \<open>Rounding\<close>

text \<open>\<open>round(x)\<close>: the nearest integer, halves to the even one.\<close>

definition round_half_even :: "rat \<Rightarrow> int" where
  "round_half_even x =
     (let f = floor x; r = x - of_int f in
      if r < 1 / 2 then f else if 1 / 2 < r then f + 1 else if even f then f else f + 1)"

lemma round_half_even_int [simp]: "round_half_even (of_int i) = i"
  by (simp add: round_half_even_def)

lemma round_half_even_mono: "x \<le> y \<Longrightarrow> round_half_even x \<le> round_half_even y"
proof -
  assume le: "x \<le> y"
  then have "floor x < floor y \<or> floor x = floor y" using floor_mono [OF le] by linarith
  then show ?thesis
  proof
    assume "floor x < floor y"
    moreover have "round_half_even x \<le> floor x + 1" "floor y \<le> round_half_even y"
      by (simp_all add: round_half_even_def Let_def)
    ultimately show ?thesis by linarith
  next
    assume "floor x = floor y"
    with le show ?thesis by (auto simp: round_half_even_def Let_def)
  qed
qed

subsection \<open>JSON values\<close>

datatype json =
    JNull
  | JBool bool
  | JInt int
  | JFloat rat
  | JStr string
  | JArr "json list"
  | JObj "(string \<times> json) list"

type_synonym json_obj = "(string \<times> json) list"

definition obj_get :: "json_obj \<Rightarrow> string \<Rightarrow> json" where
  "obj_get obj k = (case map_of obj k of None \<Rightarrow> JNull | Some v \<Rightarrow> v)"

definition json_opt_str :: "string option \<Rightarrow> json" where
  "json_opt_str x = (case x of None \<Rightarrow> JNull | Some s \<Rightarrow> JStr s)"

text \<open>Python's truth value of a JSON value.\<close>

fun py_truthy :: "json \<Rightarrow> bool" where
  "py_truthy JNull = False"
| "py_truthy (JBool b) = b"
| "py_truthy (JInt i) = (i \<noteq> 0)"
| "py_truthy (JFloat x) = (x \<noteq> 0)"
| "py_truthy (JStr s) = (s \<noteq> [])"
| "py_truthy (JArr xs) = (xs \<noteq> [])"
| "py_truthy (JObj kvs) = (kvs \<noteq> [])"

subsection \<open>UUIDs\<close>

type_synonym uuid = "128 word"

fun hex_digits :: "nat \<Rightarrow> nat \<Rightarrow> string" where
  "hex_digits 0 n = []"
| "hex_digits (Suc k) n = hex_digits k (n div 16) @ [digit_char (n mod 16)]"

definition uuid_hex :: "uuid \<Rightarrow> string" where
  "uuid_hex u = hex_digits 32 (unat u)"

definition uuid_str :: "uuid \<Rightarrow> string" where
  "uuid_str u =
     (let h = uuid_hex u in
        take 8 h @ ''-'' @ take 4 (drop 8 h) @ ''-'' @ take 4 (drop 12 h) @ ''-''
        @ take 4 (drop 16 h) @ ''-'' @ drop 20 h)"

definition hex_val :: "char \<Rightarrow> nat option" where
  "hex_val c =
     (let n = ord c in
        if 48 \<le> n \<and> n \<le> 57 then Some (n - 48)
        else if 97 \<le> n \<and> n \<le> 102 then Some (n - 87)
        else if 65 \<le> n \<and> n \<le> 70 then Some (n - 55)
        else None)"

text \<open>
  The digits of \<open>int(s, 16)\<close>: single underscores are allowed between digits. The flag says
  whether the last character read was a digit.
\<close>

fun hex_run :: "bool \<Rightarrow> nat \<Rightarrow> string \<Rightarrow> nat option" where
  "hex_run prev acc [] = (if prev then Some acc else None)"
| "hex_run prev acc (c # cs) =
     (if c = CHR ''_'' then (if prev then hex_run False acc cs else None)
      else case hex_val c of None \<Rightarrow> None | Some d \<Rightarrow> hex_run True (acc * 16 + d) cs)"

definition skip_hex_prefix :: "string \<Rightarrow> string" where
  "skip_hex_prefix s =
     (case s of
        z # x # cs \<Rightarrow>
          if z = CHR ''0'' \<and> (x = CHR ''x'' \<or> x = CHR ''X'')
          then (case cs of c # cs' \<Rightarrow> if c = CHR ''_'' then cs' else cs | [] \<Rightarrow> cs)
          else s
      | _ \<Rightarrow> s)"

definition py_int16 :: "string \<Rightarrow> int option" where
  "py_int16 s =
     (case py_strip s of
        [] \<Rightarrow> None
      | c # cs \<Rightarrow>
          if c = CHR ''-'' then map_option (\<lambda>n. - int n) (hex_run False 0 (skip_hex_prefix cs))
          else if c = CHR ''+'' then map_option int (hex_run False 0 (skip_hex_prefix cs))
          else map_option int (hex_run False 0 (skip_hex_prefix (c # cs))))"

text \<open>\<open>UUID(s)\<close>; \<open>None\<close> is its \<open>ValueError\<close>.\<close>

definition uuid_parse :: "string \<Rightarrow> uuid option" where
  "uuid_parse s =
     (let h = remove_all ''uuid:'' (remove_all ''urn:'' s);
          h = filter (\<lambda>c. c \<noteq> CHR ''-'') (strip_by (\<lambda>c. c = CHR ''{'' \<or> c = CHR ''}'') h)
      in if length h \<noteq> 32 then None
         else case py_int16 h of
                None \<Rightarrow> None
              | Some i \<Rightarrow> if 0 \<le> i \<and> i < 2 ^ 128 then Some (word_of_int i) else None)"

text \<open>
  \<open>UUID(str(v))\<close> for a JSON value \<open>v\<close>. The printed forms of \<open>None\<close>, booleans and floats are
  shorter than 32 characters, those of lists and dictionaries hold a character that is neither
  a hexadecimal digit nor removed (a bracket, a quote or a colon) or are empty: all of them
  make the constructor raise.
\<close>

definition uuid_of_json :: "json \<Rightarrow> uuid option" where
  "uuid_of_json v =
     (case v of JStr s \<Rightarrow> uuid_parse s | JInt i \<Rightarrow> uuid_parse (show_int i) | _ \<Rightarrow> None)"

subsection \<open>Facts about strings\<close>

lemma strip_by_id: "list_all (\<lambda>c. \<not> p c) s \<Longrightarrow> strip_by p s = s"
proof -
  assume "list_all (\<lambda>c. \<not> p c) s"
  then have all: "\<forall>c \<in> set s. \<not> p c" by (simp add: list_all_iff)
  then have "dropWhile p s = s" by (cases s) auto
  moreover have "dropWhile p (rev s) = rev s"
  proof (cases "rev s")
    case (Cons c cs)
    then have "c \<in> set s" by (metis list.set_intros(1) set_rev)
    with all Cons show ?thesis by simp
  qed simp
  ultimately show ?thesis by (simp add: strip_by_def)
qed

lemma remove_all_id:
  assumes "x \<in> set sub" and "x \<notin> set s"
  shows "remove_all sub s = s"
proof -
  have sw: "starts_with sub t \<Longrightarrow> x \<in> set sub \<Longrightarrow> x \<in> set t" for sub t
    by (induction sub t rule: starts_with.induct) auto
  show ?thesis using assms(2)
  proof (induction s)
    case (Cons c cs)
    then have "\<not> starts_with sub (c # cs)" using sw [of sub "c # cs"] assms(1) by blast
    with Cons show ?case by simp
  qed simp
qed

lemma length_hex_digits [simp]: "length (hex_digits k n) = k"
  by (induction k arbitrary: n) auto

lemma digit_char_hex:
  assumes "d < 16"
  shows "hex_val (digit_char d) = Some d \<and> digit_char d \<notin> set ''_-+:{}xX''
    \<and> \<not> py_isspace (digit_char d)"
proof -
  have "d \<in> set [0..<16]" using assms by simp
  moreover have "\<forall>d \<in> set [0..<16]. hex_val (digit_char d) = Some d
      \<and> digit_char d \<notin> set ''_-+:{}xX'' \<and> \<not> py_isspace (digit_char d)"
    by code_simp
  ultimately show ?thesis by blast
qed

lemma hex_digits_chars: "c \<in> set (hex_digits k n) \<Longrightarrow> \<exists>d < 16. c = digit_char d"
proof (induction k arbitrary: n)
  case (Suc k)
  show ?case
  proof (cases "c = digit_char (n mod 16)")
    case True
    have "n mod 16 < 16" by simp
    with True show ?thesis by blast
  next
    case False
    with Suc.prems have "c \<in> set (hex_digits k (n div 16))" by simp
    then show ?thesis by (rule Suc.IH)
  qed
qed simp

lemma hex_digits_plain:
  assumes "c \<in> set (hex_digits k n)"
  shows "c \<notin> set ''_-+:{}xX''" and "\<not> py_isspace c"
  using hex_digits_chars [OF assms] digit_char_hex by blast+

lemma hex_run_append:
  assumes "\<And>c. c \<in> set xs \<Longrightarrow> \<exists>d < 16. c = digit_char d"
  shows "hex_run prev acc (xs @ ys) =
    hex_run (prev \<or> xs \<noteq> []) (foldl (\<lambda>a c. a * 16 + the (hex_val c)) acc xs) ys"
  using assms
proof (induction xs arbitrary: prev acc)
  case (Cons c cs)
  from Cons.prems [of c] obtain d where d: "d < 16" "c = digit_char d" by auto
  then have c: "hex_val c = Some d" "c \<noteq> CHR ''_''" using digit_char_hex [OF d(1)] by auto
  have "hex_run True (acc * 16 + d) (cs @ ys) =
    hex_run True (foldl (\<lambda>a c. a * 16 + the (hex_val c)) (acc * 16 + d) cs) ys"
    using Cons.IH [of True "acc * 16 + d"] Cons.prems by simp
  with c show ?case by simp
qed simp

lemma hex_run_digits: "hex_run True acc (hex_digits k n) = Some (acc * 16 ^ k + n mod 16 ^ k)"
proof (induction k arbitrary: acc n)
  case (Suc k)
  let ?xs = "hex_digits k (n div 16)"
  let ?v = "foldl (\<lambda>a c. a * 16 + the (hex_val c)) acc ?xs"
  have "hex_run True acc ?xs = Some ?v"
    using hex_run_append [of ?xs True acc "[]"] hex_digits_chars by simp
  with Suc have v: "?v = acc * 16 ^ k + n div 16 mod 16 ^ k" by simp
  have d: "hex_val (digit_char (n mod 16)) = Some (n mod 16)" "digit_char (n mod 16) \<noteq> CHR ''_''"
    using digit_char_hex [of "n mod 16"] by auto
  have "hex_run True acc (hex_digits (Suc k) n) = Some (?v * 16 + n mod 16)"
    using hex_run_append [of ?xs True acc "[digit_char (n mod 16)]"] hex_digits_chars d by simp
  also have "?v * 16 + n mod 16 = acc * 16 ^ Suc k + n mod 16 ^ Suc k"
    unfolding v by (simp add: mod_mult2_eq algebra_simps)
  finally show ?case .
qed simp

lemma uuid_str_no_dash: "filter (\<lambda>c. c \<noteq> CHR ''-'') (uuid_str u) = uuid_hex u"
proof -
  let ?h = "uuid_hex u"
  have keep: "filter (\<lambda>c. c \<noteq> CHR ''-'') xs = xs" if "set xs \<subseteq> set ?h" for xs
  proof -
    have "\<forall>c \<in> set ?h. c \<noteq> CHR ''-''"
      using hex_digits_plain(1) by (fastforce simp: uuid_hex_def)
    with that show ?thesis by (auto simp: filter_id_conv)
  qed
  have sub: "set (take n (drop m ?h)) \<subseteq> set ?h" "set (take n ?h) \<subseteq> set ?h" "set (drop m ?h) \<subseteq> set ?h"
    for n m by (meson set_take_subset set_drop_subset subset_trans)+
  have "filter (\<lambda>c. c \<noteq> CHR ''-'') (uuid_str u) =
    take 8 ?h @ take 4 (drop 8 ?h) @ take 4 (drop 12 ?h) @ take 4 (drop 16 ?h) @ drop 20 ?h"
    by (simp add: uuid_str_def Let_def keep [OF sub(1)] keep [OF sub(2)] keep [OF sub(3)])
  also have "\<dots> = take 20 ?h @ drop 20 ?h"
    using take_add [of 8 4 ?h] take_add [of 12 4 ?h] take_add [of 16 4 ?h] by simp
  finally show ?thesis by simp
qed

lemma uuid_str_chars:
  "c \<in> set (uuid_str u) \<Longrightarrow> c = CHR ''-'' \<or> (\<exists>d < 16. c = digit_char d)"
  using hex_digits_chars [of c 32 "unat u"]
  by (auto simp: uuid_str_def uuid_hex_def Let_def dest!: in_set_takeD in_set_dropD)

lemma uuid_str_plain: "c \<in> set (uuid_str u) \<Longrightarrow> c \<notin> set ''_+:{}xX''"
  using uuid_str_chars [of c u] digit_char_hex by fastforce

lemma length_uuid_str [simp]: "length (uuid_str u) = 36"
  by (simp add: uuid_str_def uuid_hex_def Let_def)

lemma py_int16_digits:
  assumes "0 < k"
  shows "py_int16 (hex_digits k n) = Some (int (n mod 16 ^ k))"
proof -
  let ?h = "hex_digits k n"
  obtain c cs where h: "?h = c # cs" using assms length_hex_digits [of k n] by (cases ?h) auto
  then have c: "c \<in> set ?h" by simp
  have "list_all (\<lambda>c. \<not> py_isspace c) ?h" by (simp add: list_all_iff hex_digits_plain)
  then have "py_strip ?h = c # cs" by (simp add: py_strip_def strip_by_id h)
  moreover have "c \<noteq> CHR ''-''" "c \<noteq> CHR ''+''" using hex_digits_plain(1) [OF c] by auto
  moreover have "skip_hex_prefix (c # cs) = ?h"
  proof (cases cs)
    case (Cons x xs)
    then have "x \<in> set ?h" using h by simp
    then have "x \<noteq> CHR ''x''" "x \<noteq> CHR ''X''" using hex_digits_plain(1) by auto
    with Cons h show ?thesis by (simp add: skip_hex_prefix_def)
  qed (simp add: skip_hex_prefix_def h)
  moreover have "hex_run False 0 ?h = Some (n mod 16 ^ k)"
  proof -
    have ne: "?h \<noteq> []" using h by simp
    have "hex_run b 0 (?h @ []) = Some (foldl (\<lambda>a c. a * 16 + the (hex_val c)) 0 ?h)" for b
      by (subst hex_run_append) (auto simp: ne intro: hex_digits_chars)
    then have "hex_run False 0 ?h = hex_run True 0 ?h" by simp
    then show ?thesis by (simp add: hex_run_digits)
  qed
  ultimately show ?thesis by (simp add: py_int16_def)
qed

lemma uuid_parse_str [simp]: "uuid_parse (uuid_str u) = Some u"
proof -
  have "remove_all ''urn:'' (uuid_str u) = uuid_str u" "remove_all ''uuid:'' (uuid_str u) = uuid_str u"
    using uuid_str_plain [of "CHR '':''" u] by (auto intro!: remove_all_id [of "CHR '':''"])
  moreover have "strip_by (\<lambda>c. c = CHR ''{'' \<or> c = CHR ''}'') (uuid_str u) = uuid_str u"
    using uuid_str_plain by (fastforce intro: strip_by_id simp: list_all_iff)
  moreover have "py_int16 (uuid_hex u) = Some (uint u)"
  proof -
    have "unat u < 16 ^ 32" using unsigned_less [of u] by simp
    then show ?thesis using py_int16_digits [of 32 "unat u"] by (simp add: uuid_hex_def)
  qed
  moreover have "uint u < 2 ^ 128" using unsigned_less [of u] by simp
  ultimately show ?thesis
    by (simp add: uuid_parse_def uuid_str_no_dash Let_def) (simp add: uuid_hex_def)
qed

lemma uuid_of_json_str [simp]: "uuid_of_json (JStr (uuid_str u)) = Some u"
  by (simp add: uuid_of_json_def)

lemma uuid_str_inj [simp]: "uuid_str u = uuid_str v \<longleftrightarrow> u = v"
  by (metis option.inject uuid_parse_str)

lemma obj_get_Cons [simp]: "obj_get ((k', v) # obj) k = (if k' = k then v else obj_get obj k)"
  by (simp add: obj_get_def)

lemma obj_get_Nil [simp]: "obj_get [] k = JNull"
  by (simp add: obj_get_def)

end
