(* ===== verification/Enums.thy ===== *)
theory Enums
  imports Python_Lib
begin

text \<open>
  The enumerations of \<^verbatim>\<open>src/app/models/enums.py\<close>. Where two Python enumerations share a
  member name the constructors carry a prefix (\<open>P_\<close> payment, \<open>A_\<close> action, \<open>W_\<close> webhook,
  \<open>O_\<close> outbox); the \<open>value\<close> function of each type gives the member's string as the source has it.
  Each type is an instance of the library's class \<open>enum\<close>, so statements that quantify over
  members are executable. \<open>action_type_of_value\<close> is the constructor call
  \<open>RecoveryActionType(raw)\<close>, with \<open>None\<close> for its \<open>ValueError\<close>.
\<close>

datatype payment_status =
    P_CREATED
  | P_FAILED
  | P_CAPTURED

datatype recovery_case_status =
    FAILED
  | ELIGIBLE
  | ANALYSING
  | ACTION_SELECTED
  | ACTION_SCHEDULED
  | WAITING
  | RECOVERED
  | STOPPED
  | ESCALATED

datatype recovery_action_type =
    WAIT
  | CREATE_PAYMENT_LINK
  | SEND_REMINDER
  | STOP
  | ESCALATE

datatype recovery_action_status =
    A_PENDING
  | A_APPROVED
  | A_DENIED
  | A_EXECUTING
  | A_EXECUTED
  | A_FAILED
  | A_CANCELLED

datatype webhook_event_status =
    W_RECEIVED
  | W_PROCESSED
  | W_IGNORED
  | W_FAILED

datatype outbox_event_status =
    O_PENDING
  | O_PUBLISHED
  | O_FAILED

fun payment_status_value :: "payment_status \<Rightarrow> string" where
  "payment_status_value P_CREATED = ''CREATED''"
| "payment_status_value P_FAILED = ''FAILED''"
| "payment_status_value P_CAPTURED = ''CAPTURED''"

fun recovery_case_status_value :: "recovery_case_status \<Rightarrow> string" where
  "recovery_case_status_value FAILED = ''FAILED''"
| "recovery_case_status_value ELIGIBLE = ''ELIGIBLE''"
| "recovery_case_status_value ANALYSING = ''ANALYSING''"
| "recovery_case_status_value ACTION_SELECTED = ''ACTION_SELECTED''"
| "recovery_case_status_value ACTION_SCHEDULED = ''ACTION_SCHEDULED''"
| "recovery_case_status_value WAITING = ''WAITING''"
| "recovery_case_status_value RECOVERED = ''RECOVERED''"
| "recovery_case_status_value STOPPED = ''STOPPED''"
| "recovery_case_status_value ESCALATED = ''ESCALATED''"

fun recovery_action_type_value :: "recovery_action_type \<Rightarrow> string" where
  "recovery_action_type_value WAIT = ''WAIT''"
| "recovery_action_type_value CREATE_PAYMENT_LINK = ''CREATE_PAYMENT_LINK''"
| "recovery_action_type_value SEND_REMINDER = ''SEND_REMINDER''"
| "recovery_action_type_value STOP = ''STOP''"
| "recovery_action_type_value ESCALATE = ''ESCALATE''"

fun recovery_action_status_value :: "recovery_action_status \<Rightarrow> string" where
  "recovery_action_status_value A_PENDING = ''PENDING''"
| "recovery_action_status_value A_APPROVED = ''APPROVED''"
| "recovery_action_status_value A_DENIED = ''DENIED''"
| "recovery_action_status_value A_EXECUTING = ''EXECUTING''"
| "recovery_action_status_value A_EXECUTED = ''EXECUTED''"
| "recovery_action_status_value A_FAILED = ''FAILED''"
| "recovery_action_status_value A_CANCELLED = ''CANCELLED''"

fun webhook_event_status_value :: "webhook_event_status \<Rightarrow> string" where
  "webhook_event_status_value W_RECEIVED = ''RECEIVED''"
| "webhook_event_status_value W_PROCESSED = ''PROCESSED''"
| "webhook_event_status_value W_IGNORED = ''IGNORED''"
| "webhook_event_status_value W_FAILED = ''FAILED''"

fun outbox_event_status_value :: "outbox_event_status \<Rightarrow> string" where
  "outbox_event_status_value O_PENDING = ''PENDING''"
| "outbox_event_status_value O_PUBLISHED = ''PUBLISHED''"
| "outbox_event_status_value O_FAILED = ''FAILED''"

definition action_type_of_value :: "string \<Rightarrow> recovery_action_type option" where
  "action_type_of_value s =
     find (\<lambda>a. recovery_action_type_value a = s)
       [WAIT, CREATE_PAYMENT_LINK, SEND_REMINDER, STOP, ESCALATE]"

instantiation payment_status :: enum
begin

definition enum_payment_status :: "payment_status list" where
  "enum_payment_status = [P_CREATED, P_FAILED, P_CAPTURED]"

definition enum_all_payment_status :: "(payment_status \<Rightarrow> bool) \<Rightarrow> bool" where
  "enum_all_payment_status p = list_all p [P_CREATED, P_FAILED, P_CAPTURED]"

definition enum_ex_payment_status :: "(payment_status \<Rightarrow> bool) \<Rightarrow> bool" where
  "enum_ex_payment_status p = list_ex p [P_CREATED, P_FAILED, P_CAPTURED]"

instance
proof
  show univ: "(UNIV :: payment_status set) = set enum_class.enum"
    unfolding enum_payment_status_def using payment_status.exhaust by auto
  show "distinct (enum_class.enum :: payment_status list)"
    by (simp add: enum_payment_status_def)
  fix p :: "payment_status \<Rightarrow> bool"
  show "enum_class.enum_all p = Ball UNIV p"
    unfolding univ by (simp add: enum_all_payment_status_def enum_payment_status_def)
  show "enum_class.enum_ex p = Bex UNIV p"
    unfolding univ by (simp add: enum_ex_payment_status_def enum_payment_status_def)
qed

end

instantiation recovery_case_status :: enum
begin

definition enum_recovery_case_status :: "recovery_case_status list" where
  "enum_recovery_case_status = [FAILED, ELIGIBLE, ANALYSING, ACTION_SELECTED, ACTION_SCHEDULED, WAITING, RECOVERED, STOPPED, ESCALATED]"

definition enum_all_recovery_case_status :: "(recovery_case_status \<Rightarrow> bool) \<Rightarrow> bool" where
  "enum_all_recovery_case_status p = list_all p [FAILED, ELIGIBLE, ANALYSING, ACTION_SELECTED, ACTION_SCHEDULED, WAITING, RECOVERED, STOPPED, ESCALATED]"

definition enum_ex_recovery_case_status :: "(recovery_case_status \<Rightarrow> bool) \<Rightarrow> bool" where
  "enum_ex_recovery_case_status p = list_ex p [FAILED, ELIGIBLE, ANALYSING, ACTION_SELECTED, ACTION_SCHEDULED, WAITING, RECOVERED, STOPPED, ESCALATED]"

instance
proof
  show univ: "(UNIV :: recovery_case_status set) = set enum_class.enum"
    unfolding enum_recovery_case_status_def using recovery_case_status.exhaust by auto
  show "distinct (enum_class.enum :: recovery_case_status list)"
    by (simp add: enum_recovery_case_status_def)
  fix p :: "recovery_case_status \<Rightarrow> bool"
  show "enum_class.enum_all p = Ball UNIV p"
    unfolding univ by (simp add: enum_all_recovery_case_status_def enum_recovery_case_status_def)
  show "enum_class.enum_ex p = Bex UNIV p"
    unfolding univ by (simp add: enum_ex_recovery_case_status_def enum_recovery_case_status_def)
qed

end

instantiation recovery_action_type :: enum
begin

definition enum_recovery_action_type :: "recovery_action_type list" where
  "enum_recovery_action_type = [WAIT, CREATE_PAYMENT_LINK, SEND_REMINDER, STOP, ESCALATE]"

definition enum_all_recovery_action_type :: "(recovery_action_type \<Rightarrow> bool) \<Rightarrow> bool" where
  "enum_all_recovery_action_type p = list_all p [WAIT, CREATE_PAYMENT_LINK, SEND_REMINDER, STOP, ESCALATE]"

definition enum_ex_recovery_action_type :: "(recovery_action_type \<Rightarrow> bool) \<Rightarrow> bool" where
  "enum_ex_recovery_action_type p = list_ex p [WAIT, CREATE_PAYMENT_LINK, SEND_REMINDER, STOP, ESCALATE]"

instance
proof
  show univ: "(UNIV :: recovery_action_type set) = set enum_class.enum"
    unfolding enum_recovery_action_type_def using recovery_action_type.exhaust by auto
  show "distinct (enum_class.enum :: recovery_action_type list)"
    by (simp add: enum_recovery_action_type_def)
  fix p :: "recovery_action_type \<Rightarrow> bool"
  show "enum_class.enum_all p = Ball UNIV p"
    unfolding univ by (simp add: enum_all_recovery_action_type_def enum_recovery_action_type_def)
  show "enum_class.enum_ex p = Bex UNIV p"
    unfolding univ by (simp add: enum_ex_recovery_action_type_def enum_recovery_action_type_def)
qed

end

instantiation recovery_action_status :: enum
begin

definition enum_recovery_action_status :: "recovery_action_status list" where
  "enum_recovery_action_status = [A_PENDING, A_APPROVED, A_DENIED, A_EXECUTING, A_EXECUTED, A_FAILED, A_CANCELLED]"

definition enum_all_recovery_action_status :: "(recovery_action_status \<Rightarrow> bool) \<Rightarrow> bool" where
  "enum_all_recovery_action_status p = list_all p [A_PENDING, A_APPROVED, A_DENIED, A_EXECUTING, A_EXECUTED, A_FAILED, A_CANCELLED]"

definition enum_ex_recovery_action_status :: "(recovery_action_status \<Rightarrow> bool) \<Rightarrow> bool" where
  "enum_ex_recovery_action_status p = list_ex p [A_PENDING, A_APPROVED, A_DENIED, A_EXECUTING, A_EXECUTED, A_FAILED, A_CANCELLED]"

instance
proof
  show univ: "(UNIV :: recovery_action_status set) = set enum_class.enum"
    unfolding enum_recovery_action_status_def using recovery_action_status.exhaust by auto
  show "distinct (enum_class.enum :: recovery_action_status list)"
    by (simp add: enum_recovery_action_status_def)
  fix p :: "recovery_action_status \<Rightarrow> bool"
  show "enum_class.enum_all p = Ball UNIV p"
    unfolding univ by (simp add: enum_all_recovery_action_status_def enum_recovery_action_status_def)
  show "enum_class.enum_ex p = Bex UNIV p"
    unfolding univ by (simp add: enum_ex_recovery_action_status_def enum_recovery_action_status_def)
qed

end

instantiation webhook_event_status :: enum
begin

definition enum_webhook_event_status :: "webhook_event_status list" where
  "enum_webhook_event_status = [W_RECEIVED, W_PROCESSED, W_IGNORED, W_FAILED]"

definition enum_all_webhook_event_status :: "(webhook_event_status \<Rightarrow> bool) \<Rightarrow> bool" where
  "enum_all_webhook_event_status p = list_all p [W_RECEIVED, W_PROCESSED, W_IGNORED, W_FAILED]"

definition enum_ex_webhook_event_status :: "(webhook_event_status \<Rightarrow> bool) \<Rightarrow> bool" where
  "enum_ex_webhook_event_status p = list_ex p [W_RECEIVED, W_PROCESSED, W_IGNORED, W_FAILED]"

instance
proof
  show univ: "(UNIV :: webhook_event_status set) = set enum_class.enum"
    unfolding enum_webhook_event_status_def using webhook_event_status.exhaust by auto
  show "distinct (enum_class.enum :: webhook_event_status list)"
    by (simp add: enum_webhook_event_status_def)
  fix p :: "webhook_event_status \<Rightarrow> bool"
  show "enum_class.enum_all p = Ball UNIV p"
    unfolding univ by (simp add: enum_all_webhook_event_status_def enum_webhook_event_status_def)
  show "enum_class.enum_ex p = Bex UNIV p"
    unfolding univ by (simp add: enum_ex_webhook_event_status_def enum_webhook_event_status_def)
qed

end

instantiation outbox_event_status :: enum
begin

definition enum_outbox_event_status :: "outbox_event_status list" where
  "enum_outbox_event_status = [O_PENDING, O_PUBLISHED, O_FAILED]"

definition enum_all_outbox_event_status :: "(outbox_event_status \<Rightarrow> bool) \<Rightarrow> bool" where
  "enum_all_outbox_event_status p = list_all p [O_PENDING, O_PUBLISHED, O_FAILED]"

definition enum_ex_outbox_event_status :: "(outbox_event_status \<Rightarrow> bool) \<Rightarrow> bool" where
  "enum_ex_outbox_event_status p = list_ex p [O_PENDING, O_PUBLISHED, O_FAILED]"

instance
proof
  show univ: "(UNIV :: outbox_event_status set) = set enum_class.enum"
    unfolding enum_outbox_event_status_def using outbox_event_status.exhaust by auto
  show "distinct (enum_class.enum :: outbox_event_status list)"
    by (simp add: enum_outbox_event_status_def)
  fix p :: "outbox_event_status \<Rightarrow> bool"
  show "enum_class.enum_all p = Ball UNIV p"
    unfolding univ by (simp add: enum_all_outbox_event_status_def enum_outbox_event_status_def)
  show "enum_class.enum_ex p = Bex UNIV p"
    unfolding univ by (simp add: enum_ex_outbox_event_status_def enum_outbox_event_status_def)
qed

end

lemma action_type_of_value_inverse [simp]:
  "action_type_of_value (recovery_action_type_value a) = Some a"
  by (cases a) (simp_all add: action_type_of_value_def)

lemma action_type_of_value_Some:
  "action_type_of_value s = Some a \<longleftrightarrow> s = recovery_action_type_value a"
proof
  assume "action_type_of_value s = Some a"
  then show "s = recovery_action_type_value a"
    by (auto simp: action_type_of_value_def split: if_splits)
qed simp

lemma recovery_action_type_value_inj [simp]:
  "recovery_action_type_value a = recovery_action_type_value b \<longleftrightarrow> a = b"
  by (metis action_type_of_value_inverse option.inject)

lemma action_type_value_no_colon: "CHR '':'' \<notin> set (recovery_action_type_value a)"
  by (cases a) simp_all

lemma length_action_type_value: "length (recovery_action_type_value a) \<le> 19"
  by (cases a) simp_all

end
