(* ===== verification/Recovery_Engine.thy ===== *)
theory Recovery_Engine
  imports Enums
begin

text \<open>
  The deterministic strategy engine, \<^verbatim>\<open>src/app/domain/recovery_engine.py\<close>. Amounts are Python's
  unbounded integers, a delay in hours is a rational (the source uses the floats 24.0 and 1.0).
\<close>

record recovery_decision =
  rd_action :: recovery_action_type
  rd_reason :: string
  rd_delay_hours :: "rat option"

definition MIN_RECOVERABLE_AMOUNT_MINOR :: int where
  "MIN_RECOVERABLE_AMOUNT_MINOR = 1000"

text \<open>\<open>(failure_category or "unknown").strip().lower()\<close>\<close>

definition normalize_category :: "string option \<Rightarrow> string" where
  "normalize_category failure_category =
     py_lower (py_strip
       (case failure_category of
          None \<Rightarrow> ''unknown''
        | Some s \<Rightarrow> if s = [] then ''unknown'' else s))"

definition evaluate_recovery :: "int \<Rightarrow> string option \<Rightarrow> recovery_decision" where
  "evaluate_recovery amount_minor failure_category =
     (if amount_minor < MIN_RECOVERABLE_AMOUNT_MINOR
      then \<lparr>rd_action = STOP, rd_reason = ''low_value_not_worth_recovery'', rd_delay_hours = None\<rparr>
      else
        let category = normalize_category failure_category in
        if category = ''expired_instrument''
        then \<lparr>rd_action = CREATE_PAYMENT_LINK, rd_reason = ''expired_instrument_requires_new_link'',
              rd_delay_hours = None\<rparr>
        else if category = ''insufficient_funds''
        then \<lparr>rd_action = WAIT, rd_reason = ''insufficient_funds_wait_for_funds'',
              rd_delay_hours = Some 24\<rparr>
        else if category = ''temporary_network''
        then \<lparr>rd_action = SEND_REMINDER, rd_reason = ''temporary_network_send_reminder'',
              rd_delay_hours = None\<rparr>
        else if category = ''issuer_failure''
        then \<lparr>rd_action = ESCALATE, rd_reason = ''issuer_failure_requires_manual_review'',
              rd_delay_hours = None\<rparr>
        else \<lparr>rd_action = STOP, rd_reason = ''unknown_or_unrecoverable_failure'',
              rd_delay_hours = None\<rparr>)"

lemma evaluate_recovery_delay:
  "rd_delay_hours (evaluate_recovery a c) = (if rd_action (evaluate_recovery a c) = WAIT then Some 24 else None)"
  by (simp add: evaluate_recovery_def Let_def)

lemma evaluate_recovery_contact_needs_amount:
  "rd_action (evaluate_recovery a c) \<noteq> STOP \<Longrightarrow> 1000 \<le> a"
  by (simp add: evaluate_recovery_def MIN_RECOVERABLE_AMOUNT_MINOR_def split: if_splits)

end
