(* ===== verification/Recovery_State.thy ===== *)
theory Recovery_State
  imports Enums
begin

text \<open>
  The recovery-case state machine, \<^verbatim>\<open>src/app/domain/recovery_state.py\<close>: the terminal states, the
  table of allowed transitions, and the validation every status change goes through.

  The locale \<open>absorbing_machine\<close> is the contract of a state machine with terminal states (no
  step leaves a terminal state); it is interpreted on the case machine here and on the
  action machine where the executor is modelled. Its lemmas count the steps of a path, which
  is what the optimistic version counter of a case records.
\<close>

subsection \<open>Definitions\<close>

definition TERMINAL_STATES :: "recovery_case_status list" where
  "TERMINAL_STATES = [RECOVERED, STOPPED, ESCALATED]"

fun ALLOWED_TRANSITIONS :: "recovery_case_status \<Rightarrow> recovery_case_status list" where
  "ALLOWED_TRANSITIONS FAILED = [ELIGIBLE, STOPPED, RECOVERED]"
| "ALLOWED_TRANSITIONS ELIGIBLE = [ANALYSING, STOPPED, RECOVERED]"
| "ALLOWED_TRANSITIONS ANALYSING = [ACTION_SELECTED, WAITING, STOPPED, ESCALATED, RECOVERED]"
| "ALLOWED_TRANSITIONS ACTION_SELECTED = [ACTION_SCHEDULED, STOPPED, ESCALATED, RECOVERED]"
| "ALLOWED_TRANSITIONS ACTION_SCHEDULED = [WAITING, STOPPED, ESCALATED, RECOVERED]"
| "ALLOWED_TRANSITIONS WAITING = [ACTION_SELECTED, ANALYSING, RECOVERED, STOPPED, ESCALATED]"
| "ALLOWED_TRANSITIONS RECOVERED = []"
| "ALLOWED_TRANSITIONS STOPPED = []"
| "ALLOWED_TRANSITIONS ESCALATED = []"

definition is_terminal :: "recovery_case_status \<Rightarrow> bool" where
  "is_terminal status = (status \<in> set TERMINAL_STATES)"

definition can_transition :: "recovery_case_status \<Rightarrow> recovery_case_status \<Rightarrow> bool" where
  "can_transition current new = (new \<in> set (ALLOWED_TRANSITIONS current))"

definition validate_transition :: "recovery_case_status \<Rightarrow> recovery_case_status \<Rightarrow> unit res" where
  "validate_transition current new =
     (if current = new then Inr ()
      else if is_terminal current
      then Inl (InvalidStateTransition
             (''Cannot transition from terminal state '' @ recovery_case_status_value current
              @ '' to '' @ recovery_case_status_value new))
      else if \<not> can_transition current new
      then Inl (InvalidStateTransition
             (''Invalid recovery case transition: '' @ recovery_case_status_value current
              @ '' -> '' @ recovery_case_status_value new))
      else Inr ())"

subsection \<open>State machines with absorbing states\<close>

locale absorbing_machine =
  fixes step :: "'s \<Rightarrow> 's \<Rightarrow> bool"
    and final :: "'s \<Rightarrow> bool"
  assumes final_stuck: "final s \<Longrightarrow> \<not> step s t"
begin

lemma path_from_final: "(step ^^ n) s t \<Longrightarrow> final s \<Longrightarrow> n = 0 \<and> t = s"
proof (induction n arbitrary: t)
  case (Suc n)
  then obtain u where "(step ^^ n) s u" "step u t" by auto
  with Suc have "u = s" "step s t" by auto
  with final_stuck Suc.prems show ?case by blast
qed simp

lemma run_from_final: "step\<^sup>*\<^sup>* s t \<Longrightarrow> final s \<Longrightarrow> t = s"
  by (meson path_from_final rtranclp_imp_relpowp)

lemma path_append: "(step ^^ n) s t \<Longrightarrow> (step ^^ m) t u \<Longrightarrow> (step ^^ (n + m)) s u"
  by (auto simp: relpowp_add)

lemma path_one: "step s t \<Longrightarrow> (step ^^ 1) s t"
  by (simp only: relpowp_1)

end

subsection \<open>The case machine\<close>

lemma is_terminal_iff: "is_terminal s \<longleftrightarrow> s = RECOVERED \<or> s = STOPPED \<or> s = ESCALATED"
  by (auto simp: is_terminal_def TERMINAL_STATES_def)

lemma is_terminal_simps [simp]:
  "is_terminal RECOVERED" "is_terminal STOPPED" "is_terminal ESCALATED" "\<not> is_terminal FAILED"
  "\<not> is_terminal ELIGIBLE" "\<not> is_terminal ANALYSING" "\<not> is_terminal ACTION_SELECTED"
  "\<not> is_terminal ACTION_SCHEDULED" "\<not> is_terminal WAITING"
  by (simp_all add: is_terminal_iff)

interpretation case_machine: absorbing_machine can_transition is_terminal
  by unfold_locales (auto simp: can_transition_def is_terminal_iff)

lemma validate_transition_ok_iff:
  "validate_transition s t = Inr () \<longleftrightarrow> s = t \<or> can_transition s t"
  by (cases s) (auto simp: validate_transition_def can_transition_def)

lemma validate_transition_Inr [simp]:
  "validate_transition s t = Inr u \<longleftrightarrow> s = t \<or> can_transition s t"
  using validate_transition_ok_iff by (cases u) auto

lemma validate_transition_error:
  "validate_transition s t = Inl e \<Longrightarrow> \<exists>msg. e = InvalidStateTransition msg"
  by (auto simp: validate_transition_def split: if_splits)

lemma recovered_reachable: "\<not> is_terminal s \<Longrightarrow> can_transition s RECOVERED"
  by (cases s) (auto simp: can_transition_def)

text \<open>
  A case status only ever gets closer to a terminal state, up to the loop between
  \<open>WAITING\<close> and the analysis states: \<open>FAILED\<close> and \<open>ELIGIBLE\<close> are never entered again.
\<close>

lemma can_transition_irrefl: "\<not> can_transition s s"
  by (cases s) (auto simp: can_transition_def)

lemma never_back_to_failed: "\<not> can_transition s FAILED"
  by (cases s) (auto simp: can_transition_def)

lemma eligible_only_from_failed: "can_transition s ELIGIBLE \<Longrightarrow> s = FAILED"
  by (cases s) (auto simp: can_transition_def)

lemma path_to_eligible:
  "(can_transition ^^ n) s ELIGIBLE \<Longrightarrow> s = ELIGIBLE \<and> n = 0 \<or> s = FAILED \<and> n = 1"
proof (induction n)
  case (Suc n)
  then obtain u where u: "(can_transition ^^ n) s u" "can_transition u ELIGIBLE" by auto
  then have "u = FAILED" using eligible_only_from_failed by blast
  with u have "n = 0"
    using never_back_to_failed by (cases n) auto
  with u \<open>u = FAILED\<close> show ?case by simp
qed simp

text \<open>
  \<open>validate_transition\<close> accepts exactly the reflexive pairs and the pairs of the table,
  rejects everything else with \<open>InvalidStateTransition\<close>, and a run of accepted status changes
  that starts in a terminal state never leaves it.
\<close>

theorem validate_transition_spec:
  "(validate_transition s t = Inr () \<longleftrightarrow> s = t \<or> t \<in> set (ALLOWED_TRANSITIONS s))
   \<and> ((\<exists>msg. validate_transition s t = Inl (InvalidStateTransition msg))
       \<longleftrightarrow> s \<noteq> t \<and> t \<notin> set (ALLOWED_TRANSITIONS s))
   \<and> (is_terminal s \<and> (\<lambda>a b. validate_transition a b = Inr ())\<^sup>*\<^sup>* s t \<longleftrightarrow> is_terminal s \<and> s = t)"
proof -
  have acc: "(validate_transition a b = Inr ()) \<longleftrightarrow> a = b \<or> b \<in> set (ALLOWED_TRANSITIONS a)" for a b
    by (simp add: can_transition_def)
  have "(\<exists>msg. validate_transition s t = Inl (InvalidStateTransition msg))
       \<longleftrightarrow> validate_transition s t \<noteq> Inr ()"
    using validate_transition_error [of s t]
    by (cases "validate_transition s t") (auto simp del: validate_transition_Inr)
  with acc have rej: "(\<exists>msg. validate_transition s t = Inl (InvalidStateTransition msg))
       \<longleftrightarrow> s \<noteq> t \<and> t \<notin> set (ALLOWED_TRANSITIONS s)"
    by blast
  have "(\<lambda>a b. validate_transition a b = Inr ())\<^sup>*\<^sup>* s t \<Longrightarrow> is_terminal s \<Longrightarrow> s = t"
  proof (induction rule: rtranclp_induct)
    case (step b c)
    then have "is_terminal b" by simp
    with step show ?case using case_machine.final_stuck by auto
  qed simp
  with acc rej show ?thesis by blast
qed

end
