(* ===== verification/Policy.thy ===== *)
theory Policy
  imports Recovery_State
begin

text \<open>
  The policy engine, \<^verbatim>\<open>src/app/domain/policy.py\<close>: merchant limits, the counted context of a case,
  and the decision on a candidate action.

  The locale \<open>guardrail\<close> is what the worker and the executor rely on: an approval is an approval
  of the candidate itself, and a terminal case is always answered with a refusal and \<open>STOP\<close>.
\<close>

record policy_limits =
  max_actions_per_case :: int
  max_reminders_per_case :: int
  one_active_payment_link :: bool
  high_value_escalation_enabled :: bool
  high_value_threshold_minor :: int

record policy_input =
  pi_case_status :: recovery_case_status
  pi_amount_minor :: int
  pi_candidate_action :: recovery_action_type
  pi_total_action_count :: int
  pi_reminder_count :: int
  pi_active_payment_link_count :: int

record policy_decision =
  pd_approved :: bool
  pd_final_action :: recovery_action_type
  pd_reason :: string
  pd_delay_hours :: "rat option"

definition evaluate_policy :: "policy_limits \<Rightarrow> policy_input \<Rightarrow> rat option \<Rightarrow> policy_decision" where
  "evaluate_policy limits policy_input candidate_delay_hours =
     (if is_terminal (pi_case_status policy_input)
      then \<lparr>pd_approved = False, pd_final_action = STOP, pd_reason = ''terminal_state_protected'',
            pd_delay_hours = None\<rparr>
      else
        let candidate = pi_candidate_action policy_input in
        if (high_value_escalation_enabled limits
            \<and> high_value_threshold_minor limits \<le> pi_amount_minor policy_input)
           \<and> candidate \<notin> {ESCALATE, STOP}
        then \<lparr>pd_approved = False, pd_final_action = ESCALATE,
              pd_reason = ''high_value_requires_escalation'', pd_delay_hours = None\<rparr>
        else if max_actions_per_case limits \<le> pi_total_action_count policy_input
        then \<lparr>pd_approved = False, pd_final_action = STOP,
              pd_reason = ''max_actions_per_case_reached'', pd_delay_hours = None\<rparr>
        else if candidate = SEND_REMINDER
                \<and> max_reminders_per_case limits \<le> pi_reminder_count policy_input
        then \<lparr>pd_approved = False, pd_final_action = STOP, pd_reason = ''max_reminders_reached'',
              pd_delay_hours = None\<rparr>
        else if candidate = CREATE_PAYMENT_LINK \<and> one_active_payment_link limits
                \<and> 0 < pi_active_payment_link_count policy_input
        then \<lparr>pd_approved = False, pd_final_action = WAIT,
              pd_reason = ''active_payment_link_exists'', pd_delay_hours = Some 1\<rparr>
        else if candidate = WAIT
        then \<lparr>pd_approved = True, pd_final_action = WAIT, pd_reason = ''policy_approved_wait'',
              pd_delay_hours = candidate_delay_hours\<rparr>
        else \<lparr>pd_approved = True, pd_final_action = candidate, pd_reason = ''policy_approved'',
              pd_delay_hours = None\<rparr>)"

subsection \<open>Specification of the limits\<close>

text \<open>
  What the limits permit, written without reference to the order of the checks: a case that is
  not terminal, below the action limit, and for each kind of contact its own limit.
\<close>

definition high_value :: "policy_limits \<Rightarrow> policy_input \<Rightarrow> bool" where
  "high_value limits pin =
     (high_value_escalation_enabled limits \<and> high_value_threshold_minor limits \<le> pi_amount_minor pin)"

definition permitted :: "policy_limits \<Rightarrow> policy_input \<Rightarrow> bool" where
  "permitted limits pin =
     (\<not> is_terminal (pi_case_status pin)
      \<and> pi_total_action_count pin < max_actions_per_case limits
      \<and> (pi_candidate_action pin \<in> {WAIT, CREATE_PAYMENT_LINK, SEND_REMINDER} \<longrightarrow> \<not> high_value limits pin)
      \<and> (pi_candidate_action pin = SEND_REMINDER \<longrightarrow> pi_reminder_count pin < max_reminders_per_case limits)
      \<and> (pi_candidate_action pin = CREATE_PAYMENT_LINK \<and> one_active_payment_link limits
           \<longrightarrow> pi_active_payment_link_count pin \<le> 0))"

locale guardrail =
  fixes evaluate :: "'limits \<Rightarrow> 'pinput \<Rightarrow> rat option \<Rightarrow> policy_decision"
    and candidate :: "'pinput \<Rightarrow> recovery_action_type"
    and allowed :: "'limits \<Rightarrow> 'pinput \<Rightarrow> bool"
  assumes approved_iff: "pd_approved (evaluate l i d) \<longleftrightarrow> allowed l i"
    and approved_final: "pd_approved (evaluate l i d) \<Longrightarrow> pd_final_action (evaluate l i d) = candidate i"
begin

lemma final_is_candidate:
  "pd_approved (evaluate l i d) \<and> pd_final_action (evaluate l i d) = candidate i \<longleftrightarrow> allowed l i"
  using approved_iff approved_final by blast

lemma approval_ignores_delay: "pd_approved (evaluate l i d) = pd_approved (evaluate l i d')"
  by (simp add: approved_iff)

end

lemma evaluate_policy_approved_iff:
  "pd_approved (evaluate_policy l i d) \<longleftrightarrow> permitted l i"
  by (cases "pi_candidate_action i")
    (auto simp: evaluate_policy_def permitted_def high_value_def Let_def)

lemma evaluate_policy_approved_final:
  "pd_approved (evaluate_policy l i d) \<Longrightarrow> pd_final_action (evaluate_policy l i d) = pi_candidate_action i"
  by (auto simp: evaluate_policy_def Let_def split: if_splits)

interpretation policy_guard: guardrail evaluate_policy pi_candidate_action permitted
  by unfold_locales (rule evaluate_policy_approved_iff, rule evaluate_policy_approved_final)

lemma evaluate_policy_final_cases:
  "pd_final_action (evaluate_policy l i d) \<in>
     {pi_candidate_action i, STOP, ESCALATE, WAIT}"
  by (auto simp: evaluate_policy_def Let_def)

text \<open>
  C19: the ordered checks of \<open>evaluate_policy\<close> implement the order-free specification
  \<open>permitted\<close>: a candidate is approved exactly when no limit forbids it, and then it is
  returned unchanged.
\<close>

theorem evaluate_policy_refines_permitted:
  "(pd_approved (evaluate_policy limits pin d) \<longleftrightarrow> permitted limits pin)
   \<and> (pd_approved (evaluate_policy limits pin d)
        = (pd_approved (evaluate_policy limits pin d)
           \<and> pd_final_action (evaluate_policy limits pin d) = pi_candidate_action pin))"
  using policy_guard.approved_iff policy_guard.approved_final by blast

text \<open>
  What the policy answers to a refused candidate never contacts the customer: the final action is
  then \<open>STOP\<close>, \<open>ESCALATE\<close> or \<open>WAIT\<close>, \<open>ESCALATE\<close> only for a high-value case that
  is not terminal, \<open>WAIT\<close> (for one hour) only because of an active payment link, and
  \<open>STOP\<close> for every terminal case.
\<close>

theorem evaluate_policy_fallback_safe:
  assumes "\<not> pd_approved (evaluate_policy limits pin d)"
  shows "(let a = pd_final_action (evaluate_policy limits pin d) in
      a \<in> {STOP, ESCALATE, WAIT}
      \<and> (a = ESCALATE \<longrightarrow> high_value limits pin \<and> \<not> is_terminal (pi_case_status pin))
      \<and> (a = WAIT \<longrightarrow> pd_delay_hours (evaluate_policy limits pin d) = Some 1
            \<and> pi_candidate_action pin = CREATE_PAYMENT_LINK \<and> 0 < pi_active_payment_link_count pin)
      \<and> (is_terminal (pi_case_status pin) \<longrightarrow> a = STOP))"
  using assms by (auto simp: evaluate_policy_def high_value_def Let_def split: if_splits)

text \<open>
  The outcome of the policy is stable under re-evaluation of its own answer, except for a
  high-value case whose action limit is exhausted (there \<open>ESCALATE\<close> is re-evaluated to \<open>STOP\<close>).
\<close>

lemma evaluate_policy_idempotent:
  assumes "\<not> (high_value l i \<and> max_actions_per_case l \<le> pi_total_action_count i)"
  shows "pd_final_action
      (evaluate_policy l (i\<lparr>pi_candidate_action := pd_final_action (evaluate_policy l i d)\<rparr>) d') =
    pd_final_action (evaluate_policy l i d)"
  using assms by (auto simp: evaluate_policy_def high_value_def Let_def)

end
