(* ===== verification/Schema.thy ===== *)
theory Schema
  imports Enums
begin

text \<open>
  The relational schema, \<^verbatim>\<open>src/app/models/*.py\<close>: one record per table row, the checks PostgreSQL
  makes when a row is written (column widths and integer ranges: \<open>DataError\<close>; check, unique,
  primary-key and foreign-key constraints: \<open>IntegrityError\<close>), and the database as a record of
  tables. Times are microseconds since the epoch.

  The database record also holds what a transaction draws from its surroundings: \<open>uuid4\<close> with
  the number of draws made so far (the column default \<open>uuid.uuid4\<close>), and \<open>clock\<close>, the instant
  at which the transaction runs. All reads of the clock in one transaction (\<open>utcnow()\<close> and the
  server's \<open>now()\<close>) give this instant; the clock moves between transactions.

  The locale \<open>keyed_table\<close> is the contract every table offers to the components; each table is an
  interpretation of it.
\<close>

subsection \<open>Rows\<close>

record merchant =
  m_id :: uuid
  m_name :: string
  m_is_active :: bool
  m_created_at :: int
  m_updated_at :: int

record payment =
  pay_id :: uuid
  pay_merchant_id :: uuid
  pay_provider :: string
  pay_provider_payment_id :: string
  pay_status :: payment_status
  pay_amount_minor :: int
  pay_currency :: string
  pay_failure_code :: "string option"
  pay_failure_reason :: "string option"
  pay_failed_at :: "int option"
  pay_captured_at :: "int option"
  pay_created_at :: int
  pay_updated_at :: int

record recovery_case =
  rc_id :: uuid
  rc_merchant_id :: uuid
  rc_payment_id :: uuid
  rc_status :: recovery_case_status
  rc_amount_minor :: int
  rc_currency :: string
  rc_failure_category :: "string option"
  rc_next_action_at :: "int option"
  rc_version :: int
  rc_created_at :: int
  rc_updated_at :: int

record recovery_action =
  ra_id :: uuid
  ra_merchant_id :: uuid
  ra_recovery_case_id :: uuid
  ra_action_type :: recovery_action_type
  ra_status :: recovery_action_status
  ra_idempotency_key :: string
  ra_attempt_number :: int
  ra_provider_reference :: "string option"
  ra_scheduled_at :: "int option"
  ra_executed_at :: "int option"
  ra_failure_reason :: "string option"
  ra_created_at :: int
  ra_updated_at :: int

record merchant_policy =
  mp_id :: uuid
  mp_merchant_id :: uuid
  mp_max_actions_per_case :: int
  mp_max_reminders_per_case :: int
  mp_one_active_payment_link :: bool
  mp_high_value_escalation_enabled :: bool
  mp_high_value_threshold_minor :: int
  mp_is_active :: bool
  mp_created_at :: int
  mp_updated_at :: int

record webhook_event =
  wh_id :: uuid
  wh_merchant_id :: uuid
  wh_provider :: string
  wh_provider_event_id :: string
  wh_event_type :: string
  wh_payload :: json_obj
  wh_status :: webhook_event_status
  wh_received_at :: int
  wh_processed_at :: "int option"
  wh_error_message :: "string option"

record outbox_event =
  ob_id :: uuid
  ob_merchant_id :: uuid
  ob_aggregate_type :: string
  ob_aggregate_id :: string
  ob_event_type :: string
  ob_payload :: json_obj
  ob_idempotency_key :: string
  ob_status :: outbox_event_status
  ob_attempts :: int
  ob_last_error :: "string option"
  ob_created_at :: int
  ob_published_at :: "int option"
  ob_deliver_at :: "int option"

record audit_event =
  au_id :: uuid
  au_merchant_id :: uuid
  au_entity_type :: string
  au_entity_id :: string
  au_event_type :: string
  au_actor :: string
  au_correlation_id :: "string option"
  au_payload :: json_obj
  au_created_at :: int

record db =
  merchants :: "merchant list"
  payments :: "payment list"
  recovery_cases :: "recovery_case list"
  recovery_actions :: "recovery_action list"
  merchant_policies :: "merchant_policy list"
  webhook_events :: "webhook_event list"
  outbox_events :: "outbox_event list"
  audit_events :: "audit_event list"
  uuid4 :: "nat \<Rightarrow> uuid"
  uuid_drawn :: nat
  clock :: int

definition empty_db :: "(nat \<Rightarrow> uuid) \<Rightarrow> int \<Rightarrow> db" where
  "empty_db us t =
     \<lparr>merchants = [], payments = [], recovery_cases = [], recovery_actions = [],
      merchant_policies = [], webhook_events = [], outbox_events = [], audit_events = [],
      uuid4 = us, uuid_drawn = 0, clock = t\<rparr>"

text \<open>One draw of the identifier source.\<close>

definition new_uuid :: "db \<Rightarrow> uuid \<times> db" where
  "new_uuid d = (uuid4 d (uuid_drawn d), d\<lparr>uuid_drawn := Suc (uuid_drawn d)\<rparr>)"

subsection \<open>Column checks\<close>

definition varchar_ok :: "nat \<Rightarrow> string \<Rightarrow> bool" where
  "varchar_ok n s = (length s \<le> n)"

definition opt_varchar_ok :: "nat \<Rightarrow> string option \<Rightarrow> bool" where
  "opt_varchar_ok n x = (case x of None \<Rightarrow> True | Some s \<Rightarrow> varchar_ok n s)"

definition bigint_ok :: "int \<Rightarrow> bool" where
  "bigint_ok i = (- (2 ^ 63) \<le> i \<and> i < 2 ^ 63)"

definition integer_ok :: "int \<Rightarrow> bool" where
  "integer_ok i = (- (2 ^ 31) \<le> i \<and> i < 2 ^ 31)"

text \<open>The check \<open>currency ~ '^[A-Z]{3}$'\<close>.\<close>

definition currency_ok :: "string \<Rightarrow> bool" where
  "currency_ok s = (length s = 3 \<and> list_all (\<lambda>c. 65 \<le> ord c \<and> ord c \<le> 90) s)"

definition payment_row_check :: "payment \<Rightarrow> unit res" where
  "payment_row_check p =
     (if \<not> (varchar_ok 32 (pay_provider p) \<and> varchar_ok 128 (pay_provider_payment_id p)
            \<and> bigint_ok (pay_amount_minor p) \<and> varchar_ok 3 (pay_currency p)
            \<and> opt_varchar_ok 128 (pay_failure_code p) \<and> opt_varchar_ok 512 (pay_failure_reason p))
      then Inl DataError
      else if pay_amount_minor p < 0 \<or> \<not> currency_ok (pay_currency p) then Inl IntegrityError
      else Inr ())"

definition case_row_check :: "recovery_case \<Rightarrow> unit res" where
  "case_row_check c =
     (if \<not> (bigint_ok (rc_amount_minor c) \<and> varchar_ok 3 (rc_currency c)
            \<and> opt_varchar_ok 128 (rc_failure_category c) \<and> integer_ok (rc_version c))
      then Inl DataError
      else if rc_amount_minor c < 0 \<or> \<not> currency_ok (rc_currency c) \<or> rc_version c \<le> 0
      then Inl IntegrityError
      else Inr ())"

definition action_row_check :: "recovery_action \<Rightarrow> unit res" where
  "action_row_check a =
     (if \<not> (varchar_ok 128 (ra_idempotency_key a) \<and> integer_ok (ra_attempt_number a)
            \<and> opt_varchar_ok 128 (ra_provider_reference a) \<and> opt_varchar_ok 512 (ra_failure_reason a))
      then Inl DataError
      else if ra_attempt_number a \<le> 0 then Inl IntegrityError
      else Inr ())"

definition policy_row_check :: "merchant_policy \<Rightarrow> unit res" where
  "policy_row_check p =
     (if \<not> (integer_ok (mp_max_actions_per_case p) \<and> integer_ok (mp_max_reminders_per_case p)
            \<and> bigint_ok (mp_high_value_threshold_minor p))
      then Inl DataError
      else if mp_max_actions_per_case p < 0 \<or> mp_max_reminders_per_case p < 0
              \<or> mp_high_value_threshold_minor p < 0
      then Inl IntegrityError
      else Inr ())"

definition webhook_row_check :: "webhook_event \<Rightarrow> unit res" where
  "webhook_row_check w =
     (if varchar_ok 32 (wh_provider w) \<and> varchar_ok 128 (wh_provider_event_id w)
         \<and> varchar_ok 128 (wh_event_type w) \<and> opt_varchar_ok 512 (wh_error_message w)
      then Inr () else Inl DataError)"

definition outbox_row_check :: "outbox_event \<Rightarrow> unit res" where
  "outbox_row_check b =
     (if \<not> (varchar_ok 64 (ob_aggregate_type b) \<and> varchar_ok 64 (ob_aggregate_id b)
            \<and> varchar_ok 128 (ob_event_type b) \<and> varchar_ok 128 (ob_idempotency_key b)
            \<and> integer_ok (ob_attempts b) \<and> opt_varchar_ok 512 (ob_last_error b))
      then Inl DataError
      else if ob_attempts b < 0 then Inl IntegrityError
      else Inr ())"

definition audit_row_check :: "audit_event \<Rightarrow> unit res" where
  "audit_row_check a =
     (if varchar_ok 64 (au_entity_type a) \<and> varchar_ok 64 (au_entity_id a)
         \<and> varchar_ok 128 (au_event_type a) \<and> varchar_ok 64 (au_actor a)
         \<and> opt_varchar_ok 64 (au_correlation_id a)
      then Inr () else Inl DataError)"

subsection \<open>Lookups by primary key\<close>

definition get_merchant :: "db \<Rightarrow> uuid \<Rightarrow> merchant option" where
  "get_merchant d i = get_row m_id i (merchants d)"

definition get_payment :: "db \<Rightarrow> uuid \<Rightarrow> payment option" where
  "get_payment d i = get_row pay_id i (payments d)"

definition get_case :: "db \<Rightarrow> uuid \<Rightarrow> recovery_case option" where
  "get_case d i = get_row rc_id i (recovery_cases d)"

definition get_action :: "db \<Rightarrow> uuid \<Rightarrow> recovery_action option" where
  "get_action d i = get_row ra_id i (recovery_actions d)"

definition get_policy :: "db \<Rightarrow> uuid \<Rightarrow> merchant_policy option" where
  "get_policy d i = get_row mp_id i (merchant_policies d)"

definition get_webhook :: "db \<Rightarrow> uuid \<Rightarrow> webhook_event option" where
  "get_webhook d i = get_row wh_id i (webhook_events d)"

definition get_outbox :: "db \<Rightarrow> uuid \<Rightarrow> outbox_event option" where
  "get_outbox d i = get_row ob_id i (outbox_events d)"

definition get_audit :: "db \<Rightarrow> uuid \<Rightarrow> audit_event option" where
  "get_audit d i = get_row au_id i (audit_events d)"

subsection \<open>Inserts\<close>

definition insert_payment :: "payment \<Rightarrow> db \<Rightarrow> db res" where
  "insert_payment p d =
     res_bind (payment_row_check p) (\<lambda>_.
       if get_payment d (pay_id p) \<noteq> None \<or> get_merchant d (pay_merchant_id p) = None
          \<or> list_ex (\<lambda>q. pay_merchant_id q = pay_merchant_id p \<and> pay_provider q = pay_provider p
                 \<and> pay_provider_payment_id q = pay_provider_payment_id p) (payments d)
       then Inl IntegrityError
       else Inr (d\<lparr>payments := payments d @ [p]\<rparr>))"

definition insert_case :: "recovery_case \<Rightarrow> db \<Rightarrow> db res" where
  "insert_case c d =
     res_bind (case_row_check c) (\<lambda>_.
       if get_case d (rc_id c) \<noteq> None \<or> get_merchant d (rc_merchant_id c) = None
          \<or> get_payment d (rc_payment_id c) = None
          \<or> list_ex (\<lambda>q. rc_payment_id q = rc_payment_id c) (recovery_cases d)
       then Inl IntegrityError
       else Inr (d\<lparr>recovery_cases := recovery_cases d @ [c]\<rparr>))"

definition insert_action :: "recovery_action \<Rightarrow> db \<Rightarrow> db res" where
  "insert_action a d =
     res_bind (action_row_check a) (\<lambda>_.
       if get_action d (ra_id a) \<noteq> None \<or> get_merchant d (ra_merchant_id a) = None
          \<or> get_case d (ra_recovery_case_id a) = None
          \<or> list_ex (\<lambda>q. ra_idempotency_key q = ra_idempotency_key a
                 \<or> ra_recovery_case_id q = ra_recovery_case_id a \<and> ra_action_type q = ra_action_type a
                   \<and> ra_attempt_number q = ra_attempt_number a) (recovery_actions d)
       then Inl IntegrityError
       else Inr (d\<lparr>recovery_actions := recovery_actions d @ [a]\<rparr>))"

definition insert_policy :: "merchant_policy \<Rightarrow> db \<Rightarrow> db res" where
  "insert_policy p d =
     res_bind (policy_row_check p) (\<lambda>_.
       if get_policy d (mp_id p) \<noteq> None \<or> get_merchant d (mp_merchant_id p) = None
          \<or> list_ex (\<lambda>q. mp_merchant_id q = mp_merchant_id p) (merchant_policies d)
       then Inl IntegrityError
       else Inr (d\<lparr>merchant_policies := merchant_policies d @ [p]\<rparr>))"

definition insert_webhook :: "webhook_event \<Rightarrow> db \<Rightarrow> db res" where
  "insert_webhook w d =
     res_bind (webhook_row_check w) (\<lambda>_.
       if get_webhook d (wh_id w) \<noteq> None \<or> get_merchant d (wh_merchant_id w) = None
          \<or> list_ex (\<lambda>q. wh_provider q = wh_provider w \<and> wh_provider_event_id q = wh_provider_event_id w)
              (webhook_events d)
       then Inl IntegrityError
       else Inr (d\<lparr>webhook_events := webhook_events d @ [w]\<rparr>))"

definition insert_outbox :: "outbox_event \<Rightarrow> db \<Rightarrow> db res" where
  "insert_outbox b d =
     res_bind (outbox_row_check b) (\<lambda>_.
       if get_outbox d (ob_id b) \<noteq> None \<or> get_merchant d (ob_merchant_id b) = None
          \<or> list_ex (\<lambda>q. ob_idempotency_key q = ob_idempotency_key b) (outbox_events d)
       then Inl IntegrityError
       else Inr (d\<lparr>outbox_events := outbox_events d @ [b]\<rparr>))"

definition insert_audit_row :: "audit_event \<Rightarrow> db \<Rightarrow> db res" where
  "insert_audit_row a d =
     res_bind (audit_row_check a) (\<lambda>_.
       if get_audit d (au_id a) \<noteq> None \<or> get_merchant d (au_merchant_id a) = None
       then Inl IntegrityError
       else Inr (d\<lparr>audit_events := audit_events d @ [a]\<rparr>))"

subsection \<open>Updates of one loaded row at a flush\<close>

text \<open>
  A flush writes the changed attributes of a loaded object back to its row; the columns the code
  changes are not part of a unique constraint. \<open>onupdate\<close> sets the timestamp.
\<close>

definition flush_payment :: "payment \<Rightarrow> db \<Rightarrow> db res" where
  "flush_payment p d =
     res_bind (payment_row_check p) (\<lambda>_.
       Inr (d\<lparr>payments := upd_where (\<lambda>q. pay_id q = pay_id p) (\<lambda>_. p\<lparr>pay_updated_at := clock d\<rparr>) (payments d)\<rparr>))"

definition flush_case :: "recovery_case \<Rightarrow> db \<Rightarrow> db res" where
  "flush_case c d =
     res_bind (case_row_check c) (\<lambda>_.
       Inr (d\<lparr>recovery_cases := upd_where (\<lambda>q. rc_id q = rc_id c) (\<lambda>_. c\<lparr>rc_updated_at := clock d\<rparr>) (recovery_cases d)\<rparr>))"

definition flush_action :: "recovery_action \<Rightarrow> db \<Rightarrow> db res" where
  "flush_action a d =
     res_bind (action_row_check a) (\<lambda>_.
       Inr (d\<lparr>recovery_actions := upd_where (\<lambda>q. ra_id q = ra_id a) (\<lambda>_. a\<lparr>ra_updated_at := clock d\<rparr>) (recovery_actions d)\<rparr>))"

definition flush_webhook :: "webhook_event \<Rightarrow> db \<Rightarrow> db res" where
  "flush_webhook w d =
     res_bind (webhook_row_check w) (\<lambda>_.
       Inr (d\<lparr>webhook_events := upd_where (\<lambda>q. wh_id q = wh_id w) (\<lambda>_. w) (webhook_events d)\<rparr>))"

definition flush_outbox :: "outbox_event \<Rightarrow> db \<Rightarrow> db res" where
  "flush_outbox b d =
     res_bind (outbox_row_check b) (\<lambda>_.
       Inr (d\<lparr>outbox_events := upd_where (\<lambda>q. ob_id q = ob_id b) (\<lambda>_. b) (outbox_events d)\<rparr>))"

subsection \<open>UPDATE statements\<close>

text \<open>\<open>session.execute(update(T).where(p).values(f))\<close>: the row count and the database after it.\<close>

definition update_cases ::
  "(recovery_case \<Rightarrow> bool) \<Rightarrow> (recovery_case \<Rightarrow> recovery_case) \<Rightarrow> db \<Rightarrow> nat \<times> db" where
  "update_cases p f d =
     (count_where p (recovery_cases d), d\<lparr>recovery_cases := upd_where p f (recovery_cases d)\<rparr>)"

definition update_actions ::
  "(recovery_action \<Rightarrow> bool) \<Rightarrow> (recovery_action \<Rightarrow> recovery_action) \<Rightarrow> db \<Rightarrow> nat \<times> db" where
  "update_actions p f d =
     (count_where p (recovery_actions d), d\<lparr>recovery_actions := upd_where p f (recovery_actions d)\<rparr>)"

subsection \<open>Transactions\<close>

text \<open>
  \<open>with session.begin()\<close>: the transaction commits when its block is left normally (a \<open>return\<close>
  included) and is rolled back when an exception leaves it.
\<close>

definition in_transaction :: "(db \<Rightarrow> ('a \<times> db) res) \<Rightarrow> db \<Rightarrow> 'a res \<times> db" where
  "in_transaction body d = (case body d of Inl e \<Rightarrow> (Inl e, d) | Inr (x, d') \<Rightarrow> (Inr x, d'))"

subsection \<open>Every table keeps the contract\<close>

lemmas get_defs = get_merchant_def get_payment_def get_case_def get_action_def get_policy_def
  get_webhook_def get_outbox_def get_audit_def

lemmas insert_defs = insert_payment_def insert_case_def insert_action_def insert_policy_def
  insert_webhook_def insert_outbox_def insert_audit_row_def

interpretation payment_table: keyed_table pay_id get_payment insert_payment
  "\<lambda>p f d. d\<lparr>payments := upd_where p f (payments d)\<rparr>"
  by unfold_locales
    (auto simp: get_defs insert_defs row_simps dest: get_row_SomeD split: if_splits option.splits)

interpretation case_table: keyed_table rc_id get_case insert_case "\<lambda>p f d. snd (update_cases p f d)"
  by unfold_locales
    (auto simp: get_defs insert_defs update_cases_def row_simps dest: get_row_SomeD
      split: if_splits option.splits)

interpretation action_table: keyed_table ra_id get_action insert_action "\<lambda>p f d. snd (update_actions p f d)"
  by unfold_locales
    (auto simp: get_defs insert_defs update_actions_def row_simps dest: get_row_SomeD
      split: if_splits option.splits)

interpretation policy_table: keyed_table mp_id get_policy insert_policy
  "\<lambda>p f d. d\<lparr>merchant_policies := upd_where p f (merchant_policies d)\<rparr>"
  by unfold_locales
    (auto simp: get_defs insert_defs row_simps dest: get_row_SomeD split: if_splits option.splits)

interpretation webhook_table: keyed_table wh_id get_webhook insert_webhook
  "\<lambda>p f d. d\<lparr>webhook_events := upd_where p f (webhook_events d)\<rparr>"
  by unfold_locales
    (auto simp: get_defs insert_defs row_simps dest: get_row_SomeD split: if_splits option.splits)

interpretation outbox_table: keyed_table ob_id get_outbox insert_outbox
  "\<lambda>p f d. d\<lparr>outbox_events := upd_where p f (outbox_events d)\<rparr>"
  by unfold_locales
    (auto simp: get_defs insert_defs row_simps dest: get_row_SomeD split: if_splits option.splits)

interpretation audit_table: keyed_table au_id get_audit insert_audit_row
  "\<lambda>p f d. d\<lparr>audit_events := upd_where p f (audit_events d)\<rparr>"
  by unfold_locales
    (auto simp: get_defs insert_defs row_simps dest: get_row_SomeD split: if_splits option.splits)

text \<open>What an insert does to the database.\<close>

lemma insert_Inr:
  "insert_payment p d = Inr d' \<Longrightarrow> d' = d\<lparr>payments := payments d @ [p]\<rparr>"
  "insert_case c d = Inr d' \<Longrightarrow> d' = d\<lparr>recovery_cases := recovery_cases d @ [c]\<rparr>"
  "insert_action a d = Inr d' \<Longrightarrow> d' = d\<lparr>recovery_actions := recovery_actions d @ [a]\<rparr>"
  "insert_policy mp d = Inr d' \<Longrightarrow> d' = d\<lparr>merchant_policies := merchant_policies d @ [mp]\<rparr>"
  "insert_webhook w d = Inr d' \<Longrightarrow> d' = d\<lparr>webhook_events := webhook_events d @ [w]\<rparr>"
  "insert_outbox b d = Inr d' \<Longrightarrow> d' = d\<lparr>outbox_events := outbox_events d @ [b]\<rparr>"
  "insert_audit_row u d = Inr d' \<Longrightarrow> d' = d\<lparr>audit_events := audit_events d @ [u]\<rparr>"
  by (auto simp: insert_defs split: if_splits)

text \<open>Columns a row check does not look at.\<close>

lemma row_check_simps [simp]:
  "payment_row_check (p\<lparr>pay_updated_at := t\<rparr>) = payment_row_check p"
  "case_row_check (c\<lparr>rc_updated_at := t\<rparr>) = case_row_check c"
  "case_row_check (c\<lparr>rc_status := s\<rparr>) = case_row_check c"
  "case_row_check (c\<lparr>rc_next_action_at := n\<rparr>) = case_row_check c"
  "action_row_check (a\<lparr>ra_updated_at := t\<rparr>) = action_row_check a"
  "action_row_check (a\<lparr>ra_status := st\<rparr>) = action_row_check a"
  "webhook_row_check (w\<lparr>wh_status := ws\<rparr>) = webhook_row_check w"
  "webhook_row_check (w\<lparr>wh_processed_at := n\<rparr>) = webhook_row_check w"
  by (simp_all add: payment_row_check_def case_row_check_def action_row_check_def webhook_row_check_def)

lemma case_row_check_iff:
  "case_row_check c = Inr u \<longleftrightarrow>
     bigint_ok (rc_amount_minor c) \<and> varchar_ok 3 (rc_currency c)
     \<and> opt_varchar_ok 128 (rc_failure_category c) \<and> integer_ok (rc_version c)
     \<and> 0 \<le> rc_amount_minor c \<and> currency_ok (rc_currency c) \<and> 0 < rc_version c"
  by (cases u) (auto simp: case_row_check_def not_le not_less)

lemma in_transaction_rollback: "body d = Inl e \<Longrightarrow> in_transaction body d = (Inl e, d)"
  by (simp add: in_transaction_def)

lemma in_transaction_commit: "body d = Inr (x, d') \<Longrightarrow> in_transaction body d = (Inr x, d')"
  by (simp add: in_transaction_def)

end
