(* ===== verification/History.thy ===== *)
theory History
  imports Recovery_State Schema
begin

text \<open>
  The two facts every operation of the system is held to.

  \<^item> \<open>db_ok\<close>: the schema constraints hold (primary keys, unique constraints, foreign keys, check
    constraints), and the tenancy discipline the application keeps on top of them: a case belongs
    to the merchant of its payment, an action to the merchant of its case.
  \<^item> \<open>db_evolves\<close>: how one database may become another. Rows are never deleted; a case moves along
    allowed transitions and its version counts them; a terminal case and a finished action are
    frozen; a captured payment stays captured; an outbox event leaves \<open>PENDING\<close> once; the audit
    trail and the policies are append-only.

  \<open>db_step\<close> puts them together as a preorder on databases, so that a handler is shown to respect it
  statement by statement.
\<close>

subsection \<open>The action machine\<close>

definition action_step :: "recovery_action_status \<Rightarrow> recovery_action_status \<Rightarrow> bool" where
  "action_step s t =
     ((s, t) \<in> {(A_PENDING, A_CANCELLED), (A_APPROVED, A_CANCELLED), (A_APPROVED, A_EXECUTING),
               (A_EXECUTING, A_EXECUTED), (A_EXECUTING, A_FAILED)})"

definition action_final :: "recovery_action_status \<Rightarrow> bool" where
  "action_final s = (s \<in> {A_DENIED, A_EXECUTED, A_FAILED, A_CANCELLED})"

interpretation action_machine: absorbing_machine action_step action_final
  by unfold_locales (auto simp: action_step_def action_final_def)

lemma action_step_never_approved: "\<not> action_step s A_APPROVED"
  by (simp add: action_step_def)

lemma action_path_to_approved: "action_step\<^sup>*\<^sup>* s A_APPROVED \<Longrightarrow> s = A_APPROVED"
  by (auto elim: rtranclp.cases simp: action_step_never_approved)

subsection \<open>Row histories\<close>

definition payment_evolves :: "payment \<Rightarrow> payment \<Rightarrow> bool" where
  "payment_evolves p q \<longleftrightarrow>
     pay_id q = pay_id p \<and> pay_merchant_id q = pay_merchant_id p \<and> pay_provider q = pay_provider p
     \<and> pay_provider_payment_id q = pay_provider_payment_id p \<and> pay_created_at q = pay_created_at p
     \<and> (pay_status p = P_CAPTURED \<longrightarrow> q = p)"

definition case_evolves :: "recovery_case \<Rightarrow> recovery_case \<Rightarrow> bool" where
  "case_evolves c c' \<longleftrightarrow>
     rc_id c' = rc_id c \<and> rc_merchant_id c' = rc_merchant_id c \<and> rc_payment_id c' = rc_payment_id c
     \<and> rc_amount_minor c' = rc_amount_minor c \<and> rc_currency c' = rc_currency c
     \<and> rc_failure_category c' = rc_failure_category c \<and> rc_created_at c' = rc_created_at c
     \<and> (\<exists>n. (can_transition ^^ n) (rc_status c) (rc_status c') \<and> rc_version c' = rc_version c + int n)
     \<and> (is_terminal (rc_status c) \<longrightarrow> c' = c)"

definition action_evolves :: "recovery_action \<Rightarrow> recovery_action \<Rightarrow> bool" where
  "action_evolves a b \<longleftrightarrow>
     ra_id b = ra_id a \<and> ra_merchant_id b = ra_merchant_id a
     \<and> ra_recovery_case_id b = ra_recovery_case_id a \<and> ra_action_type b = ra_action_type a
     \<and> ra_idempotency_key b = ra_idempotency_key a \<and> ra_attempt_number b = ra_attempt_number a
     \<and> ra_scheduled_at b = ra_scheduled_at a \<and> ra_created_at b = ra_created_at a
     \<and> action_step\<^sup>*\<^sup>* (ra_status a) (ra_status b)
     \<and> (action_final (ra_status a) \<longrightarrow> b = a)"

definition webhook_evolves :: "webhook_event \<Rightarrow> webhook_event \<Rightarrow> bool" where
  "webhook_evolves w v \<longleftrightarrow>
     wh_id v = wh_id w \<and> wh_merchant_id v = wh_merchant_id w \<and> wh_provider v = wh_provider w
     \<and> wh_provider_event_id v = wh_provider_event_id w \<and> wh_event_type v = wh_event_type w
     \<and> wh_payload v = wh_payload w \<and> wh_received_at v = wh_received_at w"

definition outbox_evolves :: "outbox_event \<Rightarrow> outbox_event \<Rightarrow> bool" where
  "outbox_evolves b c \<longleftrightarrow>
     ob_id c = ob_id b \<and> ob_merchant_id c = ob_merchant_id b
     \<and> ob_aggregate_type c = ob_aggregate_type b \<and> ob_aggregate_id c = ob_aggregate_id b
     \<and> ob_event_type c = ob_event_type b \<and> ob_payload c = ob_payload b
     \<and> ob_idempotency_key c = ob_idempotency_key b \<and> ob_created_at c = ob_created_at b
     \<and> ob_deliver_at c = ob_deliver_at b \<and> ob_attempts b \<le> ob_attempts c
     \<and> (ob_status b \<noteq> O_PENDING \<longrightarrow> c = b)"

interpretation payment_history: row_history payment_evolves pay_id
  by unfold_locales (auto simp: payment_evolves_def)

lemma case_evolves_refl: "case_evolves c c"
  by (auto simp: case_evolves_def intro: exI [of _ 0])

lemma case_evolves_trans:
  assumes "case_evolves a b" and "case_evolves b c"
  shows "case_evolves a c"
proof -
  from assms(1) obtain n where
    "(can_transition ^^ n) (rc_status a) (rc_status b)" "rc_version b = rc_version a + int n"
    unfolding case_evolves_def by blast
  moreover from assms(2) obtain m where
    "(can_transition ^^ m) (rc_status b) (rc_status c)" "rc_version c = rc_version b + int m"
    unfolding case_evolves_def by blast
  ultimately have "(can_transition ^^ (n + m)) (rc_status a) (rc_status c)
    \<and> rc_version c = rc_version a + int (n + m)"
    using case_machine.path_append by simp
  then have "\<exists>k. (can_transition ^^ k) (rc_status a) (rc_status c) \<and> rc_version c = rc_version a + int k"
    by blast
  with assms show ?thesis by (auto simp: case_evolves_def)
qed

interpretation case_history: row_history case_evolves rc_id
  by unfold_locales (rule case_evolves_refl, erule (1) case_evolves_trans, simp add: case_evolves_def)

interpretation action_history: row_history action_evolves ra_id
  by unfold_locales (auto simp: action_evolves_def)

interpretation webhook_history: row_history webhook_evolves wh_id
  by unfold_locales (auto simp: webhook_evolves_def)

interpretation outbox_history: row_history outbox_evolves ob_id
  by unfold_locales (auto simp: outbox_evolves_def)

interpretation audit_history: row_history "(=)" au_id
  by unfold_locales auto

interpretation policy_history: row_history "(=)" mp_id
  by unfold_locales auto

subsection \<open>Schema and tenancy invariant\<close>

definition payments_ok :: "db \<Rightarrow> bool" where
  "payments_ok d \<longleftrightarrow>
     distinct (map pay_id (payments d))
     \<and> distinct (map (\<lambda>p. (pay_merchant_id p, pay_provider p, pay_provider_payment_id p)) (payments d))
     \<and> (\<forall>p \<in> set (payments d). payment_row_check p = Inr () \<and> pay_merchant_id p \<in> m_id ` set (merchants d))"

definition cases_ok :: "db \<Rightarrow> bool" where
  "cases_ok d \<longleftrightarrow>
     distinct (map rc_id (recovery_cases d)) \<and> distinct (map rc_payment_id (recovery_cases d))
     \<and> (\<forall>c \<in> set (recovery_cases d). case_row_check c = Inr () \<and> rc_merchant_id c \<in> m_id ` set (merchants d)
          \<and> (rc_payment_id c, rc_merchant_id c) \<in> (\<lambda>p. (pay_id p, pay_merchant_id p)) ` set (payments d))"

definition actions_ok :: "db \<Rightarrow> bool" where
  "actions_ok d \<longleftrightarrow>
     distinct (map ra_id (recovery_actions d)) \<and> distinct (map ra_idempotency_key (recovery_actions d))
     \<and> distinct (map (\<lambda>a. (ra_recovery_case_id a, ra_action_type a, ra_attempt_number a)) (recovery_actions d))
     \<and> (\<forall>a \<in> set (recovery_actions d). action_row_check a = Inr () \<and> ra_merchant_id a \<in> m_id ` set (merchants d)
          \<and> (ra_recovery_case_id a, ra_merchant_id a) \<in> (\<lambda>c. (rc_id c, rc_merchant_id c)) ` set (recovery_cases d))"

definition policies_ok :: "db \<Rightarrow> bool" where
  "policies_ok d \<longleftrightarrow>
     distinct (map mp_id (merchant_policies d)) \<and> distinct (map mp_merchant_id (merchant_policies d))
     \<and> (\<forall>p \<in> set (merchant_policies d). policy_row_check p = Inr () \<and> mp_merchant_id p \<in> m_id ` set (merchants d))"

definition webhooks_ok :: "db \<Rightarrow> bool" where
  "webhooks_ok d \<longleftrightarrow>
     distinct (map wh_id (webhook_events d))
     \<and> distinct (map (\<lambda>w. (wh_provider w, wh_provider_event_id w)) (webhook_events d))
     \<and> (\<forall>w \<in> set (webhook_events d). webhook_row_check w = Inr () \<and> wh_merchant_id w \<in> m_id ` set (merchants d))"

definition outbox_ok :: "db \<Rightarrow> bool" where
  "outbox_ok d \<longleftrightarrow>
     distinct (map ob_id (outbox_events d)) \<and> distinct (map ob_idempotency_key (outbox_events d))
     \<and> (\<forall>b \<in> set (outbox_events d). outbox_row_check b = Inr () \<and> ob_merchant_id b \<in> m_id ` set (merchants d))"

definition audits_ok :: "db \<Rightarrow> bool" where
  "audits_ok d \<longleftrightarrow>
     distinct (map au_id (audit_events d))
     \<and> (\<forall>a \<in> set (audit_events d). audit_row_check a = Inr () \<and> au_merchant_id a \<in> m_id ` set (merchants d))"

definition db_ok :: "db \<Rightarrow> bool" where
  "db_ok d \<longleftrightarrow>
     distinct (map m_id (merchants d)) \<and> payments_ok d \<and> cases_ok d \<and> actions_ok d \<and> policies_ok d
     \<and> webhooks_ok d \<and> outbox_ok d \<and> audits_ok d"

definition db_evolves :: "db \<Rightarrow> db \<Rightarrow> bool" where
  "db_evolves d d' \<longleftrightarrow>
     merchants d' = merchants d
     \<and> rows_evolve payment_evolves (payments d) (payments d')
     \<and> rows_evolve case_evolves (recovery_cases d) (recovery_cases d')
     \<and> rows_evolve action_evolves (recovery_actions d) (recovery_actions d')
     \<and> rows_evolve (=) (merchant_policies d) (merchant_policies d')
     \<and> rows_evolve webhook_evolves (webhook_events d) (webhook_events d')
     \<and> rows_evolve outbox_evolves (outbox_events d) (outbox_events d')
     \<and> rows_evolve (=) (audit_events d) (audit_events d')
     \<and> uuid4 d' = uuid4 d \<and> uuid_drawn d \<le> uuid_drawn d'"

definition db_step :: "db \<Rightarrow> db \<Rightarrow> bool" where
  "db_step d d' \<longleftrightarrow> (db_ok d \<longrightarrow> db_ok d' \<and> db_evolves d d')"

lemmas table_ok_defs = payments_ok_def cases_ok_def actions_ok_def policies_ok_def webhooks_ok_def
  outbox_ok_def audits_ok_def

lemmas rows_refl_all [simp] = payment_history.rows_refl case_history.rows_refl action_history.rows_refl
  webhook_history.rows_refl outbox_history.rows_refl audit_history.rows_refl policy_history.rows_refl

lemma db_evolves_refl: "db_evolves d d"
  by (simp add: db_evolves_def)

lemma db_evolves_trans: "db_evolves a b \<Longrightarrow> db_evolves b c \<Longrightarrow> db_evolves a c"
  unfolding db_evolves_def
  by (intro conjI) (auto intro: payment_history.rows_trans case_history.rows_trans
    action_history.rows_trans webhook_history.rows_trans outbox_history.rows_trans
    audit_history.rows_trans policy_history.rows_trans)

lemma db_step_refl [evolves_intros, simp]: "db_step d d"
  by (simp add: db_step_def db_evolves_refl)

lemma db_step_trans: "db_step a b \<Longrightarrow> db_step b c \<Longrightarrow> db_step a c"
  by (auto simp: db_step_def intro: db_evolves_trans)

lemma db_stepI: "(db_ok d \<Longrightarrow> db_ok d' \<and> db_evolves d d') \<Longrightarrow> db_step d d'"
  by (simp add: db_step_def)

lemma db_step_ok: "db_step d d' \<Longrightarrow> db_ok d \<Longrightarrow> db_ok d'"
  by (simp add: db_step_def)

lemma db_step_evolves: "db_step d d' \<Longrightarrow> db_ok d \<Longrightarrow> db_evolves d d'"
  by (simp add: db_step_def)

interpretation step_order: state_preorder db_step
  by unfold_locales (rule db_step_refl, erule (1) db_step_trans)

abbreviation keeps :: "db \<Rightarrow> ('a \<times> db) res \<Rightarrow> bool" where
  "keeps \<equiv> keeps_rel db_step"

lemmas keeps_def = keeps_rel_def [of db_step]

lemmas keepsI = keeps_relI [of _ db_step]

lemmas keepsD = keeps_relD [of db_step]

lemmas keeps_return = keeps_rel_return [of db_step]

lemmas keeps_bind = step_order.bind_rule

lemmas keeps_bind_db = step_order.bind_db_rule

lemmas keeps_trans = step_order.trans_rule

lemma in_transaction_rel:
  assumes "keeps_rel R d (body d)" and "R d d"
  shows "R d (snd (in_transaction body d))"
  using assms by (auto simp: in_transaction_def keeps_rel_def split: sum.splits)

lemma in_transaction_step: "keeps d (body d) \<Longrightarrow> db_step d (snd (in_transaction body d))"
  by (rule in_transaction_rel) simp_all

text \<open>
  Tenant isolation: the rows of every merchant but \<open>m\<close> are what they were.
\<close>

definition same_others :: "uuid \<Rightarrow> db \<Rightarrow> db \<Rightarrow> bool" where
  "same_others m d d' \<longleftrightarrow>
     merchants d' = merchants d
     \<and> filter (\<lambda>p. pay_merchant_id p \<noteq> m) (payments d') = filter (\<lambda>p. pay_merchant_id p \<noteq> m) (payments d)
     \<and> filter (\<lambda>c. rc_merchant_id c \<noteq> m) (recovery_cases d') = filter (\<lambda>c. rc_merchant_id c \<noteq> m) (recovery_cases d)
     \<and> filter (\<lambda>a. ra_merchant_id a \<noteq> m) (recovery_actions d') = filter (\<lambda>a. ra_merchant_id a \<noteq> m) (recovery_actions d)
     \<and> filter (\<lambda>p. mp_merchant_id p \<noteq> m) (merchant_policies d') = filter (\<lambda>p. mp_merchant_id p \<noteq> m) (merchant_policies d)
     \<and> filter (\<lambda>w. wh_merchant_id w \<noteq> m) (webhook_events d') = filter (\<lambda>w. wh_merchant_id w \<noteq> m) (webhook_events d)
     \<and> filter (\<lambda>b. ob_merchant_id b \<noteq> m) (outbox_events d') = filter (\<lambda>b. ob_merchant_id b \<noteq> m) (outbox_events d)
     \<and> filter (\<lambda>a. au_merchant_id a \<noteq> m) (audit_events d') = filter (\<lambda>a. au_merchant_id a \<noteq> m) (audit_events d)"

interpretation tenant_order: state_preorder "same_others m"
  by unfold_locales (simp_all add: same_others_def)

lemma same_others_refl [simp]: "same_others m d d"
  by (rule tenant_order.state_refl)

lemma same_others_trans: "same_others m a b \<Longrightarrow> same_others m b c \<Longrightarrow> same_others m a c"
  by (rule tenant_order.state_trans)

lemma filter_upd_where:
  "(\<And>r. r \<in> set rows \<Longrightarrow> p r \<Longrightarrow> \<not> q r \<and> \<not> q (f r)) \<Longrightarrow> filter q (upd_where p f rows) = filter q rows"
  by (induction rows) auto

lemma same_others_uuid: "same_others m d (snd (new_uuid d))"
  by (simp add: same_others_def new_uuid_def)

lemma same_others_insert:
  "insert_payment p d = Inr d' \<Longrightarrow> pay_merchant_id p = m \<Longrightarrow> same_others m d d'"
  "insert_case c d = Inr d' \<Longrightarrow> rc_merchant_id c = m \<Longrightarrow> same_others m d d'"
  "insert_action a d = Inr d' \<Longrightarrow> ra_merchant_id a = m \<Longrightarrow> same_others m d d'"
  "insert_policy mp d = Inr d' \<Longrightarrow> mp_merchant_id mp = m \<Longrightarrow> same_others m d d'"
  "insert_webhook w d = Inr d' \<Longrightarrow> wh_merchant_id w = m \<Longrightarrow> same_others m d d'"
  "insert_outbox b d = Inr d' \<Longrightarrow> ob_merchant_id b = m \<Longrightarrow> same_others m d d'"
  "insert_audit_row u d = Inr d' \<Longrightarrow> au_merchant_id u = m \<Longrightarrow> same_others m d d'"
  by (auto simp: same_others_def dest!: insert_Inr)

lemma same_others_upd:
  "(\<And>p. p \<in> set (payments d) \<Longrightarrow> q1 p \<Longrightarrow> pay_merchant_id p = m \<and> pay_merchant_id (f1 p) = m)
     \<Longrightarrow> same_others m d (d\<lparr>payments := upd_where q1 f1 (payments d)\<rparr>)"
  "(\<And>c. c \<in> set (recovery_cases d) \<Longrightarrow> q2 c \<Longrightarrow> rc_merchant_id c = m \<and> rc_merchant_id (f2 c) = m)
     \<Longrightarrow> same_others m d (d\<lparr>recovery_cases := upd_where q2 f2 (recovery_cases d)\<rparr>)"
  "(\<And>a. a \<in> set (recovery_actions d) \<Longrightarrow> q3 a \<Longrightarrow> ra_merchant_id a = m \<and> ra_merchant_id (f3 a) = m)
     \<Longrightarrow> same_others m d (d\<lparr>recovery_actions := upd_where q3 f3 (recovery_actions d)\<rparr>)"
  "(\<And>w. w \<in> set (webhook_events d) \<Longrightarrow> q4 w \<Longrightarrow> wh_merchant_id w = m \<and> wh_merchant_id (f4 w) = m)
     \<Longrightarrow> same_others m d (d\<lparr>webhook_events := upd_where q4 f4 (webhook_events d)\<rparr>)"
  by (auto simp: same_others_def intro!: filter_upd_where)

subsection \<open>Every statement respects the history\<close>

lemma db_ok_distinct:
  assumes "db_ok d"
  shows "distinct (map m_id (merchants d))" "distinct (map pay_id (payments d))"
    "distinct (map rc_id (recovery_cases d))" "distinct (map ra_id (recovery_actions d))"
    "distinct (map mp_id (merchant_policies d))" "distinct (map wh_id (webhook_events d))"
    "distinct (map ob_id (outbox_events d))" "distinct (map au_id (audit_events d))"
  using assms by (simp_all add: db_ok_def table_ok_defs)

lemma new_uuid_step [evolves_intros]: "db_step d (snd (new_uuid d))"
  by (auto simp: db_step_def new_uuid_def db_ok_def table_ok_defs db_evolves_def)

lemma insert_payment_step [evolves_intros]:
  assumes "insert_payment r d = Inr d'"
  shows "db_step d d'"
proof (rule db_stepI)
  assume ok: "db_ok d"
  from assms have d': "d' = d\<lparr>payments := payments d @ [r]\<rparr>" and c: "payment_row_check r = Inr ()"
    and i: "pay_id r \<notin> pay_id ` set (payments d)" and m: "pay_merchant_id r \<in> m_id ` set (merchants d)"
    and u0: "(\<lambda>q. (pay_merchant_id q, pay_provider q, pay_provider_payment_id q)) r \<notin> (\<lambda>q. (pay_merchant_id q, pay_provider q, pay_provider_payment_id q)) ` set (payments d)"
    by (auto simp: insert_payment_def get_defs get_row_None_iff list_ex_iff split: if_splits)
  have "payments_ok d'" using ok c i m u0 unfolding d' by (simp add: db_ok_def payments_ok_def)
  then show "db_ok d' \<and> db_evolves d d'"
    using ok unfolding d'
    by (simp add: db_ok_def cases_ok_def actions_ok_def policies_ok_def webhooks_ok_def outbox_ok_def audits_ok_def db_evolves_def payment_history.rows_append)
qed

lemma insert_case_step:
  assumes "insert_case r d = Inr d'" and par: "get_payment d (rc_payment_id r) = Some p" and "pay_merchant_id p = rc_merchant_id r"
  shows "db_step d d'"
proof (rule db_stepI)
  assume ok: "db_ok d"
  from assms(1) have d': "d' = d\<lparr>recovery_cases := recovery_cases d @ [r]\<rparr>" and c: "case_row_check r = Inr ()"
    and i: "rc_id r \<notin> rc_id ` set (recovery_cases d)" and m: "rc_merchant_id r \<in> m_id ` set (merchants d)"
    and u0: "rc_payment_id r \<notin> rc_payment_id ` set (recovery_cases d)"
    by (auto simp: insert_case_def get_defs get_row_None_iff list_ex_iff split: if_splits)
  from par assms(3) have t: "(rc_payment_id r, rc_merchant_id r) \<in> (\<lambda>p. (pay_id p, pay_merchant_id p)) ` set (payments d)"
    by (auto simp: get_defs image_iff dest!: get_row_SomeD intro!: bexI [of _ p])
  have "cases_ok d'" using ok c i m u0 t unfolding d' by (simp add: db_ok_def cases_ok_def)
  then show "db_ok d' \<and> db_evolves d d'"
    using ok unfolding d'
    by (simp add: db_ok_def payments_ok_def actions_ok_def policies_ok_def webhooks_ok_def outbox_ok_def audits_ok_def db_evolves_def case_history.rows_append)
qed

lemma insert_action_step:
  assumes "insert_action r d = Inr d'" and par: "get_case d (ra_recovery_case_id r) = Some p" and "rc_merchant_id p = ra_merchant_id r"
  shows "db_step d d'"
proof (rule db_stepI)
  assume ok: "db_ok d"
  from assms(1) have d': "d' = d\<lparr>recovery_actions := recovery_actions d @ [r]\<rparr>" and c: "action_row_check r = Inr ()"
    and i: "ra_id r \<notin> ra_id ` set (recovery_actions d)" and m: "ra_merchant_id r \<in> m_id ` set (merchants d)"
    and u0: "ra_idempotency_key r \<notin> ra_idempotency_key ` set (recovery_actions d)"
    and u1: "(\<lambda>q. (ra_recovery_case_id q, ra_action_type q, ra_attempt_number q)) r \<notin> (\<lambda>q. (ra_recovery_case_id q, ra_action_type q, ra_attempt_number q)) ` set (recovery_actions d)"
    by (auto simp: insert_action_def get_defs get_row_None_iff list_ex_iff split: if_splits)
  from par assms(3) have t: "(ra_recovery_case_id r, ra_merchant_id r) \<in> (\<lambda>p. (rc_id p, rc_merchant_id p)) ` set (recovery_cases d)"
    by (auto simp: get_defs image_iff dest!: get_row_SomeD intro!: bexI [of _ p])
  have "actions_ok d'" using ok c i m u0 u1 t unfolding d' by (simp add: db_ok_def actions_ok_def)
  then show "db_ok d' \<and> db_evolves d d'"
    using ok unfolding d'
    by (simp add: db_ok_def payments_ok_def cases_ok_def policies_ok_def webhooks_ok_def outbox_ok_def audits_ok_def db_evolves_def action_history.rows_append)
qed

lemma insert_policy_step [evolves_intros]:
  assumes "insert_policy r d = Inr d'"
  shows "db_step d d'"
proof (rule db_stepI)
  assume ok: "db_ok d"
  from assms have d': "d' = d\<lparr>merchant_policies := merchant_policies d @ [r]\<rparr>" and c: "policy_row_check r = Inr ()"
    and i: "mp_id r \<notin> mp_id ` set (merchant_policies d)" and m: "mp_merchant_id r \<in> m_id ` set (merchants d)"
    and u0: "mp_merchant_id r \<notin> mp_merchant_id ` set (merchant_policies d)"
    by (auto simp: insert_policy_def get_defs get_row_None_iff list_ex_iff split: if_splits)
  have "policies_ok d'" using ok c i m u0 unfolding d' by (simp add: db_ok_def policies_ok_def)
  then show "db_ok d' \<and> db_evolves d d'"
    using ok unfolding d'
    by (simp add: db_ok_def payments_ok_def cases_ok_def actions_ok_def webhooks_ok_def outbox_ok_def audits_ok_def db_evolves_def policy_history.rows_append)
qed

lemma insert_webhook_step [evolves_intros]:
  assumes "insert_webhook r d = Inr d'"
  shows "db_step d d'"
proof (rule db_stepI)
  assume ok: "db_ok d"
  from assms have d': "d' = d\<lparr>webhook_events := webhook_events d @ [r]\<rparr>" and c: "webhook_row_check r = Inr ()"
    and i: "wh_id r \<notin> wh_id ` set (webhook_events d)" and m: "wh_merchant_id r \<in> m_id ` set (merchants d)"
    and u0: "(\<lambda>q. (wh_provider q, wh_provider_event_id q)) r \<notin> (\<lambda>q. (wh_provider q, wh_provider_event_id q)) ` set (webhook_events d)"
    by (auto simp: insert_webhook_def get_defs get_row_None_iff list_ex_iff split: if_splits)
  have "webhooks_ok d'" using ok c i m u0 unfolding d' by (simp add: db_ok_def webhooks_ok_def)
  then show "db_ok d' \<and> db_evolves d d'"
    using ok unfolding d'
    by (simp add: db_ok_def payments_ok_def cases_ok_def actions_ok_def policies_ok_def outbox_ok_def audits_ok_def db_evolves_def webhook_history.rows_append)
qed

lemma insert_outbox_step [evolves_intros]:
  assumes "insert_outbox r d = Inr d'"
  shows "db_step d d'"
proof (rule db_stepI)
  assume ok: "db_ok d"
  from assms have d': "d' = d\<lparr>outbox_events := outbox_events d @ [r]\<rparr>" and c: "outbox_row_check r = Inr ()"
    and i: "ob_id r \<notin> ob_id ` set (outbox_events d)" and m: "ob_merchant_id r \<in> m_id ` set (merchants d)"
    and u0: "ob_idempotency_key r \<notin> ob_idempotency_key ` set (outbox_events d)"
    by (auto simp: insert_outbox_def get_defs get_row_None_iff list_ex_iff split: if_splits)
  have "outbox_ok d'" using ok c i m u0 unfolding d' by (simp add: db_ok_def outbox_ok_def)
  then show "db_ok d' \<and> db_evolves d d'"
    using ok unfolding d'
    by (simp add: db_ok_def payments_ok_def cases_ok_def actions_ok_def policies_ok_def webhooks_ok_def audits_ok_def db_evolves_def outbox_history.rows_append)
qed

lemma insert_audit_row_step [evolves_intros]:
  assumes "insert_audit_row r d = Inr d'"
  shows "db_step d d'"
proof (rule db_stepI)
  assume ok: "db_ok d"
  from assms have d': "d' = d\<lparr>audit_events := audit_events d @ [r]\<rparr>" and c: "audit_row_check r = Inr ()"
    and i: "au_id r \<notin> au_id ` set (audit_events d)" and m: "au_merchant_id r \<in> m_id ` set (merchants d)"
    by (auto simp: insert_audit_row_def get_defs get_row_None_iff list_ex_iff split: if_splits)
  have "audits_ok d'" using ok c i m unfolding d' by (simp add: db_ok_def audits_ok_def)
  then show "db_ok d' \<and> db_evolves d d'"
    using ok unfolding d'
    by (simp add: db_ok_def payments_ok_def cases_ok_def actions_ok_def policies_ok_def webhooks_ok_def outbox_ok_def db_evolves_def audit_history.rows_append)
qed

lemma modify_cases_step:
  assumes "\<And>c. db_ok d \<Longrightarrow> c \<in> set (recovery_cases d) \<Longrightarrow> q c \<Longrightarrow> case_evolves c (f c) \<and> case_row_check (f c) = Inr ()"
  shows "db_step d (d\<lparr>recovery_cases := upd_where q f (recovery_cases d)\<rparr>)"
proof (rule db_stepI)
  assume ok: "db_ok d"
  have ev: "case_evolves c (f c)" "case_row_check (f c) = Inr ()"
    if "c \<in> set (recovery_cases d)" "q c" for c using assms ok that by auto
  have keep: "rc_id (f c) = rc_id c" "rc_payment_id (f c) = rc_payment_id c" "rc_merchant_id (f c) = rc_merchant_id c"
    if "c \<in> set (recovery_cases d)" "q c" for c using ev(1) [OF that] by (simp_all add: case_evolves_def)
  have "cases_ok (d\<lparr>recovery_cases := upd_where q f (recovery_cases d)\<rparr>)"
    using ok ev(2) keep
    by (auto simp: db_ok_def cases_ok_def map_upd_where set_upd_where)
  moreover have "(\<lambda>c. (rc_id c, rc_merchant_id c)) ` set (upd_where q f (recovery_cases d))
      = (\<lambda>c. (rc_id c, rc_merchant_id c)) ` set (recovery_cases d)"
    by (rule image_upd_where) (simp add: keep)
  ultimately show "db_ok (d\<lparr>recovery_cases := upd_where q f (recovery_cases d)\<rparr>)
      \<and> db_evolves d (d\<lparr>recovery_cases := upd_where q f (recovery_cases d)\<rparr>)"
    using ok ev(1)
    by (simp add: db_ok_def payments_ok_def actions_ok_def policies_ok_def webhooks_ok_def
        outbox_ok_def audits_ok_def db_evolves_def case_history.rows_upd)
qed

lemma modify_actions_step:
  assumes "\<And>a. db_ok d \<Longrightarrow> a \<in> set (recovery_actions d) \<Longrightarrow> q a \<Longrightarrow> action_evolves a (f a) \<and> action_row_check (f a) = Inr ()"
  shows "db_step d (d\<lparr>recovery_actions := upd_where q f (recovery_actions d)\<rparr>)"
proof (rule db_stepI)
  assume ok: "db_ok d"
  have ev: "action_evolves a (f a)" "action_row_check (f a) = Inr ()"
    if "a \<in> set (recovery_actions d)" "q a" for a using assms ok that by auto
  have keep: "ra_id (f a) = ra_id a" "ra_idempotency_key (f a) = ra_idempotency_key a"
    "ra_recovery_case_id (f a) = ra_recovery_case_id a" "ra_action_type (f a) = ra_action_type a"
    "ra_attempt_number (f a) = ra_attempt_number a" "ra_merchant_id (f a) = ra_merchant_id a"
    if "a \<in> set (recovery_actions d)" "q a" for a using ev(1) [OF that] by (simp_all add: action_evolves_def)
  have "actions_ok (d\<lparr>recovery_actions := upd_where q f (recovery_actions d)\<rparr>)"
    using ok ev(2) keep
    by (auto simp: db_ok_def actions_ok_def map_upd_where set_upd_where)
  then show "db_ok (d\<lparr>recovery_actions := upd_where q f (recovery_actions d)\<rparr>)
      \<and> db_evolves d (d\<lparr>recovery_actions := upd_where q f (recovery_actions d)\<rparr>)"
    using ok ev(1)
    by (simp add: db_ok_def payments_ok_def cases_ok_def policies_ok_def webhooks_ok_def
        outbox_ok_def audits_ok_def db_evolves_def action_history.rows_upd)
qed

lemma modify_payments_step:
  assumes "\<And>p. db_ok d \<Longrightarrow> p \<in> set (payments d) \<Longrightarrow> q p \<Longrightarrow> payment_evolves p (f p) \<and> payment_row_check (f p) = Inr ()"
  shows "db_step d (d\<lparr>payments := upd_where q f (payments d)\<rparr>)"
proof (rule db_stepI)
  assume ok: "db_ok d"
  have ev: "payment_evolves p (f p)" "payment_row_check (f p) = Inr ()"
    if "p \<in> set (payments d)" "q p" for p using assms ok that by auto
  have keep: "pay_id (f p) = pay_id p" "pay_merchant_id (f p) = pay_merchant_id p"
    "pay_provider (f p) = pay_provider p" "pay_provider_payment_id (f p) = pay_provider_payment_id p"
    if "p \<in> set (payments d)" "q p" for p using ev(1) [OF that] by (simp_all add: payment_evolves_def)
  have "payments_ok (d\<lparr>payments := upd_where q f (payments d)\<rparr>)"
    using ok ev(2) keep
    by (auto simp: db_ok_def payments_ok_def map_upd_where set_upd_where)
  moreover have "(\<lambda>p. (pay_id p, pay_merchant_id p)) ` set (upd_where q f (payments d))
      = (\<lambda>p. (pay_id p, pay_merchant_id p)) ` set (payments d)"
    by (rule image_upd_where) (simp add: keep)
  ultimately show "db_ok (d\<lparr>payments := upd_where q f (payments d)\<rparr>)
      \<and> db_evolves d (d\<lparr>payments := upd_where q f (payments d)\<rparr>)"
    using ok ev(1)
    by (simp add: db_ok_def cases_ok_def actions_ok_def policies_ok_def webhooks_ok_def
        outbox_ok_def audits_ok_def db_evolves_def payment_history.rows_upd)
qed

lemma modify_webhooks_step:
  assumes "\<And>w. db_ok d \<Longrightarrow> w \<in> set (webhook_events d) \<Longrightarrow> q w \<Longrightarrow> webhook_evolves w (f w) \<and> webhook_row_check (f w) = Inr ()"
  shows "db_step d (d\<lparr>webhook_events := upd_where q f (webhook_events d)\<rparr>)"
proof (rule db_stepI)
  assume ok: "db_ok d"
  have ev: "webhook_evolves w (f w)" "webhook_row_check (f w) = Inr ()"
    if "w \<in> set (webhook_events d)" "q w" for w using assms ok that by auto
  have keep: "wh_id (f w) = wh_id w" "wh_provider (f w) = wh_provider w"
    "wh_provider_event_id (f w) = wh_provider_event_id w" "wh_merchant_id (f w) = wh_merchant_id w"
    if "w \<in> set (webhook_events d)" "q w" for w using ev(1) [OF that] by (simp_all add: webhook_evolves_def)
  have "webhooks_ok (d\<lparr>webhook_events := upd_where q f (webhook_events d)\<rparr>)"
    using ok ev(2) keep
    by (auto simp: db_ok_def webhooks_ok_def map_upd_where set_upd_where)
  then show "db_ok (d\<lparr>webhook_events := upd_where q f (webhook_events d)\<rparr>)
      \<and> db_evolves d (d\<lparr>webhook_events := upd_where q f (webhook_events d)\<rparr>)"
    using ok ev(1)
    by (simp add: db_ok_def payments_ok_def cases_ok_def actions_ok_def policies_ok_def
        outbox_ok_def audits_ok_def db_evolves_def webhook_history.rows_upd)
qed

lemma modify_outbox_step:
  assumes "\<And>b. db_ok d \<Longrightarrow> b \<in> set (outbox_events d) \<Longrightarrow> q b \<Longrightarrow> outbox_evolves b (f b) \<and> outbox_row_check (f b) = Inr ()"
  shows "db_step d (d\<lparr>outbox_events := upd_where q f (outbox_events d)\<rparr>)"
proof (rule db_stepI)
  assume ok: "db_ok d"
  have ev: "outbox_evolves b (f b)" "outbox_row_check (f b) = Inr ()"
    if "b \<in> set (outbox_events d)" "q b" for b using assms ok that by auto
  have keep: "ob_id (f b) = ob_id b" "ob_idempotency_key (f b) = ob_idempotency_key b"
    "ob_merchant_id (f b) = ob_merchant_id b"
    if "b \<in> set (outbox_events d)" "q b" for b using ev(1) [OF that] by (simp_all add: outbox_evolves_def)
  have "outbox_ok (d\<lparr>outbox_events := upd_where q f (outbox_events d)\<rparr>)"
    using ok ev(2) keep
    by (auto simp: db_ok_def outbox_ok_def map_upd_where set_upd_where)
  then show "db_ok (d\<lparr>outbox_events := upd_where q f (outbox_events d)\<rparr>)
      \<and> db_evolves d (d\<lparr>outbox_events := upd_where q f (outbox_events d)\<rparr>)"
    using ok ev(1)
    by (simp add: db_ok_def payments_ok_def cases_ok_def actions_ok_def policies_ok_def
        webhooks_ok_def audits_ok_def db_evolves_def outbox_history.rows_upd)
qed

text \<open>A flush of a loaded row: the written row must evolve from the stored one.\<close>

lemma flush_case_step:
  assumes "flush_case c d = Inr d'" and "get_case d (rc_id c) = Some c0"
    and "case_evolves c0 (c\<lparr>rc_updated_at := clock d\<rparr>)"
  shows "db_step d d'"
proof -
  from assms(1) have c: "case_row_check c = Inr ()" and d': "d' = d\<lparr>recovery_cases :=
      upd_where (\<lambda>q. rc_id q = rc_id c) (\<lambda>_. c\<lparr>rc_updated_at := clock d\<rparr>) (recovery_cases d)\<rparr>"
    by (auto simp: flush_case_def)
  from c have "case_row_check (c\<lparr>rc_updated_at := clock d\<rparr>) = Inr ()" by simp
  moreover have "r = c0" if "db_ok d" "r \<in> set (recovery_cases d)" "rc_id r = rc_id c" for r
    using get_row_unique [OF db_ok_distinct(3) [OF that(1)]] assms(2) that(2,3) by (simp add: get_defs)
  ultimately show ?thesis
    unfolding d' by (intro modify_cases_step) (use assms(3) in auto)
qed

lemma flush_payment_step:
  assumes "flush_payment p d = Inr d'" and "get_payment d (pay_id p) = Some p0"
    and "payment_evolves p0 (p\<lparr>pay_updated_at := clock d\<rparr>)"
  shows "db_step d d'"
proof -
  from assms(1) have c: "payment_row_check p = Inr ()" and d': "d' = d\<lparr>payments :=
      upd_where (\<lambda>q. pay_id q = pay_id p) (\<lambda>_. p\<lparr>pay_updated_at := clock d\<rparr>) (payments d)\<rparr>"
    by (auto simp: flush_payment_def)
  from c have "payment_row_check (p\<lparr>pay_updated_at := clock d\<rparr>) = Inr ()" by simp
  moreover have "r = p0" if "db_ok d" "r \<in> set (payments d)" "pay_id r = pay_id p" for r
    using get_row_unique [OF db_ok_distinct(2) [OF that(1)]] assms(2) that(2,3) by (simp add: get_defs)
  ultimately show ?thesis
    unfolding d' by (intro modify_payments_step) (use assms(3) in auto)
qed

lemma flush_action_step:
  assumes "flush_action a d = Inr d'" and "get_action d (ra_id a) = Some a0"
    and "action_evolves a0 (a\<lparr>ra_updated_at := clock d\<rparr>)"
  shows "db_step d d'"
proof -
  from assms(1) have c: "action_row_check a = Inr ()" and d': "d' = d\<lparr>recovery_actions :=
      upd_where (\<lambda>q. ra_id q = ra_id a) (\<lambda>_. a\<lparr>ra_updated_at := clock d\<rparr>) (recovery_actions d)\<rparr>"
    by (auto simp: flush_action_def)
  from c have "action_row_check (a\<lparr>ra_updated_at := clock d\<rparr>) = Inr ()" by simp
  moreover have "r = a0" if "db_ok d" "r \<in> set (recovery_actions d)" "ra_id r = ra_id a" for r
    using get_row_unique [OF db_ok_distinct(4) [OF that(1)]] assms(2) that(2,3) by (simp add: get_defs)
  ultimately show ?thesis
    unfolding d' by (intro modify_actions_step) (use assms(3) in auto)
qed

lemma flush_webhook_step:
  assumes "flush_webhook w d = Inr d'" and "get_webhook d (wh_id w) = Some w0" and "webhook_evolves w0 w"
  shows "db_step d d'"
proof -
  from assms(1) have c: "webhook_row_check w = Inr ()" and d': "d' = d\<lparr>webhook_events :=
      upd_where (\<lambda>q. wh_id q = wh_id w) (\<lambda>_. w) (webhook_events d)\<rparr>"
    by (auto simp: flush_webhook_def)
  have "r = w0" if "db_ok d" "r \<in> set (webhook_events d)" "wh_id r = wh_id w" for r
    using get_row_unique [OF db_ok_distinct(6) [OF that(1)]] assms(2) that(2,3) by (simp add: get_defs)
  with c show ?thesis
    unfolding d' by (intro modify_webhooks_step) (use assms(3) in auto)
qed

lemma flush_outbox_step:
  assumes "flush_outbox b d = Inr d'" and "get_outbox d (ob_id b) = Some b0" and "outbox_evolves b0 b"
  shows "db_step d d'"
proof -
  from assms(1) have c: "outbox_row_check b = Inr ()" and d': "d' = d\<lparr>outbox_events :=
      upd_where (\<lambda>q. ob_id q = ob_id b) (\<lambda>_. b) (outbox_events d)\<rparr>"
    by (auto simp: flush_outbox_def)
  have "r = b0" if "db_ok d" "r \<in> set (outbox_events d)" "ob_id r = ob_id b" for r
    using get_row_unique [OF db_ok_distinct(7) [OF that(1)]] assms(2) that(2,3) by (simp add: get_defs)
  with c show ?thesis
    unfolding d' by (intro modify_outbox_step) (use assms(3) in auto)
qed

text \<open>What the history says about a row found by its key.\<close>

lemma db_evolves_case:
  "db_evolves d d' \<Longrightarrow> get_case d i = Some c \<Longrightarrow> \<exists>c'. get_case d' i = Some c' \<and> case_evolves c c'"
  by (auto simp: db_evolves_def get_defs dest: case_history.rows_get)

lemma db_evolves_action:
  "db_evolves d d' \<Longrightarrow> get_action d i = Some a \<Longrightarrow> \<exists>b. get_action d' i = Some b \<and> action_evolves a b"
  by (auto simp: db_evolves_def get_defs dest: action_history.rows_get)

lemma db_evolves_payment:
  "db_evolves d d' \<Longrightarrow> get_payment d i = Some p \<Longrightarrow> \<exists>q. get_payment d' i = Some q \<and> payment_evolves p q"
  by (auto simp: db_evolves_def get_defs dest: payment_history.rows_get)

lemma db_evolves_outbox:
  "db_evolves d d' \<Longrightarrow> get_outbox d i = Some b \<Longrightarrow> \<exists>c. get_outbox d' i = Some c \<and> outbox_evolves b c"
  by (auto simp: db_evolves_def get_defs dest: outbox_history.rows_get)

lemma case_tenancy:
  assumes "db_ok d" and "get_case d i = Some c"
  shows "\<exists>p. get_payment d (rc_payment_id c) = Some p \<and> pay_merchant_id p = rc_merchant_id c"
proof -
  from assms(2) have "c \<in> set (recovery_cases d)" by (auto simp: get_defs dest: get_row_SomeD)
  with assms(1) obtain p where "p \<in> set (payments d)" "pay_id p = rc_payment_id c" "pay_merchant_id p = rc_merchant_id c"
    by (auto simp: db_ok_def cases_ok_def)
  with get_row_distinct [OF db_ok_distinct(2) [OF assms(1)], of p] show ?thesis
    by (intro exI [of _ p]) (simp add: get_defs)
qed

end
