(* ===== verification/Policy_Service.thy ===== *)
theory Policy_Service
  imports Policy History
begin

text \<open>
  The policy of a merchant and the counted context of a case,
  \<^verbatim>\<open>src/app/services/policy_service.py\<close>. As for action creation, \<open>rival\<close> is what other
  transactions commit between the \<open>SELECT\<close> and the \<open>INSERT\<close> of the default policy.
\<close>

subsection \<open>Definitions\<close>

definition EXCLUDED_ACTION_COUNT_STATUSES :: "recovery_action_status list" where
  "EXCLUDED_ACTION_COUNT_STATUSES = [A_DENIED, A_CANCELLED]"

definition ACTIVE_PAYMENT_LINK_STATUSES :: "recovery_action_status list" where
  "ACTIVE_PAYMENT_LINK_STATUSES = [A_PENDING, A_APPROVED, A_EXECUTING]"

text \<open>\<open>MerchantPolicy(merchant_id=...)\<close> with the column defaults.\<close>

definition default_policy :: "uuid \<Rightarrow> uuid \<Rightarrow> int \<Rightarrow> merchant_policy" where
  "default_policy u merchant_id t =
     \<lparr>mp_id = u, mp_merchant_id = merchant_id, mp_max_actions_per_case = 3,
      mp_max_reminders_per_case = 2, mp_one_active_payment_link = True,
      mp_high_value_escalation_enabled = True, mp_high_value_threshold_minor = 500000,
      mp_is_active = True, mp_created_at = t, mp_updated_at = t\<rparr>"

definition policies_of :: "uuid \<Rightarrow> db \<Rightarrow> merchant_policy list" where
  "policies_of m d = filter (\<lambda>p. mp_merchant_id p = m) (merchant_policies d)"

definition get_or_create_default_policy ::
  "(db \<Rightarrow> db) \<Rightarrow> uuid \<Rightarrow> db \<Rightarrow> (merchant_policy \<times> db) res" where
  "get_or_create_default_policy rival merchant_id d =
     res_bind (one_or_none (policies_of merchant_id d)) (\<lambda>existing.
       case existing of
         Some p \<Rightarrow> Inr (p, d)
       | None \<Rightarrow>
           (let d1 = rival d; (u, d2) = new_uuid d1; policy = default_policy u merchant_id (clock d2)
            in case insert_policy policy d2 of
                 Inr d3 \<Rightarrow> Inr (policy, d3)
               | Inl e \<Rightarrow>
                   if e = IntegrityError
                   then res_bind (exactly_one (policies_of merchant_id d2)) (\<lambda>p. Inr (p, d2))
                   else Inl e))"

definition policy_limits_from :: "merchant_policy \<Rightarrow> policy_limits" where
  "policy_limits_from policy =
     \<lparr>max_actions_per_case = mp_max_actions_per_case policy,
      max_reminders_per_case = mp_max_reminders_per_case policy,
      one_active_payment_link = mp_one_active_payment_link policy,
      high_value_escalation_enabled = mp_high_value_escalation_enabled policy,
      high_value_threshold_minor = mp_high_value_threshold_minor policy\<rparr>"

definition build_policy_input ::
  "db \<Rightarrow> recovery_case \<Rightarrow> recovery_action_type \<Rightarrow> recovery_case_status \<Rightarrow> uuid option \<Rightarrow> policy_input" where
  "build_policy_input d c candidate_action current_status exclude_action_id =
     (let not_excluded = (\<lambda>a. case exclude_action_id of None \<Rightarrow> True | Some x \<Rightarrow> ra_id a \<noteq> x);
          base = (\<lambda>a. ra_recovery_case_id a = rc_id c
                   \<and> ra_status a \<notin> set EXCLUDED_ACTION_COUNT_STATUSES \<and> not_excluded a);
          active_link = (\<lambda>a. ra_recovery_case_id a = rc_id c \<and> ra_action_type a = CREATE_PAYMENT_LINK
                   \<and> ra_status a \<in> set ACTIVE_PAYMENT_LINK_STATUSES \<and> not_excluded a)
      in \<lparr>pi_case_status = current_status,
          pi_amount_minor = rc_amount_minor c,
          pi_candidate_action = candidate_action,
          pi_total_action_count = int (count_where base (recovery_actions d)),
          pi_reminder_count =
            int (count_where (\<lambda>a. base a \<and> ra_action_type a = SEND_REMINDER) (recovery_actions d)),
          pi_active_payment_link_count = int (count_where active_link (recovery_actions d))\<rparr>)"

subsection \<open>The policy of a merchant\<close>

lemma policies_of_eq:
  assumes "db_ok d"
  shows "policies_of m d = (case get_row mp_merchant_id m (merchant_policies d) of None \<Rightarrow> [] | Some p \<Rightarrow> [p])"
proof -
  have "distinct (map mp_merchant_id (merchant_policies d))"
    using assms by (simp add: db_ok_def policies_ok_def)
  then show ?thesis by (simp add: policies_of_def filter_key_le_1)
qed

lemma insert_default_policy:
  "insert_policy (default_policy u m t) d =
     (if get_policy d u \<noteq> None \<or> get_merchant d m = None \<or> policies_of m d \<noteq> []
      then Inl IntegrityError
      else Inr (d\<lparr>merchant_policies := merchant_policies d @ [default_policy u m t]\<rparr>))"
  by (auto simp: insert_policy_def policy_row_check_def default_policy_def integer_ok_def bigint_ok_def
      policies_of_def list_ex_iff filter_empty_conv)

lemma policy_lookup_Some:
  "one_or_none (policies_of m d) = Inr (Some p) \<Longrightarrow> p \<in> set (merchant_policies d) \<and> mp_merchant_id p = m"
  unfolding policies_of_def by (drule one_or_none_filter, simp)

lemma exactly_one_policy:
  "exactly_one (policies_of m d) = Inr p \<Longrightarrow> p \<in> set (merchant_policies d) \<and> mp_merchant_id p = m"
proof -
  assume "exactly_one (policies_of m d) = Inr p"
  then have "p \<in> set (policies_of m d)" by (auto simp: exactly_one_def split: list.splits)
  then show ?thesis by (simp add: policies_of_def)
qed

lemma get_or_create_cases:
  assumes "get_or_create_default_policy rival m d = Inr (p, d')"
  shows "p \<in> set (merchant_policies d') \<and> mp_merchant_id p = m
    \<and> (d' = d \<or> d' = snd (new_uuid (rival d)) \<or> insert_policy p (snd (new_uuid (rival d))) = Inr d')"
proof -
  define d2 where "d2 = snd (new_uuid (rival d))"
  define new where "new = default_policy (fst (new_uuid (rival d))) m (clock d2)"
  from assms obtain ex where ex: "one_or_none (policies_of m d) = Inr ex"
    unfolding get_or_create_default_policy_def res_bind_Inr by blast
  show ?thesis
  proof (cases ex)
    case (Some q)
    then show ?thesis using assms ex policy_lookup_Some by (auto simp: get_or_create_default_policy_def)
  next
    case None
    show ?thesis
    proof (cases "insert_policy new d2")
      case (Inr d3)
      then have "p = new" "d' = d3" using assms ex None
        by (auto simp: get_or_create_default_policy_def Let_def case_prod_beta d2_def new_def)
      moreover have "d3 = d2\<lparr>merchant_policies := merchant_policies d2 @ [new]\<rparr>" using Inr insert_Inr(4) by blast
      ultimately show ?thesis using Inr by (simp add: d2_def) (simp add: new_def default_policy_def)
    next
      case (Inl e)
      then have "exactly_one (policies_of m d2) = Inr p" "d' = d2" using assms ex None
        by (auto simp: get_or_create_default_policy_def Let_def case_prod_beta d2_def new_def split: if_splits)
      then show ?thesis using exactly_one_policy by (simp add: d2_def)
    qed
  qed
qed

lemma get_or_create_step:
  assumes "get_or_create_default_policy rival m d = Inr (p, d')" and "db_step d (rival d)"
  shows "db_step d d'"
proof -
  have "db_step d (snd (new_uuid (rival d)))" using assms(2) new_uuid_step db_step_trans by blast
  with get_or_create_cases [OF assms(1)] show ?thesis
    using insert_policy_step db_step_trans db_step_refl by blast
qed

lemma get_or_create_frame:
  assumes "get_or_create_default_policy (\<lambda>d. d) m d = Inr (p, d')"
  shows "d' = d\<lparr>merchant_policies := merchant_policies d', uuid_drawn := uuid_drawn d'\<rparr>"
  using get_or_create_cases [OF assms] by (auto simp: new_uuid_def dest!: insert_Inr)

lemma get_or_create_existing:
  assumes "db_ok d" and "p \<in> set (merchant_policies d)" and "mp_merchant_id p = m"
  shows "get_or_create_default_policy rival m d = Inr (p, d)"
proof -
  have "distinct (map mp_merchant_id (merchant_policies d))"
    using assms(1) by (simp add: db_ok_def policies_ok_def)
  then have "get_row mp_merchant_id m (merchant_policies d) = Some p"
    using get_row_distinct [of mp_merchant_id "merchant_policies d" p] assms(2,3) by simp
  then show ?thesis
    by (simp add: get_or_create_default_policy_def policies_of_eq [OF assms(1)] one_or_none_def)
qed

text \<open>
  A merchant has one policy. The call returns a stored policy of the merchant, and every later call,
  whatever has happened to the database in between, returns the same row again and changes nothing.
  When identifiers do not clash it raises nothing for a known merchant, a concurrent creation
  included.
\<close>

theorem get_or_create_policy_stable:
  assumes "get_or_create_default_policy rival m d = Inr (p, d1)"
    and "db_evolves d1 d2" and "db_ok d2"
  shows "mp_merchant_id p = m \<and> p \<in> set (merchant_policies d1)
    \<and> get_or_create_default_policy rival' m d2 = Inr (p, d2)"
proof -
  have p: "p \<in> set (merchant_policies d1)" "mp_merchant_id p = m"
    using get_or_create_cases [OF assms(1)] by simp_all
  then have "p \<in> set (merchant_policies d2)"
    using assms(2) policy_history.rows_mem unfolding db_evolves_def by blast
  with p show ?thesis by (simp add: get_or_create_existing [OF assms(3)])
qed

lemma get_or_create_total:
  assumes "db_ok d" and "db_step d (rival d)" and "get_merchant d m \<noteq> None"
    and "get_policy (rival d) (uuid4 (rival d) (uuid_drawn (rival d))) = None"
  shows "\<exists>p d'. get_or_create_default_policy rival m d = Inr (p, d')"
proof -
  obtain d2 where d2: "new_uuid (rival d) = (uuid4 (rival d) (uuid_drawn (rival d)), d2)"
    by (simp add: new_uuid_def)
  then have ok: "db_ok d2" using new_uuid_step [of "rival d"] assms(1,2) db_step_ok by fastforce
  have "get_merchant d2 m \<noteq> None" "get_policy d2 (uuid4 (rival d) (uuid_drawn (rival d))) = None"
    using db_step_evolves [OF assms(2,1)] assms(3,4) d2
    by (auto simp: db_evolves_def get_defs new_uuid_def)
  then show ?thesis
    by (auto simp: get_or_create_default_policy_def policies_of_eq [OF assms(1)] policies_of_eq [OF ok]
        one_or_none_def exactly_one_def insert_default_policy Let_def d2 split: option.splits)
qed

subsection \<open>Counting\<close>

lemma count_where_mono: "(\<And>a. p a \<Longrightarrow> q a) \<Longrightarrow> count_where p xs \<le> count_where q xs"
  by (induction xs) auto

lemma count_where_ge_1: "x \<in> set xs \<Longrightarrow> p x \<Longrightarrow> 1 \<le> count_where p xs"
  by (induction xs) auto

lemma build_policy_input_bounds:
  "0 \<le> pi_reminder_count (build_policy_input d c t s x)
   \<and> pi_reminder_count (build_policy_input d c t s x) \<le> pi_total_action_count (build_policy_input d c t s x)
   \<and> pi_active_payment_link_count (build_policy_input d c t s x)
       \<le> pi_total_action_count (build_policy_input d c t s x)"
  by (auto simp: build_policy_input_def Let_def ACTIVE_PAYMENT_LINK_STATUSES_def
      EXCLUDED_ACTION_COUNT_STATUSES_def intro!: count_where_mono)

lemma build_policy_input_simps [simp]:
  "pi_case_status (build_policy_input d c t s x) = s"
  "pi_amount_minor (build_policy_input d c t s x) = rc_amount_minor c"
  "pi_candidate_action (build_policy_input d c t s x) = t"
  by (simp_all add: build_policy_input_def Let_def)

lemma no_actions_no_counts:
  assumes "\<forall>a \<in> set (recovery_actions d). ra_recovery_case_id a \<noteq> rc_id c"
  shows "pi_total_action_count (build_policy_input d c t s x) = 0"
    "pi_reminder_count (build_policy_input d c t s x) = 0"
    "pi_active_payment_link_count (build_policy_input d c t s x) = 0"
  using assms by (auto simp: build_policy_input_def Let_def count_where_0_iff)

end
