(* ===== verification/Recovery_Cases.thy ===== *)
theory Recovery_Cases
  imports History
begin

text \<open>
  Status changes of a recovery case: the in-memory transition of
  \<^verbatim>\<open>src/app/domain/recovery.py\<close> and the version-guarded \<open>UPDATE\<close> of
  \<^verbatim>\<open>src/app/services/recovery_cases.py\<close>.

  The guarded update takes the status and version its caller read earlier, and runs on whatever
  the database has become since: running it on an arbitrary later database is the interleaving
  of two workers.
\<close>

subsection \<open>Definitions\<close>

definition transition_recovery_case :: "recovery_case \<Rightarrow> recovery_case_status \<Rightarrow> recovery_case res" where
  "transition_recovery_case c new_status =
     res_bind (validate_transition (rc_status c) new_status) (\<lambda>_.
       Inr (if rc_status c \<noteq> new_status
            then c\<lparr>rc_status := new_status, rc_version := rc_version c + 1\<rparr>
            else c))"

definition atomic_transition_recovery_case ::
  "uuid \<Rightarrow> recovery_case_status \<Rightarrow> int \<Rightarrow> recovery_case_status \<Rightarrow> db \<Rightarrow> (nat \<times> db) res" where
  "atomic_transition_recovery_case case_id expected_status expected_version new_status d =
     res_bind (validate_transition expected_status new_status) (\<lambda>_.
       if \<not> integer_ok (expected_version + 1) then Inl DataError
       else Inr (update_cases
         (\<lambda>c. rc_id c = case_id \<and> rc_status c = expected_status \<and> rc_version c = expected_version)
         (\<lambda>c. c\<lparr>rc_status := new_status, rc_version := expected_version + 1, rc_updated_at := clock d\<rparr>)
         d))"

text \<open>\<open>SELECT ... FOR UPDATE\<close> by primary key.\<close>

definition get_recovery_case_locked :: "db \<Rightarrow> uuid \<Rightarrow> recovery_case option res" where
  "get_recovery_case_locked d case_id =
     one_or_none (filter (\<lambda>c. rc_id c = case_id) (recovery_cases d))"

subsection \<open>Facts\<close>

lemma get_recovery_case_locked_eq:
  "db_ok d \<Longrightarrow> get_recovery_case_locked d i = Inr (get_case d i)"
  by (simp add: get_recovery_case_locked_def get_defs one_or_none_key db_ok_distinct)

lemma transition_recovery_case_Inr:
  "transition_recovery_case c t = Inr c' \<longleftrightarrow>
     rc_status c = t \<and> c' = c
     \<or> can_transition (rc_status c) t \<and> c' = c\<lparr>rc_status := t, rc_version := rc_version c + 1\<rparr>"
  by (auto simp: transition_recovery_case_def can_transition_irrefl)

lemma case_evolves_transition:
  assumes "can_transition (rc_status c) t"
  shows "case_evolves c (c\<lparr>rc_status := t, rc_version := rc_version c + 1, rc_next_action_at := n, rc_updated_at := u\<rparr>)"
proof -
  have "(can_transition ^^ 1) (rc_status c) t" using assms by (rule case_machine.path_one)
  moreover have "\<not> is_terminal (rc_status c)" using assms case_machine.final_stuck by blast
  ultimately show ?thesis
    by (auto simp: case_evolves_def simp del: relpowp.simps intro!: exI [of _ 1])
qed

text \<open>
  The guarded update of one case, for any new values of the time columns: \<open>f\<close> is what the
  statement writes.
\<close>

definition case_guard :: "uuid \<Rightarrow> recovery_case_status \<Rightarrow> int \<Rightarrow> recovery_case \<Rightarrow> bool" where
  "case_guard i s v c = (rc_id c = i \<and> rc_status c = s \<and> rc_version c = v)"

definition moves_to :: "recovery_case_status \<Rightarrow> (recovery_case \<Rightarrow> recovery_case) \<Rightarrow> bool" where
  "moves_to t f \<longleftrightarrow> (\<forall>c. \<exists>n u. f c = c\<lparr>rc_status := t, rc_version := rc_version c + 1,
       rc_next_action_at := n, rc_updated_at := u\<rparr>)"

lemma moves_to_updated:
  "moves_to t (\<lambda>c. c\<lparr>rc_status := t, rc_version := rc_version c + 1, rc_updated_at := u\<rparr>)"
proof -
  have "c\<lparr>rc_status := t, rc_version := rc_version c + 1, rc_updated_at := u\<rparr>
    = c\<lparr>rc_status := t, rc_version := rc_version c + 1, rc_next_action_at := rc_next_action_at c, rc_updated_at := u\<rparr>" for c
    by (cases c) simp
  then show ?thesis unfolding moves_to_def by blast
qed

lemma moves_to_scheduled:
  "moves_to t (\<lambda>c. c\<lparr>rc_status := t, rc_version := rc_version c + 1, rc_updated_at := u, rc_next_action_at := n\<rparr>)"
proof -
  have "c\<lparr>rc_status := t, rc_version := rc_version c + 1, rc_updated_at := u, rc_next_action_at := n\<rparr>
    = c\<lparr>rc_status := t, rc_version := rc_version c + 1, rc_next_action_at := n, rc_updated_at := u\<rparr>" for c
    by (cases c) simp
  then show ?thesis unfolding moves_to_def by blast
qed

lemma moves_to_key: "moves_to t f \<Longrightarrow> rc_id (f c) = rc_id c"
  unfolding moves_to_def by (metis recovery_case.select_convs(1) recovery_case.surjective
    recovery_case.update_convs(4,8,9,11))

lemma guarded_update_step:
  assumes "update_cases (case_guard i s v) f d = (n, d')" and "moves_to t f"
    and "can_transition s t" and "integer_ok (v + 1)"
  shows "db_step d d'"
proof -
  from assms(1) have d': "d' = d\<lparr>recovery_cases := upd_where (case_guard i s v) f (recovery_cases d)\<rparr>"
    by (auto simp: update_cases_def)
  show ?thesis unfolding d'
  proof (rule modify_cases_step)
    fix c assume ok: "db_ok d" and c: "c \<in> set (recovery_cases d)" and q: "case_guard i s v c"
    from assms(2) obtain m u where f: "f c = c\<lparr>rc_status := t, rc_version := rc_version c + 1,
        rc_next_action_at := m, rc_updated_at := u\<rparr>"
      unfolding moves_to_def by blast
    have "case_row_check c = Inr ()" using ok c by (simp add: db_ok_def cases_ok_def)
    then have "case_row_check (f c) = Inr ()"
      using assms(4) q unfolding f by (simp add: case_row_check_iff case_guard_def)
    moreover have "case_evolves c (f c)"
      unfolding f by (rule case_evolves_transition) (use assms(3) q in \<open>simp add: case_guard_def\<close>)
    ultimately show "case_evolves c (f c) \<and> case_row_check (f c) = Inr ()" by simp
  qed
qed

lemma guarded_update_result:
  assumes "db_ok d" and "update_cases (case_guard i s v) f d = (n, d')" and "moves_to t f"
  shows "n = (case get_case d i of None \<Rightarrow> 0 | Some c \<Rightarrow> if rc_status c = s \<and> rc_version c = v then 1 else 0)"
    and "n = 0 \<Longrightarrow> d' = d"
    and "n \<noteq> 0 \<Longrightarrow> \<exists>c. get_case d i = Some c \<and> rc_status c = s \<and> rc_version c = v \<and> get_case d' i = Some (f c)"
proof -
  from assms(2) have n: "n = count_where (case_guard i s v) (recovery_cases d)"
    and d': "d' = d\<lparr>recovery_cases := upd_where (case_guard i s v) f (recovery_cases d)\<rparr>"
    by (simp_all add: update_cases_def)
  show eq: "n = (case get_case d i of None \<Rightarrow> 0 | Some c \<Rightarrow> if rc_status c = s \<and> rc_version c = v then 1 else 0)"
    using count_where_key [OF db_ok_distinct(3) [OF assms(1)], of i "\<lambda>c. rc_status c = s \<and> rc_version c = v"] n
    by (simp add: get_defs case_guard_def [abs_def])
  show "d' = d" if "n = 0"
    using that n d' by (simp add: count_where_0_iff upd_where_none)
  show "\<exists>c. get_case d i = Some c \<and> rc_status c = s \<and> rc_version c = v \<and> get_case d' i = Some (f c)" if "n \<noteq> 0"
  proof -
    from that eq obtain c where c: "get_case d i = Some c" "rc_status c = s" "rc_version c = v"
      by (auto split: option.splits if_splits)
    moreover have "get_case d' i = map_option (\<lambda>r. if case_guard i s v r then f r else r) (get_case d i)"
      using case_table.get_modify [of f "case_guard i s v" d i] moves_to_key [OF assms(3)] assms(2) by simp
    ultimately show ?thesis using case_table.get_key [OF c(1)] by (simp add: case_guard_def)
  qed
qed

lemma atomic_transition_update:
  assumes "atomic_transition_recovery_case i s v t d = Inr (n, d')"
  shows "update_cases (case_guard i s v)
      (\<lambda>c. c\<lparr>rc_status := t, rc_version := rc_version c + 1, rc_updated_at := clock d\<rparr>) d = (n, d')"
    and "s = t \<or> can_transition s t" and "integer_ok (v + 1)"
proof -
  let ?g = "\<lambda>c. c\<lparr>rc_status := t, rc_version := v + 1, rc_updated_at := clock d\<rparr>"
  have u: "update_cases (case_guard i s v) ?g d = (n, d')" and t: "s = t \<or> can_transition s t" "integer_ok (v + 1)"
    using assms by (auto simp: atomic_transition_recovery_case_def case_guard_def [abs_def] split: if_splits)
  have "upd_where (case_guard i s v) ?g xs =
      upd_where (case_guard i s v) (\<lambda>c. c\<lparr>rc_status := t, rc_version := rc_version c + 1, rc_updated_at := clock d\<rparr>) xs" for xs
    by (auto simp: upd_where_def case_guard_def)
  with u show "update_cases (case_guard i s v)
      (\<lambda>c. c\<lparr>rc_status := t, rc_version := rc_version c + 1, rc_updated_at := clock d\<rparr>) d = (n, d')"
    by (simp add: update_cases_def)
  show "s = t \<or> can_transition s t" "integer_ok (v + 1)" by (fact t)+
qed

lemma atomic_transition_Inr:
  assumes "db_ok d" and "atomic_transition_recovery_case i s v t d = Inr (n, d')"
  shows "n = (case get_case d i of None \<Rightarrow> 0 | Some c \<Rightarrow> if rc_status c = s \<and> rc_version c = v then 1 else 0)"
    and "n = 0 \<Longrightarrow> d' = d"
    and "n \<noteq> 0 \<Longrightarrow> \<exists>c. get_case d i = Some c \<and> rc_status c = s \<and> rc_version c = v
           \<and> get_case d' i = Some (c\<lparr>rc_status := t, rc_version := v + 1, rc_updated_at := clock d\<rparr>)"
  using guarded_update_result [OF assms(1) atomic_transition_update(1) [OF assms(2)] moves_to_updated] by auto

lemma atomic_transition_frame:
  assumes "atomic_transition_recovery_case i s v t d = Inr (n, d')"
  shows "d' = d\<lparr>recovery_cases := recovery_cases d'\<rparr>"
  using assms by (auto simp: atomic_transition_recovery_case_def update_cases_def split: if_splits)

lemma atomic_transition_step:
  assumes "atomic_transition_recovery_case i s v t d = Inr (n, d')" and "s \<noteq> t"
  shows "db_step d d'"
  using guarded_update_step [OF atomic_transition_update(1) [OF assms(1)] moves_to_updated]
    atomic_transition_update(2,3) [OF assms(1)] assms(2) by blast

lemma atomic_transition_total:
  assumes "can_transition s t" and "integer_ok (v + 1)"
  shows "\<exists>n d'. atomic_transition_recovery_case i s v t d = Inr (n, d')"
  using assms by (simp add: atomic_transition_recovery_case_def update_cases_def)

lemma case_evolves_version: "case_evolves c c' \<Longrightarrow> rc_version c \<le> rc_version c'"
  by (auto simp: case_evolves_def)

text \<open>
  C4: optimistic concurrency. When a worker has moved a case with the status and version it read,
  every later guarded update of the same case with the same expectation, whatever new status it
  asks for and whatever else has happened to the database in between, affects no row and changes
  nothing.
\<close>

theorem atomic_transition_single_winner:
  assumes "db_ok d" and "s \<noteq> t"
    and win: "atomic_transition_recovery_case i s v t d = Inr (1, d1)"
    and later: "db_ok d2" "db_evolves d1 d2"
    and again: "atomic_transition_recovery_case i s v t' d2 = Inr (n, d3)"
  shows "n = 0 \<and> d3 = d2"
proof -
  from atomic_transition_Inr(3) [OF assms(1) win] obtain c1
    where "get_case d1 i = Some c1" "rc_version c1 = v + 1" by auto
  with db_evolves_case [OF later(2)] obtain c2
    where c2: "get_case d2 i = Some c2" "v + 1 \<le> rc_version c2"
    by (metis case_evolves_version)
  with atomic_transition_Inr(1) [OF later(1) again] have "n = 0" by simp
  with atomic_transition_Inr(2) [OF later(1) again] show ?thesis by simp
qed

end
