(* ===== verification/Recovery_Actions.thy ===== *)
theory Recovery_Actions
  imports History
begin

text \<open>
  Idempotent creation of recovery actions, \<^verbatim>\<open>src/app/services/recovery_actions.py\<close>.

  Between the \<open>SELECT\<close> for an existing action and the \<open>INSERT\<close>, other transactions may commit;
  \<open>rival\<close> is what they do to the database, an argument of the definition. It is what makes the
  \<open>IntegrityError\<close> branch reachable.
\<close>

definition recovery_action_idempotency_key :: "uuid \<Rightarrow> recovery_action_type \<Rightarrow> int \<Rightarrow> string" where
  "recovery_action_idempotency_key recovery_case_id action_type attempt_number =
     ''recovery_action:'' @ uuid_str recovery_case_id @ '':''
     @ recovery_action_type_value action_type @ '':'' @ show_int attempt_number"

definition new_recovery_action ::
  "uuid \<Rightarrow> uuid \<Rightarrow> uuid \<Rightarrow> recovery_action_type \<Rightarrow> recovery_action_status \<Rightarrow> string \<Rightarrow> int \<Rightarrow> int option \<Rightarrow> int
   \<Rightarrow> recovery_action" where
  "new_recovery_action u merchant_id recovery_case_id action_type status idempotency_key attempt_number scheduled_at t =
     \<lparr>ra_id = u, ra_merchant_id = merchant_id, ra_recovery_case_id = recovery_case_id,
      ra_action_type = action_type, ra_status = status, ra_idempotency_key = idempotency_key,
      ra_attempt_number = attempt_number, ra_provider_reference = None, ra_scheduled_at = scheduled_at,
      ra_executed_at = None, ra_failure_reason = None, ra_created_at = t, ra_updated_at = t\<rparr>"

definition actions_with_key :: "string \<Rightarrow> db \<Rightarrow> recovery_action list" where
  "actions_with_key k d = filter (\<lambda>a. ra_idempotency_key a = k) (recovery_actions d)"

definition actions_with_attempt :: "uuid \<Rightarrow> recovery_action_type \<Rightarrow> int \<Rightarrow> db \<Rightarrow> recovery_action list" where
  "actions_with_attempt c t n d =
     filter (\<lambda>a. ra_recovery_case_id a = c \<and> ra_action_type a = t \<and> ra_attempt_number a = n) (recovery_actions d)"

definition create_recovery_action_idempotent ::
  "(db \<Rightarrow> db) \<Rightarrow> uuid \<Rightarrow> uuid \<Rightarrow> recovery_action_type \<Rightarrow> string \<Rightarrow> int \<Rightarrow> recovery_action_status \<Rightarrow> int option
   \<Rightarrow> db \<Rightarrow> ((recovery_action \<times> bool) \<times> db) res" where
  "create_recovery_action_idempotent rival merchant_id recovery_case_id action_type idempotency_key
     attempt_number status scheduled_at d =
     res_bind (one_or_none (actions_with_key idempotency_key d)) (\<lambda>existing.
       case existing of
         Some a \<Rightarrow> Inr ((a, False), d)
       | None \<Rightarrow>
           (let d1 = rival d; (u, d2) = new_uuid d1;
                action = new_recovery_action u merchant_id recovery_case_id action_type status
                           idempotency_key attempt_number scheduled_at (clock d2)
            in case insert_action action d2 of
                 Inr d3 \<Rightarrow> Inr ((action, True), d3)
               | Inl e \<Rightarrow>
                   if e = IntegrityError
                   then res_bind (one_or_none (actions_with_key idempotency_key d2)) (\<lambda>existing.
                          case existing of
                            Some a \<Rightarrow> Inr ((a, False), d2)
                          | None \<Rightarrow>
                              res_bind (one_or_none
                                (actions_with_attempt recovery_case_id action_type attempt_number d2)) (\<lambda>existing.
                                case existing of
                                  Some a \<Rightarrow> Inr ((a, False), d2)
                                | None \<Rightarrow> Inl IntegrityError))
                   else Inl e))"

subsection \<open>The key determines the case, the type and the attempt\<close>

definition dec_val :: "string \<Rightarrow> nat" where
  "dec_val s = foldl (\<lambda>a c. a * 10 + the (hex_val c)) 0 s"

lemma dec_val_show_nat: "dec_val (show_nat n) = n"
proof (induction n rule: show_nat.induct)
  case (1 n)
  have "hex_val (digit_char (n mod 10)) = Some (n mod 10)" using digit_char_hex [of "n mod 10"] by simp
  with 1 show ?case
    by (subst show_nat.simps) (auto simp: dec_val_def)
qed

lemma show_nat_chars: "c \<in> set (show_nat n) \<Longrightarrow> \<exists>d < 10. c = digit_char d"
proof (induction n rule: show_nat.induct)
  case (1 n)
  have "\<exists>d < 10. digit_char (n mod 10) = digit_char d" by (rule exI [of _ "n mod 10"]) simp
  with 1 show ?case by (subst (asm) show_nat.simps) (auto split: if_splits)
qed

lemma show_nat_no_minus: "CHR ''-'' \<notin> set (show_nat n)"
proof
  assume "CHR ''-'' \<in> set (show_nat n)"
  then obtain d where "d < 10" "CHR ''-'' = digit_char d" using show_nat_chars by blast
  then show False using digit_char_hex [of d] by auto
qed

lemma show_nat_inj: "show_nat m = show_nat n \<Longrightarrow> m = n"
  by (metis dec_val_show_nat)

lemma show_int_inj: "show_int i = show_int j \<Longrightarrow> i = j"
proof -
  assume eq: "show_int i = show_int j"
  have "i < 0 \<longleftrightarrow> CHR ''-'' \<in> set (show_int i)" for i
    using show_nat_no_minus by (auto simp: show_int_def)
  with eq have "i < 0 \<longleftrightarrow> j < 0" by metis
  with eq show ?thesis by (auto simp: show_int_def split: if_splits dest!: show_nat_inj)
qed

lemma append_colon_inj:
  assumes "xs @ '':'' @ ys = xs' @ '':'' @ ys'" and "CHR '':'' \<notin> set xs" and "CHR '':'' \<notin> set xs'"
  shows "xs = xs' \<and> ys = ys'"
proof -
  have "takeWhile (\<lambda>c. c \<noteq> CHR '':'') (zs @ '':'' @ ws) = zs" if "CHR '':'' \<notin> set zs" for zs ws
    using that by (induction zs) auto
  then have "xs = xs'" using assms by metis
  with assms(1) show ?thesis by simp
qed

lemma idempotency_key_inj:
  "recovery_action_idempotency_key c t n = recovery_action_idempotency_key c' t' n' \<longleftrightarrow> c = c' \<and> t = t' \<and> n = n'"
proof
  assume eq: "recovery_action_idempotency_key c t n = recovery_action_idempotency_key c' t' n'"
  then have "uuid_str c @ '':'' @ recovery_action_type_value t @ '':'' @ show_int n
      = uuid_str c' @ '':'' @ recovery_action_type_value t' @ '':'' @ show_int n'"
    by (simp add: recovery_action_idempotency_key_def)
  moreover have nc: "CHR '':'' \<notin> set (uuid_str u)" for u using uuid_str_plain by fastforce
  ultimately have u: "uuid_str c = uuid_str c'"
    and r: "recovery_action_type_value t @ '':'' @ show_int n = recovery_action_type_value t' @ '':'' @ show_int n'"
    using append_colon_inj by blast+
  from append_colon_inj [OF r action_type_value_no_colon action_type_value_no_colon] u
  show "c = c' \<and> t = t' \<and> n = n'" by (auto dest: show_int_inj)
qed simp

lemma show_nat_length: "n < 10 ^ Suc k \<Longrightarrow> length (show_nat n) \<le> Suc k"
proof (induction k arbitrary: n)
  case (Suc k)
  then have "n div 10 < 10 ^ Suc k" by auto
  with Suc.IH show ?case by (subst show_nat.simps) (auto simp: le_SucI)
qed (subst show_nat.simps, simp)

lemma idempotency_key_length:
  assumes "integer_ok n"
  shows "length (recovery_action_idempotency_key c t n) \<le> 84"
proof -
  have "nat n < 10 ^ Suc 9" "nat (- n) < 10 ^ Suc 9" using assms by (auto simp: integer_ok_def nat_less_iff)
  then have "length (show_nat (nat n)) \<le> 10" "length (show_nat (nat (- n))) \<le> 10"
    using show_nat_length [of _ 9] by simp_all
  then show ?thesis
    using length_action_type_value [of t] by (simp add: recovery_action_idempotency_key_def show_int_def)
qed

subsection \<open>Idempotent creation\<close>

text \<open>
  The discipline of the callers: every action carries the key of its own case, type and attempt.
\<close>

definition canonical_key :: "recovery_action \<Rightarrow> bool" where
  "canonical_key a =
     (ra_idempotency_key a
        = recovery_action_idempotency_key (ra_recovery_case_id a) (ra_action_type a) (ra_attempt_number a))"

definition canonical_keys :: "db \<Rightarrow> bool" where
  "canonical_keys d = list_all canonical_key (recovery_actions d)"

lemma action_evolves_canonical: "action_evolves a b \<Longrightarrow> canonical_key b = canonical_key a"
  by (simp add: action_evolves_def canonical_key_def)

lemma action_lookup_Some:
  "one_or_none (actions_with_key k d) = Inr (Some a) \<Longrightarrow> a \<in> set (recovery_actions d) \<and> ra_idempotency_key a = k"
  "one_or_none (actions_with_attempt c t n d) = Inr (Some a) \<Longrightarrow> a \<in> set (recovery_actions d)
     \<and> ra_recovery_case_id a = c \<and> ra_action_type a = t \<and> ra_attempt_number a = n"
  unfolding actions_with_key_def actions_with_attempt_def by (drule one_or_none_filter, simp)+

lemma create_recovery_action_idempotent_Inr:
  assumes "create_recovery_action_idempotent rival m c t k n st sch d = Inr ((a, created), d')"
  shows "if created
    then insert_action a (snd (new_uuid (rival d))) = Inr d'
         \<and> a = new_recovery_action (fst (new_uuid (rival d))) m c t st k n sch (clock (rival d))
    else (d' = d \<or> d' = snd (new_uuid (rival d))) \<and> a \<in> set (recovery_actions d')
         \<and> (ra_idempotency_key a = k
             \<or> ra_recovery_case_id a = c \<and> ra_action_type a = t \<and> ra_attempt_number a = n)"
proof -
  define d2 where "d2 = snd (new_uuid (rival d))"
  define new where "new = new_recovery_action (fst (new_uuid (rival d))) m c t st k n sch (clock d2)"
  from assms obtain ex where ex: "one_or_none (actions_with_key k d) = Inr ex"
    unfolding create_recovery_action_idempotent_def res_bind_Inr by blast
  have clock: "clock d2 = clock (rival d)" by (simp add: d2_def new_uuid_def)
  show ?thesis
  proof (cases ex)
    case (Some b)
    then have "b \<in> set (recovery_actions d) \<and> ra_idempotency_key b = k"
      using ex action_lookup_Some(1) by blast
    with assms ex Some show ?thesis by (auto simp: create_recovery_action_idempotent_def)
  next
    case None
    show ?thesis
    proof (cases "insert_action new d2")
      case (Inr d3)
      then have "a = new" "created" "d' = d3"
        using assms ex None
        by (auto simp: create_recovery_action_idempotent_def Let_def case_prod_beta d2_def new_def)
      then show ?thesis using Inr clock by (simp add: d2_def new_def)
    next
      case (Inl e)
      then have "\<not> created" "d' = d2" "one_or_none (actions_with_key k d2) = Inr (Some a)
          \<or> one_or_none (actions_with_attempt c t n d2) = Inr (Some a)"
        using assms ex None
        by (auto simp: create_recovery_action_idempotent_def Let_def case_prod_beta d2_def new_def
            split: option.splits if_splits)
      then show ?thesis
        using action_lookup_Some by (simp add: d2_def) blast
    qed
  qed
qed

lemma create_recovery_action_idempotent_step:
  assumes "create_recovery_action_idempotent rival m c t k n st sch d = Inr ((a, created), d')"
    and "db_step d (rival d)"
    and "get_case (rival d) c = Some r" and "rc_merchant_id r = m"
  shows "db_step d d'"
proof -
  have u: "db_step d (snd (new_uuid (rival d)))" using assms(2) new_uuid_step db_step_trans by blast
  have g: "get_case (snd (new_uuid (rival d))) c = Some r" using assms(3) by (simp add: new_uuid_def get_defs)
  show ?thesis
  proof (cases created)
    case True
    with create_recovery_action_idempotent_Inr [OF assms(1)]
    have i: "insert_action a (snd (new_uuid (rival d))) = Inr d'"
      and a: "ra_recovery_case_id a = c" "ra_merchant_id a = m"
      by (auto simp: new_recovery_action_def)
    have "db_step (snd (new_uuid (rival d))) d'"
      by (rule insert_action_step [OF i]) (use a g assms(4) in simp_all)
    with u show ?thesis by (rule db_step_trans)
  next
    case False
    with create_recovery_action_idempotent_Inr [OF assms(1)] u show ?thesis by auto
  qed
qed

lemma action_with_key_unique:
  assumes "db_ok d" and "a \<in> set (recovery_actions d)"
  shows "actions_with_key (ra_idempotency_key a) d = [a]"
proof -
  have "distinct (map ra_idempotency_key (recovery_actions d))"
    using assms(1) by (simp add: db_ok_def actions_ok_def)
  with filter_key_le_1 [OF this] get_row_distinct [OF this assms(2)] show ?thesis
    by (simp add: actions_with_key_def)
qed

text \<open>
  C5: creating an action is idempotent. After one call with the key of a case, type and attempt
  has returned an action, created by it or found, every later call with this key, on whatever the
  database has become and whatever rivals do meanwhile, returns the same row, reports that
  nothing was created, and changes nothing.
\<close>

theorem create_action_idempotent:
  assumes first: "create_recovery_action_idempotent rival m c t (recovery_action_idempotency_key c t n) n st sch d
      = Inr ((a, created), d1)"
    and keys: "canonical_keys d" "canonical_keys (rival d)"
    and later: "db_evolves d1 d2" "db_ok d2"
  shows "\<exists>a'. create_recovery_action_idempotent rival' m c t (recovery_action_idempotency_key c t n) n st' sch' d2
        = Inr ((a', False), d2)
      \<and> ra_id a' = ra_id a \<and> ra_recovery_case_id a' = c \<and> ra_action_type a' = t \<and> ra_attempt_number a' = n"
proof -
  let ?k = "recovery_action_idempotency_key c t n"
  from create_recovery_action_idempotent_Inr [OF first] keys
  have a: "a \<in> set (recovery_actions d1)" "canonical_key a"
    "ra_idempotency_key a = ?k
      \<or> ra_recovery_case_id a = c \<and> ra_action_type a = t \<and> ra_attempt_number a = n"
    by (auto simp: canonical_keys_def canonical_key_def new_recovery_action_def list_all_iff new_uuid_def
        dest!: insert_Inr split: if_splits)
  then have k: "ra_idempotency_key a = ?k" "ra_recovery_case_id a = c" "ra_action_type a = t" "ra_attempt_number a = n"
    by (auto simp: canonical_key_def idempotency_key_inj)
  from later(1) a(1) obtain a' where a': "a' \<in> set (recovery_actions d2)" "action_evolves a a'"
    unfolding db_evolves_def using action_history.rows_mem by blast
  then have "actions_with_key ?k d2 = [a']"
    using action_with_key_unique [OF later(2) a'(1)] k by (simp add: action_evolves_def)
  then show ?thesis
    using a'(2) k by (simp add: create_recovery_action_idempotent_def one_or_none_def action_evolves_def)
qed

end
