(* ===== verification/Agent.thy ===== *)
theory Agent
  imports Settings
begin

text \<open>
  The recovery agent, \<^verbatim>\<open>src/app/agents/llm.py\<close>, \<^verbatim>\<open>schemas.py\<close> and \<^verbatim>\<open>recovery_agent.py\<close>.

  The agent state is a Python dict, so it is a \<open>json_obj\<close> here; a node returns the dict of the
  keys it sets. A text that is a JSON document is represented by the value it denotes (\<open>Some\<close>),
  any other text by \<open>None\<close>: \<open>json.dumps\<close> is \<open>Some\<close> and \<open>json.loads\<close> raises exactly on \<open>None\<close>.

  Code outside the repository is an argument: \<open>graph_invoke\<close> is LangGraph's \<open>invoke\<close> of a
  compiled chain of nodes, \<open>lax_float\<close> pydantic's conversion of a value to a float, \<open>exc_text\<close>
  the text of an exception, \<open>py_repr\<close> Python's \<open>repr\<close> of floats and containers. What LangGraph documents, that the nodes run in order and each
  update is merged into the state, is \<open>langgraph_sequential\<close>.
\<close>

subsection \<open>Schemas\<close>

record agent_decision_request =
  req_merchant_id :: string
  req_recovery_case_id :: string
  req_amount_minor :: int
  req_currency :: string
  req_failure_category :: "string option"
  req_engine_candidate_action :: recovery_action_type
  req_deterministic_final_action :: recovery_action_type
  req_total_action_count :: int
  req_reminder_count :: int
  req_active_payment_link_count :: int

record agent_decision_output =
  out_action :: recovery_action_type
  out_reason :: string
  out_confidence :: "rat option"

record agent_decision =
  ad_selected_action :: recovery_action_type
  ad_reason :: string
  ad_source :: string
  ad_confidence :: "rat option"

record agent_env =
  env_settings :: settings
  graph_invoke :: "(json_obj \<Rightarrow> json_obj res) list \<Rightarrow> json_obj \<Rightarrow> json_obj res"
  lax_float :: "json \<Rightarrow> rat option"
  exc_text :: "exc \<Rightarrow> string"
  py_repr :: "json \<Rightarrow> string"

definition optional_float :: "agent_env \<Rightarrow> json \<Rightarrow> rat option res" where
  "optional_float env v =
     (case v of JNull \<Rightarrow> Inr None
      | _ \<Rightarrow> (case lax_float env v of None \<Rightarrow> Inl ValidationError | Some x \<Rightarrow> Inr (Some x)))"

text \<open>\<open>RecoveryActionType(raw)\<close> on a value of any type.\<close>

definition action_type_of_json :: "json \<Rightarrow> recovery_action_type option" where
  "action_type_of_json v = (case v of JStr s \<Rightarrow> action_type_of_value s | _ \<Rightarrow> None)"

definition action_field :: "json \<Rightarrow> recovery_action_type res" where
  "action_field v = (case action_type_of_json v of None \<Rightarrow> Inl ValidationError | Some a \<Rightarrow> Inr a)"

definition reason_field :: "json \<Rightarrow> string res" where
  "reason_field v =
     (case v of JStr r \<Rightarrow> if length r \<le> 512 then Inr r else Inl ValidationError | _ \<Rightarrow> Inl ValidationError)"

definition confidence_field :: "agent_env \<Rightarrow> json \<Rightarrow> rat option res" where
  "confidence_field env v =
     res_bind (optional_float env v) (\<lambda>c.
       case c of
         None \<Rightarrow> Inr None
       | Some x \<Rightarrow> if 0 \<le> x \<and> x \<le> 1 then Inr (Some x) else Inl ValidationError)"

text \<open>\<open>AgentDecisionOutput.model_validate(data)\<close>: the fields and bounds of the class.\<close>

definition validate_decision_output :: "agent_env \<Rightarrow> json \<Rightarrow> agent_decision_output res" where
  "validate_decision_output env v =
     (case v of
        JObj data \<Rightarrow>
          res_bind (action_field (obj_get data ''action'')) (\<lambda>a.
          res_bind (reason_field (obj_get data ''reason'')) (\<lambda>r.
          res_bind (confidence_field env (obj_get data ''confidence'')) (\<lambda>c.
            Inr \<lparr>out_action = a, out_reason = r, out_confidence = c\<rparr>)))
      | _ \<Rightarrow> Inl ValidationError)"

text \<open>\<open>AgentDecision(...)\<close>: \<open>source\<close> is a \<open>Literal\<close>.\<close>

definition make_agent_decision ::
  "agent_env \<Rightarrow> recovery_action_type \<Rightarrow> json \<Rightarrow> json \<Rightarrow> json \<Rightarrow> agent_decision res" where
  "make_agent_decision env a reason source confidence =
     (case (reason, source) of
        (JStr r, JStr s) \<Rightarrow>
          if s \<in> {''llm'', ''deterministic_fallback''}
          then res_bind (optional_float env confidence) (\<lambda>c.
                 Inr \<lparr>ad_selected_action = a, ad_reason = r, ad_source = s, ad_confidence = c\<rparr>)
          else Inl ValidationError
      | _ \<Rightarrow> Inl ValidationError)"

subsection \<open>The language model\<close>

definition call_mock_llm :: "settings \<Rightarrow> json_obj \<Rightarrow> json option res" where
  "call_mock_llm s state =
     (if llm_mock_mode s = ''timeout'' then Inl (LLMTimeoutError ''mock LLM timed out'')
      else if llm_mock_mode s = ''malformed'' then Inr None
      else if llm_mock_mode s = ''illegal_action''
      then Inr (Some (JObj [(''action'', JStr ''REFUND_CUSTOMER''),
             (''reason'', JStr ''This action does not exist in RecoverAI.''),
             (''confidence'', JFloat (99 / 100))]))
      else
        let action = (case obj_get state ''engine_candidate_action'' of
                        JNull \<Rightarrow> JStr ''STOP'' | JStr [] \<Rightarrow> JStr ''STOP'' | v \<Rightarrow> v)
        in Inr (Some (JObj [(''action'', action),
             (''reason'', JStr ''Mock LLM selected deterministic engine candidate.''),
             (''confidence'', JFloat (82 / 100))])))"

definition call_recovery_llm :: "settings \<Rightarrow> json_obj \<Rightarrow> json option res" where
  "call_recovery_llm s state =
     (if llm_provider s = ''mock'' then call_mock_llm s state
      else Inl (LLMError (''unsupported LLM provider: '' @ llm_provider s)))"

subsection \<open>The graph\<close>

definition fallback_state :: "json_obj \<Rightarrow> string \<Rightarrow> string option \<Rightarrow> json_obj" where
  "fallback_state state reason error =
     [(''selected_action'', obj_get state ''deterministic_final_action''),
      (''decision_reason'', JStr reason),
      (''decision_source'', JStr ''deterministic_fallback''),
      (''confidence'', JNull),
      (''fallback_used'', JBool True),
      (''error'', json_opt_str error)]"

definition json_loads :: "json option \<Rightarrow> json res" where
  "json_loads raw = (case raw of None \<Rightarrow> Inl (ValueError ''JSONDecodeError'') | Some v \<Rightarrow> Inr v)"

definition obj_set :: "json_obj \<Rightarrow> string \<Rightarrow> json \<Rightarrow> json_obj" where
  "obj_set obj k v = map (\<lambda>(k', v'). if k' = k then (k', v) else (k', v')) obj"

definition parse_llm_output :: "agent_env \<Rightarrow> json option \<Rightarrow> agent_decision_output res" where
  "parse_llm_output env raw =
     res_bind (json_loads raw) (\<lambda>data.
       validate_decision_output env
         (case data of
            JObj obj \<Rightarrow>
              (case obj_get obj ''reason'' of
                 JStr reason \<Rightarrow> if 512 < length reason then JObj (obj_set obj ''reason'' (JStr (take 512 reason)))
                                else data
               | _ \<Rightarrow> data)
          | _ \<Rightarrow> data))"

text \<open>The exceptions named in the first \<open>except\<close> clause, with their subclasses.\<close>

definition is_llm_failure :: "exc \<Rightarrow> bool" where
  "is_llm_failure e =
     (case e of LLMError _ \<Rightarrow> True | LLMTimeoutError _ \<Rightarrow> True | ValidationError \<Rightarrow> True
      | ValueError _ \<Rightarrow> True | MoneyError _ \<Rightarrow> True | TypeError _ \<Rightarrow> True | _ \<Rightarrow> False)"

definition decide_node :: "agent_env \<Rightarrow> json_obj \<Rightarrow> json_obj res" where
  "decide_node env state =
     (if \<not> llm_enabled (env_settings env) then Inr (fallback_state state ''llm_disabled'' None)
      else
        case res_bind (call_recovery_llm (env_settings env) state) (parse_llm_output env) of
          Inr parsed \<Rightarrow>
            Inr [(''selected_action'', JStr (recovery_action_type_value (out_action parsed))),
                 (''decision_reason'', JStr (out_reason parsed)),
                 (''decision_source'', JStr ''llm''),
                 (''confidence'', (case out_confidence parsed of None \<Rightarrow> JNull | Some x \<Rightarrow> JFloat x)),
                 (''fallback_used'', JBool False),
                 (''error'', JNull)]
        | Inl e \<Rightarrow>
            Inr (fallback_state state
                   (if is_llm_failure e then ''llm_failed'' else ''llm_unexpected_failure'')
                   (Some (exc_text env e))))"

text \<open>The value in an f-string.\<close>

definition py_str_json :: "agent_env \<Rightarrow> json \<Rightarrow> string" where
  "py_str_json env v =
     (case v of JStr s \<Rightarrow> s | JNull \<Rightarrow> ''None'' | JBool b \<Rightarrow> if b then ''True'' else ''False''
      | JInt i \<Rightarrow> show_int i | _ \<Rightarrow> py_repr env v)"

definition validate_node :: "agent_env \<Rightarrow> json_obj \<Rightarrow> json_obj res" where
  "validate_node env state =
     (let selected_raw = obj_get state ''selected_action'' in
      case action_type_of_json selected_raw of
        None \<Rightarrow> Inr (fallback_state state ''invalid_agent_action''
                       (Some (''invalid action: '' @ py_str_json env selected_raw)))
      | Some selected \<Rightarrow> Inr [(''selected_action'', JStr (recovery_action_type_value selected))])"

definition get_recovery_agent_graph :: "agent_env \<Rightarrow> (json_obj \<Rightarrow> json_obj res) list" where
  "get_recovery_agent_graph env = [decide_node env, validate_node env]"

definition json_or :: "json \<Rightarrow> string \<Rightarrow> json" where
  "json_or v dflt = (case v of JNull \<Rightarrow> JStr dflt | JStr [] \<Rightarrow> JStr dflt | _ \<Rightarrow> v)"

definition run_recovery_agent :: "agent_env \<Rightarrow> agent_decision_request \<Rightarrow> agent_decision" where
  "run_recovery_agent env request =
     (let fallback = \<lparr>ad_selected_action = req_deterministic_final_action request,
                      ad_reason = ''agent_unavailable'', ad_source = ''deterministic_fallback'',
                      ad_confidence = None\<rparr>;
          state = [(''merchant_id'', JStr (req_merchant_id request)),
                   (''recovery_case_id'', JStr (req_recovery_case_id request)),
                   (''amount_minor'', JInt (req_amount_minor request)),
                   (''currency'', JStr (req_currency request)),
                   (''failure_category'', json_opt_str (req_failure_category request)),
                   (''engine_candidate_action'',
                      JStr (recovery_action_type_value (req_engine_candidate_action request))),
                   (''deterministic_final_action'',
                      JStr (recovery_action_type_value (req_deterministic_final_action request))),
                   (''total_action_count'', JInt (req_total_action_count request)),
                   (''reminder_count'', JInt (req_reminder_count request)),
                   (''active_payment_link_count'', JInt (req_active_payment_link_count request))]
      in case graph_invoke env (get_recovery_agent_graph env) state of
           Inl _ \<Rightarrow> fallback
         | Inr result \<Rightarrow>
             (case action_type_of_json (obj_get result ''selected_action'') of
                None \<Rightarrow> fallback
              | Some selected_action \<Rightarrow>
                  (case make_agent_decision env selected_action
                          (json_or (obj_get result ''decision_reason'') ''agent_decision'')
                          (json_or (obj_get result ''decision_source'') ''deterministic_fallback'')
                          (obj_get result ''confidence'') of
                     Inl _ \<Rightarrow> fallback
                   | Inr decision \<Rightarrow> decision)))"

subsection \<open>What LangGraph and pydantic document\<close>

fun run_nodes :: "(json_obj \<Rightarrow> json_obj res) list \<Rightarrow> json_obj \<Rightarrow> json_obj res" where
  "run_nodes [] state = Inr state"
| "run_nodes (n # ns) state = res_bind (n state) (\<lambda>update. run_nodes ns (update @ state))"

definition langgraph_sequential :: "agent_env \<Rightarrow> bool" where
  "langgraph_sequential env \<longleftrightarrow> (\<forall>nodes state. graph_invoke env nodes state = run_nodes nodes state)"

definition lax_float_ok :: "agent_env \<Rightarrow> bool" where
  "lax_float_ok env \<longleftrightarrow> (\<forall>x. lax_float env (JFloat x) = Some x)"

subsection \<open>Facts\<close>

lemma obj_get_append: "obj_get (u @ s) k = (case map_of u k of None \<Rightarrow> obj_get s k | Some v \<Rightarrow> v)"
  by (simp add: obj_get_def map_add_def split: option.splits)

lemma action_type_of_json_simps [simp]:
  "action_type_of_json (JStr (recovery_action_type_value a)) = Some a"
  "action_type_of_json JNull = None"
  by (simp_all add: action_type_of_json_def)

lemma validate_decision_output_legal:
  assumes "validate_decision_output env v = Inr out"
  shows "length (out_reason out) \<le> 512 \<and> (case out_confidence out of None \<Rightarrow> True | Some x \<Rightarrow> 0 \<le> x \<and> x \<le> 1)"
proof -
  obtain data where v: "v = JObj data" using assms by (cases v) (simp_all add: validate_decision_output_def)
  have "reason_field (obj_get data ''reason'') = Inr (out_reason out)"
    "confidence_field env (obj_get data ''confidence'') = Inr (out_confidence out)"
    using assms by (auto simp: v validate_decision_output_def)
  moreover have "reason_field w = Inr r \<Longrightarrow> length r \<le> 512" for w r
    by (cases w) (auto simp: reason_field_def split: if_splits)
  moreover have "confidence_field env w = Inr c \<Longrightarrow> (case c of None \<Rightarrow> True | Some x \<Rightarrow> 0 \<le> x \<and> x \<le> 1)" for w c
    unfolding confidence_field_def res_bind_Inr
    by (elim exE conjE, rename_tac y, case_tac y) (auto split: if_splits)
  ultimately show ?thesis by blast
qed

lemma parse_llm_output_legal:
  "parse_llm_output env raw = Inr out \<Longrightarrow>
     length (out_reason out) \<le> 512 \<and> (case out_confidence out of None \<Rightarrow> True | Some x \<Rightarrow> 0 \<le> x \<and> x \<le> 1)"
  unfolding parse_llm_output_def res_bind_Inr by (elim exE conjE) (erule validate_decision_output_legal)

lemma parse_not_json: "parse_llm_output env None = Inl (ValueError ''JSONDecodeError'')"
  by (simp add: parse_llm_output_def json_loads_def)

lemma parse_mock_answer:
  assumes "lax_float_ok env"
  shows "parse_llm_output env (Some (JObj [(''action'', JStr (recovery_action_type_value a)),
      (''reason'', JStr ''Mock LLM selected deterministic engine candidate.''), (''confidence'', JFloat (82 / 100))]))
    = Inr \<lparr>out_action = a, out_reason = ''Mock LLM selected deterministic engine candidate.'',
           out_confidence = Some (82 / 100)\<rparr>"
  using assms
  by (simp add: parse_llm_output_def json_loads_def validate_decision_output_def obj_get_Cons action_field_def
      reason_field_def confidence_field_def optional_float_def lax_float_ok_def)

lemma parse_illegal_action:
  "parse_llm_output env (Some (JObj ((''action'', JStr ''REFUND_CUSTOMER'') # rest))) = Inl ValidationError"
  by (auto simp: parse_llm_output_def json_loads_def validate_decision_output_def obj_get_Cons
      obj_set_def action_field_def action_type_of_json_def action_type_of_value_def split: json.splits)

definition llm_usable :: "settings \<Rightarrow> bool" where
  "llm_usable s = (llm_enabled s \<and> llm_provider s = ''mock''
     \<and> llm_mock_mode s \<notin> {''timeout'', ''malformed'', ''illegal_action''})"

lemma decide_node_cases:
  assumes "lax_float_ok env"
    and "obj_get state ''engine_candidate_action'' = JStr (recovery_action_type_value a)"
  shows "if llm_usable (env_settings env)
    then decide_node env state =
      Inr [(''selected_action'', JStr (recovery_action_type_value a)),
           (''decision_reason'', JStr ''Mock LLM selected deterministic engine candidate.''),
           (''decision_source'', JStr ''llm''), (''confidence'', JFloat (82 / 100)),
           (''fallback_used'', JBool False), (''error'', JNull)]
    else \<exists>r e. decide_node env state = Inr (fallback_state state r e)"
proof (cases "llm_usable (env_settings env)")
  case True
  have "recovery_action_type_value a \<noteq> []" by (cases a) simp_all
  then have "call_recovery_llm (env_settings env) state
      = Inr (Some (JObj [(''action'', JStr (recovery_action_type_value a)),
          (''reason'', JStr ''Mock LLM selected deterministic engine candidate.''), (''confidence'', JFloat (82 / 100))]))"
    using True assms(2)
    by (simp add: llm_usable_def call_recovery_llm_def call_mock_llm_def Let_def split: list.splits)
  with True parse_mock_answer [OF assms(1)] show ?thesis
    by (simp add: decide_node_def llm_usable_def)
next
  case False
  then have "llm_enabled (env_settings env) \<Longrightarrow>
      \<exists>e. res_bind (call_recovery_llm (env_settings env) state) (parse_llm_output env) = Inl e"
    using parse_not_json parse_illegal_action
    by (simp add: llm_usable_def call_recovery_llm_def call_mock_llm_def) auto
  with False show ?thesis by (cases "llm_enabled (env_settings env)") (auto simp: decide_node_def; blast)+
qed

lemma run_recovery_agent_cases:
  assumes "langgraph_sequential env" and "lax_float_ok env"
  shows "let d = run_recovery_agent env request in
    if llm_usable (env_settings env)
    then ad_selected_action d = req_engine_candidate_action request \<and> ad_source d = ''llm''
         \<and> ad_confidence d = Some (82 / 100)
    else ad_selected_action d = req_deterministic_final_action request
         \<and> ad_source d = ''deterministic_fallback'' \<and> ad_confidence d = None"
proof -
  define state where "state = [(''merchant_id'', JStr (req_merchant_id request)),
                   (''recovery_case_id'', JStr (req_recovery_case_id request)),
                   (''amount_minor'', JInt (req_amount_minor request)),
                   (''currency'', JStr (req_currency request)),
                   (''failure_category'', json_opt_str (req_failure_category request)),
                   (''engine_candidate_action'',
                      JStr (recovery_action_type_value (req_engine_candidate_action request))),
                   (''deterministic_final_action'',
                      JStr (recovery_action_type_value (req_deterministic_final_action request))),
                   (''total_action_count'', JInt (req_total_action_count request)),
                   (''reminder_count'', JInt (req_reminder_count request)),
                   (''active_payment_link_count'', JInt (req_active_payment_link_count request))]"
  have get: "obj_get state ''engine_candidate_action'' = JStr (recovery_action_type_value (req_engine_candidate_action request))"
    "obj_get state ''deterministic_final_action'' = JStr (recovery_action_type_value (req_deterministic_final_action request))"
    by (simp_all add: state_def obj_get_Cons)
  note dec = decide_node_cases [OF assms(2) get(1)]
  have run: "graph_invoke env (get_recovery_agent_graph env) state
      = run_nodes [decide_node env, validate_node env] state"
    using assms(1) by (simp add: langgraph_sequential_def get_recovery_agent_graph_def)
  show ?thesis
    unfolding run_recovery_agent_def Let_def state_def [symmetric] run
    using dec get assms(2)
    by (auto simp: validate_node_def Let_def obj_get_append obj_get_Cons fallback_state_def json_or_def
        make_agent_decision_def optional_float_def lax_float_ok_def split: if_splits list.splits)
qed

text \<open>
  C20: graceful degradation. When the graph library runs the two nodes in order, the agent answers
  the engine's candidate (source \<open>llm\<close>) if the model is usable, and in every other
  configuration, the model disabled, unsupported, timing out, answering text that is not JSON
  or an action that does not exist, exactly the deterministic final action, marked as fallback.
\<close>

theorem run_recovery_agent_spec:
  assumes "langgraph_sequential env" and "lax_float_ok env"
  shows "let d = run_recovery_agent env request in
    if llm_usable (env_settings env)
    then ad_selected_action d = req_engine_candidate_action request \<and> ad_source d = ''llm''
         \<and> ad_confidence d = Some (82 / 100)
    else ad_selected_action d = req_deterministic_final_action request
         \<and> ad_source d = ''deterministic_fallback'' \<and> ad_confidence d = None"
  using assms by (rule run_recovery_agent_cases)

end
