(* ===== verification/Eligible_Worker.thy ===== *)
theory Eligible_Worker
  imports Recovery_Engine Policy_Service Recovery_Cases Recovery_Actions Agent
begin

text \<open>
  The worker's handling of an eligible case, \<^verbatim>\<open>_handle_recovery_case_eligible\<close> of
  \<^verbatim>\<open>src/app/tasks/recovery.py\<close>: analyse, ask the engine, the policy and the agent, let the policy
  decide on the agent's answer, create the action, move the case, and write the follow-up outbox
  event and the audit event, all in one transaction.

  The handler is one Python function; its definition here is the composition of its consecutive
  sections: \<open>decide_action\<close> (engine, policy, agent, second policy check), \<open>schedule_action\<close>
  (the status changes after the action exists) and \<open>record_decision\<close> (outbox and audit event).
  \<open>worker_rivals\<close> is what other transactions commit at the three points where they can interfere:
  after the case was read, and between the \<open>SELECT\<close> and the \<open>INSERT\<close> of the policy and of the
  action.
\<close>

subsection \<open>Definitions\<close>

definition insert_decision_audit ::
  "recovery_case \<Rightarrow> string \<Rightarrow> recovery_action_type \<Rightarrow> recovery_action_type \<Rightarrow> recovery_action_type \<Rightarrow> string \<Rightarrow> string
   \<Rightarrow> recovery_action_type \<Rightarrow> bool \<Rightarrow> string \<Rightarrow> recovery_case_status \<Rightarrow> db \<Rightarrow> db res" where
  "insert_decision_audit c outbox_event_id engine_action deterministic_action agent_action agent_source
     agent_reason final_action final_policy_approved final_policy_reason final_status d =
     (let (u, d1) = new_uuid d in
      insert_audit_row
        \<lparr>au_id = u, au_merchant_id = rc_merchant_id c, au_entity_type = ''recovery_case'',
         au_entity_id = uuid_str (rc_id c), au_event_type = ''recovery_case.decision'',
         au_actor = ''policy_agent_worker'', au_correlation_id = None,
         au_payload =
           [(''outbox_event_id'', JStr outbox_event_id),
            (''engine_action'', JStr (recovery_action_type_value engine_action)),
            (''deterministic_action'', JStr (recovery_action_type_value deterministic_action)),
            (''agent_action'', JStr (recovery_action_type_value agent_action)),
            (''agent_source'', JStr agent_source),
            (''agent_reason'', JStr agent_reason),
            (''final_action'', JStr (recovery_action_type_value final_action)),
            (''final_policy_approved'', JBool final_policy_approved),
            (''final_policy_reason'', JStr final_policy_reason),
            (''final_status'', JStr (recovery_case_status_value final_status))],
         au_created_at = clock d1\<rparr> d1)"

definition action_scheduled_key :: "uuid \<Rightarrow> uuid \<Rightarrow> string" where
  "action_scheduled_key case_id action_id =
     ''recovery_case.action_scheduled:'' @ uuid_str case_id @ '':'' @ uuid_str action_id"

definition action_scheduled_event :: "uuid \<Rightarrow> recovery_case \<Rightarrow> recovery_action \<Rightarrow> int option \<Rightarrow> int \<Rightarrow> outbox_event" where
  "action_scheduled_event u c action deliver_at t =
     \<lparr>ob_id = u, ob_merchant_id = rc_merchant_id c, ob_aggregate_type = ''recovery_case'',
      ob_aggregate_id = uuid_str (rc_id c), ob_event_type = ''recovery_case.action_scheduled'',
      ob_payload = [(''recovery_case_id'', JStr (uuid_str (rc_id c))),
                    (''recovery_action_id'', JStr (uuid_str (ra_id action)))],
      ob_idempotency_key = action_scheduled_key (rc_id c) (ra_id action),
      ob_status = O_PENDING, ob_attempts = 0, ob_last_error = None, ob_created_at = t,
      ob_published_at = None, ob_deliver_at = deliver_at\<rparr>"

definition insert_action_scheduled_outbox ::
  "recovery_case \<Rightarrow> recovery_action \<Rightarrow> int option \<Rightarrow> db \<Rightarrow> db res" where
  "insert_action_scheduled_outbox c action deliver_at d =
     (let (u, d1) = new_uuid d in
      insert_outbox (action_scheduled_event u c action deliver_at (clock d1)) d1)"

definition atomic_transition_with_next_action_at ::
  "uuid \<Rightarrow> recovery_case_status \<Rightarrow> int \<Rightarrow> recovery_case_status \<Rightarrow> int option \<Rightarrow> db \<Rightarrow> (nat \<times> db) res" where
  "atomic_transition_with_next_action_at case_id expected_status expected_version new_status next_action_at d =
     res_bind (validate_transition expected_status new_status) (\<lambda>_.
       if \<not> integer_ok (expected_version + 1) then Inl DataError
       else Inr (update_cases
         (\<lambda>c. rc_id c = case_id \<and> rc_status c = expected_status \<and> rc_version c = expected_version)
         (\<lambda>c. c\<lparr>rc_status := new_status, rc_version := expected_version + 1, rc_updated_at := clock d,
                rc_next_action_at := next_action_at\<rparr>)
         d))"

record worker_decision =
  wd_engine :: recovery_decision
  wd_policy :: policy_decision
  wd_agent :: agent_decision
  wd_final_action :: recovery_action_type
  wd_final_approved :: bool
  wd_final_reason :: string
  wd_active :: policy_decision

text \<open>
  The engine's candidate, the policy's decision on it, the agent's answer, and the policy's decision
  on that answer. \<open>d\<close> is the database the counts are read from.
\<close>

definition decide_action :: "agent_env \<Rightarrow> merchant_policy \<Rightarrow> recovery_case \<Rightarrow> db \<Rightarrow> worker_decision" where
  "decide_action env policy c d =
     (let current_status = ANALYSING;
          engine_decision = evaluate_recovery (rc_amount_minor c) (rc_failure_category c);
          policy_input = build_policy_input d c (rd_action engine_decision) current_status None;
          limits = policy_limits_from policy;
          policy_decision = evaluate_policy limits policy_input (rd_delay_hours engine_decision);
          agent_decision = run_recovery_agent env
            \<lparr>req_merchant_id = uuid_str (rc_merchant_id c),
             req_recovery_case_id = uuid_str (rc_id c),
             req_amount_minor = rc_amount_minor c,
             req_currency = rc_currency c,
             req_failure_category = rc_failure_category c,
             req_engine_candidate_action = rd_action engine_decision,
             req_deterministic_final_action = pd_final_action policy_decision,
             req_total_action_count = pi_total_action_count policy_input,
             req_reminder_count = pi_reminder_count policy_input,
             req_active_payment_link_count = pi_active_payment_link_count policy_input\<rparr>;
          selected_action = ad_selected_action agent_decision
      in if selected_action = pd_final_action policy_decision \<and> ad_source agent_decision \<noteq> ''llm''
         then \<lparr>wd_engine = engine_decision, wd_policy = policy_decision, wd_agent = agent_decision,
               wd_final_action = selected_action, wd_final_approved = pd_approved policy_decision,
               wd_final_reason = pd_reason policy_decision, wd_active = policy_decision\<rparr>
         else
           let final_policy_input = build_policy_input d c selected_action current_status None;
               candidate_delay = (if selected_action = WAIT then rd_delay_hours engine_decision else None);
               final_policy_decision = evaluate_policy limits final_policy_input candidate_delay
           in if pd_approved final_policy_decision \<and> pd_final_action final_policy_decision = selected_action
              then \<lparr>wd_engine = engine_decision, wd_policy = policy_decision, wd_agent = agent_decision,
                    wd_final_action = selected_action, wd_final_approved = True,
                    wd_final_reason = pd_reason final_policy_decision, wd_active = final_policy_decision\<rparr>
              else \<lparr>wd_engine = engine_decision, wd_policy = policy_decision, wd_agent = agent_decision,
                    wd_final_action = pd_final_action policy_decision, wd_final_approved = False,
                    wd_final_reason = pd_reason final_policy_decision, wd_active = policy_decision\<rparr>)"

text \<open>\<open>timedelta(hours=h)\<close> in microseconds, rounded half to even.\<close>

definition timedelta_hours :: "rat \<Rightarrow> int" where
  "timedelta_hours h = round_half_even (h * 3600000000)"

definition wait_hours :: "worker_decision \<Rightarrow> rat" where
  "wait_hours w =
     (case pd_delay_hours (wd_active w) of
        Some h \<Rightarrow> h
      | None \<Rightarrow>
          (case (if rd_action (wd_engine w) = WAIT then rd_delay_hours (wd_engine w) else None) of
             Some h \<Rightarrow> h
           | None \<Rightarrow> 1))"

definition next_action_time :: "worker_decision \<Rightarrow> int \<Rightarrow> int" where
  "next_action_time w now = (if wd_final_action w = WAIT then now + timedelta_hours (wait_hours w) else now)"

text \<open>
  The status change out of \<open>ACTION_SELECTED\<close>: the row count, the final status, and the time of the
  next action when there is one.
\<close>

definition schedule_action ::
  "worker_decision \<Rightarrow> uuid \<Rightarrow> int \<Rightarrow> db \<Rightarrow> ((nat \<times> recovery_case_status \<times> int option) \<times> db) res" where
  "schedule_action w case_id v d =
     (if wd_final_action w = STOP
      then res_bind (atomic_transition_recovery_case case_id ACTION_SELECTED v STOPPED d) (\<lambda>(n, d').
             Inr ((n, STOPPED, None), d'))
      else if wd_final_action w = ESCALATE
      then res_bind (atomic_transition_recovery_case case_id ACTION_SELECTED v ESCALATED d) (\<lambda>(n, d').
             Inr ((n, ESCALATED, None), d'))
      else
        let next_action_at = next_action_time w (clock d) in
        res_bind (atomic_transition_with_next_action_at case_id ACTION_SELECTED v ACTION_SCHEDULED
                    (Some next_action_at) d) (\<lambda>(n, d').
          Inr ((n, ACTION_SCHEDULED, Some next_action_at), d')))"

definition record_decision ::
  "worker_decision \<Rightarrow> outbox_event \<Rightarrow> recovery_case \<Rightarrow> recovery_action \<Rightarrow> recovery_case_status \<Rightarrow> int option
   \<Rightarrow> db \<Rightarrow> (json_obj \<times> db) res" where
  "record_decision w outbox c action final_status next_action_at d =
     res_bind (if final_status = ACTION_SCHEDULED
               then insert_action_scheduled_outbox c action next_action_at d
               else Inr d) (\<lambda>d1.
     res_bind (insert_decision_audit c (uuid_str (ob_id outbox)) (rd_action (wd_engine w))
                 (pd_final_action (wd_policy w)) (ad_selected_action (wd_agent w)) (ad_source (wd_agent w))
                 (ad_reason (wd_agent w)) (wd_final_action w) (wd_final_approved w) (wd_final_reason w)
                 final_status d1) (\<lambda>d2.
       Inr ([(''status'', JStr ''processed''),
             (''recovery_case_id'', JStr (uuid_str (rc_id c))),
             (''engine_action'', JStr (recovery_action_type_value (rd_action (wd_engine w)))),
             (''deterministic_action'', JStr (recovery_action_type_value (pd_final_action (wd_policy w)))),
             (''agent_action'', JStr (recovery_action_type_value (ad_selected_action (wd_agent w)))),
             (''agent_source'', JStr (ad_source (wd_agent w))),
             (''agent_reason'', JStr (ad_reason (wd_agent w))),
             (''final_action'', JStr (recovery_action_type_value (wd_final_action w))),
             (''final_policy_approved'', JBool (wd_final_approved w)),
             (''final_policy_reason'', JStr (wd_final_reason w)),
             (''final_status'', JStr (recovery_case_status_value final_status))], d2)))"

definition ignored :: "string \<Rightarrow> json_obj" where
  "ignored reason = [(''status'', JStr ''ignored''), (''reason'', JStr reason)]"

record worker_rivals =
  after_case_read :: "db \<Rightarrow> db"
  before_policy_insert :: "db \<Rightarrow> db"
  before_action_insert :: "db \<Rightarrow> db"

text \<open>
  The sections of the handler from its end to its start: after the action was created; from the
  policy lookup on (\<open>d\<close> is the database after the case was moved to \<open>ANALYSING\<close>); and from the
  first status change on. \<open>c\<close> is the case as it was read.
\<close>

definition move_and_record ::
  "worker_decision \<Rightarrow> outbox_event \<Rightarrow> recovery_case \<Rightarrow> recovery_action \<Rightarrow> db \<Rightarrow> (json_obj \<times> db) res" where
  "move_and_record w outbox c action d =
     res_bind (atomic_transition_recovery_case (rc_id c) ANALYSING (rc_version c + 1) ACTION_SELECTED d) (\<lambda>(n2, d4).
     if n2 = 0 then Inr (ignored ''state_conflict_during_selection'', d4)
     else
       res_bind (schedule_action w (rc_id c) (rc_version c + 2) d4) (\<lambda>((n3, final_status, next_action_at), d5).
       if n3 = 0 then Inr (ignored ''state_conflict_during_final_transition'', d5)
       else record_decision w outbox c action final_status next_action_at d5))"

definition select_and_schedule ::
  "agent_env \<Rightarrow> worker_rivals \<Rightarrow> outbox_event \<Rightarrow> recovery_case \<Rightarrow> db \<Rightarrow> (json_obj \<times> db) res" where
  "select_and_schedule env rv outbox c d =
     res_bind (get_or_create_default_policy (before_policy_insert rv) (rc_merchant_id c) d) (\<lambda>(policy, d2).
     let w = decide_action env policy c d2;
         key = recovery_action_idempotency_key (rc_id c) (wd_final_action w) 1
     in
     res_bind (create_recovery_action_idempotent (before_action_insert rv) (rc_merchant_id c) (rc_id c)
                 (wd_final_action w) key 1 A_APPROVED None d2) (\<lambda>((action, created), d3).
     if \<not> created then Inr (ignored ''action_already_exists'', d3)
     else move_and_record w outbox c action d3))"

definition analyse_case ::
  "agent_env \<Rightarrow> worker_rivals \<Rightarrow> outbox_event \<Rightarrow> recovery_case \<Rightarrow> db \<Rightarrow> (json_obj \<times> db) res" where
  "analyse_case env rv outbox c d =
     (case atomic_transition_recovery_case (rc_id c) (rc_status c) (rc_version c) ANALYSING d of
        Inl (InvalidStateTransition _) \<Rightarrow> Inr (ignored ''invalid_state_transition'', d)
      | Inl e \<Rightarrow> Inl e
      | Inr (n1, d1) \<Rightarrow>
          if n1 = 0 then Inr (ignored ''state_conflict_or_stale_job'', d1)
          else select_and_schedule env rv outbox c d1)"

definition handle_recovery_case_eligible ::
  "agent_env \<Rightarrow> worker_rivals \<Rightarrow> outbox_event \<Rightarrow> db \<Rightarrow> (json_obj \<times> db) res" where
  "handle_recovery_case_eligible env rv outbox d =
     (case uuid_of_json (obj_get (ob_payload outbox) ''recovery_case_id'') of
        None \<Rightarrow> Inr ([(''status'', JStr ''invalid_payload'')], d)
      | Some case_id \<Rightarrow>
          (case get_case d case_id of
             None \<Rightarrow> Inr ([(''status'', JStr ''missing_recovery_case'')], d)
           | Some c \<Rightarrow>
               if rc_status c \<noteq> ELIGIBLE
               then Inr (ignored (''case_status_is_'' @ recovery_case_status_value (rc_status c)), d)
               else analyse_case env rv outbox c (after_case_read rv d)))"

definition process_eligible_event ::
  "agent_env \<Rightarrow> worker_rivals \<Rightarrow> string \<Rightarrow> db \<Rightarrow> json_obj res \<times> db" where
  "process_eligible_event env rv outbox_event_id d =
     (case uuid_parse outbox_event_id of
        None \<Rightarrow> (Inr [(''status'', JStr ''invalid_outbox_id'')], d)
      | Some outbox_id \<Rightarrow>
          in_transaction (\<lambda>d.
            case get_outbox d outbox_id of
              None \<Rightarrow> Inr ([(''status'', JStr ''missing_outbox_event'')], d)
            | Some outbox \<Rightarrow> handle_recovery_case_eligible env rv outbox d) d)"

subsection \<open>The decision\<close>

text \<open>Actions that contact the customer.\<close>

definition contacts_customer :: "recovery_action_type \<Rightarrow> bool" where
  "contacts_customer a = (a \<in> {CREATE_PAYMENT_LINK, SEND_REMINDER})"

lemma evaluate_policy_contact:
  "contacts_customer (pd_final_action (evaluate_policy l i h)) \<Longrightarrow>
     pd_approved (evaluate_policy l i h) \<and> pd_final_action (evaluate_policy l i h) = pi_candidate_action i"
  using evaluate_policy_approved_final [of l i h]
  by (auto simp: contacts_customer_def evaluate_policy_def Let_def split: if_splits)

lemma decide_action_guarded:
  fixes env policy c d
  defines "w \<equiv> decide_action env policy c d"
  defines "i \<equiv> build_policy_input d c (wd_final_action w) ANALYSING None"
  shows "contacts_customer (wd_final_action w) \<or> wd_final_approved w \<Longrightarrow> permitted (policy_limits_from policy) i"
proof -
  define e where "e = evaluate_recovery (rc_amount_minor c) (rc_failure_category c)"
  define l where "l = policy_limits_from policy"
  define p where "p = evaluate_policy l (build_policy_input d c (rd_action e) ANALYSING None) (rd_delay_hours e)"
  have p: "contacts_customer (pd_final_action p) \<or> pd_approved p \<Longrightarrow>
      permitted l (build_policy_input d c (pd_final_action p) ANALYSING None)"
    using evaluate_policy_contact [of l "build_policy_input d c (rd_action e) ANALYSING None" "rd_delay_hours e"]
      evaluate_policy_approved_final [of l "build_policy_input d c (rd_action e) ANALYSING None" "rd_delay_hours e"]
      evaluate_policy_approved_iff [of l "build_policy_input d c (rd_action e) ANALYSING None" "rd_delay_hours e"]
    unfolding p_def by auto
  have q: "pd_approved (evaluate_policy l (build_policy_input d c a ANALYSING None) h) \<Longrightarrow>
      permitted l (build_policy_input d c a ANALYSING None)" for a h
    by (simp add: evaluate_policy_approved_iff)
  assume "contacts_customer (wd_final_action w) \<or> wd_final_approved w"
  with p q show ?thesis
    unfolding w_def i_def decide_action_def Let_def e_def [symmetric] l_def [symmetric] p_def [symmetric]
    by (auto split: if_splits)
qed

lemma decide_action_refused:
  "\<not> permitted (policy_limits_from policy) (build_policy_input d c (wd_final_action (decide_action env policy c d)) ANALYSING None)
   \<Longrightarrow> wd_final_action (decide_action env policy c d) \<in> {STOP, ESCALATE, WAIT}"
  using decide_action_guarded [of env policy c d]
  by (cases "wd_final_action (decide_action env policy c d)") (auto simp: contacts_customer_def)

subsection \<open>Statements of the handler\<close>

lemma insert_decision_audit_step:
  assumes "insert_decision_audit c oi ea da aa src rsn fa fpa fpr fs d = Inr d'"
  shows "db_step d d'"
  using assms unfolding insert_decision_audit_def Let_def case_prod_beta
  by (rule db_step_trans [OF new_uuid_step insert_audit_row_step])

lemma insert_action_scheduled_outbox_step:
  assumes "insert_action_scheduled_outbox c a t d = Inr d'"
  shows "db_step d d'"
  using assms unfolding insert_action_scheduled_outbox_def Let_def case_prod_beta
  by (rule db_step_trans [OF new_uuid_step insert_outbox_step])

lemma scheduled_update:
  assumes "atomic_transition_with_next_action_at i s v t m d = Inr (n, d')"
  shows "update_cases (case_guard i s v)
      (\<lambda>c. c\<lparr>rc_status := t, rc_version := rc_version c + 1, rc_updated_at := clock d, rc_next_action_at := m\<rparr>) d = (n, d')"
    and "s = t \<or> can_transition s t" and "integer_ok (v + 1)"
proof -
  let ?g = "\<lambda>c. c\<lparr>rc_status := t, rc_version := v + 1, rc_updated_at := clock d, rc_next_action_at := m\<rparr>"
  let ?h = "\<lambda>c. c\<lparr>rc_status := t, rc_version := rc_version c + 1, rc_updated_at := clock d, rc_next_action_at := m\<rparr>"
  have u: "update_cases (case_guard i s v) ?g d = (n, d')" and t: "s = t \<or> can_transition s t" "integer_ok (v + 1)"
    using assms by (auto simp: atomic_transition_with_next_action_at_def case_guard_def [abs_def] split: if_splits)
  have "upd_where (case_guard i s v) ?g xs = upd_where (case_guard i s v) ?h xs" for xs
    by (auto simp: upd_where_def case_guard_def)
  with u show "update_cases (case_guard i s v) ?h d = (n, d')" by (simp add: update_cases_def)
  show "s = t \<or> can_transition s t" "integer_ok (v + 1)" by (fact t)+
qed

lemma scheduled_step:
  assumes "atomic_transition_with_next_action_at i s v t m d = Inr (n, d')" and "s \<noteq> t"
  shows "db_step d d'"
  using guarded_update_step [OF scheduled_update(1) [OF assms(1)] moves_to_scheduled]
    scheduled_update(2,3) [OF assms(1)] assms(2) by blast

lemma schedule_action_step: "keeps d (schedule_action w i v d)"
  by (auto simp: schedule_action_def Let_def intro!: keepsI
      dest!: atomic_transition_step scheduled_step split: if_splits)

lemma record_decision_step: "keeps d (record_decision w outbox c a fs nx d)"
  unfolding record_decision_def
  by (rule keeps_bind_db [OF _ db_step_refl], force split: if_splits intro: insert_action_scheduled_outbox_step)
     (rule keeps_bind_db [OF insert_decision_audit_step], simp_all add: keeps_return)

lemma move_and_record_step: "keeps d (move_and_record w outbox c a d)"
  unfolding move_and_record_def
proof (rule keeps_bind [OF _ db_step_refl])
  show "keeps d (atomic_transition_recovery_case (rc_id c) ANALYSING (rc_version c + 1) ACTION_SELECTED d)"
    by (rule keepsI, erule atomic_transition_step) simp
next
  fix n2 d4 assume d4: "db_step d d4"
  have "keeps d (res_bind (schedule_action w (rc_id c) (rc_version c + 2) d4) (\<lambda>((n3, final_status, next_action_at), d5).
       if n3 = 0 then Inr (ignored ''state_conflict_during_final_transition'', d5)
       else record_decision w outbox c a final_status next_action_at d5))"
    by (rule keeps_bind [OF schedule_action_step d4])
      (auto simp: keeps_return intro: keeps_trans [OF _ record_decision_step])
  with d4 show "keeps d (case (n2, d4) of (n2, d4) \<Rightarrow>
     if n2 = 0 then Inr (ignored ''state_conflict_during_selection'', d4)
     else
       res_bind (schedule_action w (rc_id c) (rc_version c + 2) d4) (\<lambda>((n3, final_status, next_action_at), d5).
       if n3 = 0 then Inr (ignored ''state_conflict_during_final_transition'', d5)
       else record_decision w outbox c a final_status next_action_at d5))"
    by (simp add: keeps_return)
qed

subsection \<open>The handler respects the history\<close>

definition worker_rivals_ok :: "worker_rivals \<Rightarrow> bool" where
  "worker_rivals_ok rv \<longleftrightarrow>
     (\<forall>d. db_step d (after_case_read rv d) \<and> db_step d (before_policy_insert rv d)
          \<and> db_step d (before_action_insert rv d))"

lemma case_merchant_stable:
  assumes "db_evolves d d'" and "get_case d i = Some c"
  shows "\<exists>c'. get_case d' i = Some c' \<and> rc_merchant_id c' = rc_merchant_id c"
  using db_evolves_case [OF assms] by (auto simp: case_evolves_def)

lemma select_and_schedule_step:
  assumes ok: "db_ok d0" and c: "get_case d0 (rc_id c) = Some c" and d1: "db_step d0 d1"
    and rv: "worker_rivals_ok rv"
  shows "keeps d0 (select_and_schedule env rv outbox c d1)"
  unfolding select_and_schedule_def
proof (rule keeps_bind [OF _ d1])
  show "keeps d1 (get_or_create_default_policy (before_policy_insert rv) (rc_merchant_id c) d1)"
    using get_or_create_step rv unfolding worker_rivals_ok_def by (blast intro: keepsI)
next
  fix policy d2 assume d2: "db_step d0 d2"
  have "db_step d0 (before_action_insert rv d2)"
    using d2 rv db_step_trans unfolding worker_rivals_ok_def by blast
  then obtain c' where c': "get_case (before_action_insert rv d2) (rc_id c) = Some c'"
    "rc_merchant_id c' = rc_merchant_id c"
    using case_merchant_stable [OF _ c] ok db_step_evolves by blast
  have create: "keeps d2 (create_recovery_action_idempotent (before_action_insert rv) (rc_merchant_id c) (rc_id c)
      t k 1 A_APPROVED None d2)" for t k
    using create_recovery_action_idempotent_step [where rival = "before_action_insert rv" and d = d2 and r = c'] c' rv
    unfolding worker_rivals_ok_def by (fastforce intro: keepsI)
  show "keeps d0 (case (policy, d2) of (policy, d2) \<Rightarrow>
     let w = decide_action env policy c d2;
         key = recovery_action_idempotency_key (rc_id c) (wd_final_action w) 1
     in
     res_bind (create_recovery_action_idempotent (before_action_insert rv) (rc_merchant_id c) (rc_id c)
                 (wd_final_action w) key 1 A_APPROVED None d2) (\<lambda>((action, created), d3).
     if \<not> created then Inr (ignored ''action_already_exists'', d3)
     else move_and_record w outbox c action d3))"
    unfolding prod.case Let_def
    by (rule keeps_bind [OF create d2]) (auto simp: keeps_return intro: keeps_trans [OF _ move_and_record_step])
qed

lemma analyse_case_step:
  assumes ok: "db_ok d0" and c: "get_case d0 (rc_id c) = Some c" and el: "rc_status c = ELIGIBLE"
    and d: "db_step d0 d" and rv: "worker_rivals_ok rv"
  shows "keeps d0 (analyse_case env rv outbox c d)"
proof (cases "atomic_transition_recovery_case (rc_id c) (rc_status c) (rc_version c) ANALYSING d")
  case (Inl e)
  then show ?thesis using d by (cases e) (simp_all add: analyse_case_def keeps_return)
next
  case (Inr x)
  obtain n1 d1 where x: "x = (n1, d1)" by (cases x)
  have "db_step d0 d1"
    using atomic_transition_step [of "rc_id c"] Inr x el d db_step_trans by fastforce
  with select_and_schedule_step [OF ok c _ rv] Inr x show ?thesis
    by (simp add: analyse_case_def keeps_return)
qed

lemma handle_eligible_step:
  assumes "db_ok d" and "worker_rivals_ok rv"
  shows "keeps d (handle_recovery_case_eligible env rv outbox d)"
proof -
  have "db_step d (after_case_read rv d)" using assms(2) by (simp add: worker_rivals_ok_def)
  then have "keeps d (analyse_case env rv outbox c (after_case_read rv d))"
    if "get_case d i = Some c" "rc_status c = ELIGIBLE" for i c
    using analyse_case_step [OF assms(1) _ that(2) _ assms(2)] that(1) case_table.get_key [OF that(1)] by simp
  then show ?thesis
    by (auto simp: handle_recovery_case_eligible_def keeps_return split: option.split)
qed

lemma process_eligible_event_step:
  assumes "db_ok d" and "worker_rivals_ok rv"
  shows "db_step d (snd (process_eligible_event env rv oid d))"
  using handle_eligible_step [OF assms]
  by (auto simp: process_eligible_event_def keeps_return split: option.split intro!: in_transaction_step)

end
