(* ===== verification/Worker_Facts.thy ===== *)
theory Worker_Facts
  imports Eligible_Worker
begin

text \<open>
  What the handler of an eligible case does when no other transaction interferes: which actions it
  may create, and that it reaches its end.
\<close>

subsection \<open>Frames\<close>

definition no_worker_rivals :: worker_rivals where
  "no_worker_rivals = \<lparr>after_case_read = \<lambda>d. d, before_policy_insert = \<lambda>d. d, before_action_insert = \<lambda>d. d\<rparr>"

lemma no_worker_rivals_simps [simp]:
  "after_case_read no_worker_rivals = (\<lambda>d. d)" "before_policy_insert no_worker_rivals = (\<lambda>d. d)"
  "before_action_insert no_worker_rivals = (\<lambda>d. d)"
  by (simp_all add: no_worker_rivals_def)

lemma no_worker_rivals_ok: "worker_rivals_ok no_worker_rivals"
  by (simp add: worker_rivals_ok_def)

definition same_actions :: "db \<Rightarrow> db \<Rightarrow> bool" where
  "same_actions d d' \<longleftrightarrow> recovery_actions d' = recovery_actions d \<and> merchant_policies d' = merchant_policies d"

interpretation action_order: state_preorder same_actions
  by unfold_locales (auto simp: same_actions_def)

lemma transition_same_actions:
  "atomic_transition_recovery_case i s v t d = Inr (n, d') \<Longrightarrow> same_actions d d'"
  "atomic_transition_with_next_action_at i s v t m d = Inr (n, d') \<Longrightarrow> same_actions d d'"
  by (auto simp: atomic_transition_recovery_case_def atomic_transition_with_next_action_at_def
      update_cases_def same_actions_def split: if_splits)

lemma schedule_action_same_actions: "keeps_rel same_actions d (schedule_action w i v d)"
  by (auto simp: schedule_action_def Let_def intro!: keeps_relI dest: transition_same_actions split: if_splits)

lemma insert_same_actions:
  "insert_action_scheduled_outbox c a m d = Inr d' \<Longrightarrow> same_actions d d'"
  "insert_decision_audit c oi ea da aa src rsn fa fpa fpr fs d = Inr d' \<Longrightarrow> same_actions d d'"
  by (auto simp: insert_action_scheduled_outbox_def insert_decision_audit_def Let_def new_uuid_def
      same_actions_def dest!: insert_Inr)

lemma record_decision_same_actions: "keeps_rel same_actions d (record_decision w outbox c a fs nx d)"
  unfolding record_decision_def
  by (rule action_order.bind_db_rule [OF _ action_order.state_refl])
     (force split: if_splits intro: insert_same_actions action_order.state_refl,
      rule action_order.bind_db_rule [OF insert_same_actions(2)], simp_all add: keeps_rel_return)

lemma move_and_record_same_actions: "keeps_rel same_actions d (move_and_record w outbox c a d)"
proof (rule keeps_relI)
  fix x d' assume "move_and_record w outbox c a d = Inr (x, d')"
  then obtain n2 d4 where d4: "atomic_transition_recovery_case (rc_id c) ANALYSING (rc_version c + 1) ACTION_SELECTED d = Inr (n2, d4)"
    and rest: "(if n2 = 0 then Inr (ignored ''state_conflict_during_selection'', d4)
     else
       res_bind (schedule_action w (rc_id c) (rc_version c + 2) d4) (\<lambda>((n3, final_status, next_action_at), d5).
       if n3 = 0 then Inr (ignored ''state_conflict_during_final_transition'', d5)
       else record_decision w outbox c a final_status next_action_at d5)) = Inr (x, d')"
    unfolding move_and_record_def res_bind_Inr by auto
  have "keeps_rel same_actions d4 (if n2 = 0 then Inr (ignored ''state_conflict_during_selection'', d4)
     else
       res_bind (schedule_action w (rc_id c) (rc_version c + 2) d4) (\<lambda>((n3, final_status, next_action_at), d5).
       if n3 = 0 then Inr (ignored ''state_conflict_during_final_transition'', d5)
       else record_decision w outbox c a final_status next_action_at d5))"
    by (auto simp: keeps_rel_return action_order.state_refl intro: action_order.trans_rule [OF _ record_decision_same_actions]
        intro!: action_order.bind_rule [OF schedule_action_same_actions action_order.state_refl])
  from keeps_relD [OF this rest] transition_same_actions(1) [OF d4] show "same_actions d d'"
    by (rule action_order.state_trans [rotated])
qed

lemma select_and_schedule_Inr:
  assumes "select_and_schedule env no_worker_rivals outbox c d = Inr (r, d')"
  obtains policy d2 a created d3
  where "get_or_create_default_policy (\<lambda>d. d) (rc_merchant_id c) d = Inr (policy, d2)"
    and "create_recovery_action_idempotent (\<lambda>d. d) (rc_merchant_id c) (rc_id c)
           (wd_final_action (decide_action env policy c d2))
           (recovery_action_idempotency_key (rc_id c) (wd_final_action (decide_action env policy c d2)) 1)
           1 A_APPROVED None d2 = Inr ((a, created), d3)"
    and "same_actions d3 d'"
proof -
  from assms obtain policy d2 a created d3
    where g: "get_or_create_default_policy (\<lambda>d. d) (rc_merchant_id c) d = Inr (policy, d2)"
      and cr: "create_recovery_action_idempotent (\<lambda>d. d) (rc_merchant_id c) (rc_id c)
           (wd_final_action (decide_action env policy c d2))
           (recovery_action_idempotency_key (rc_id c) (wd_final_action (decide_action env policy c d2)) 1)
           1 A_APPROVED None d2 = Inr ((a, created), d3)"
      and rest: "(if \<not> created then Inr (ignored ''action_already_exists'', d3)
           else move_and_record (decide_action env policy c d2) outbox c a d3) = Inr (r, d')"
    unfolding select_and_schedule_def res_bind_Inr Let_def by auto
  have "same_actions d3 d'"
    using rest keeps_relD [OF move_and_record_same_actions] action_order.state_refl by (auto split: if_splits)
  with g cr show thesis by (rule that)
qed

subsection \<open>The model cannot bypass the policy\<close>

lemma build_policy_input_actions:
  "recovery_actions d' = recovery_actions d \<Longrightarrow> build_policy_input d' = build_policy_input d"
  by (simp add: fun_eq_iff build_policy_input_def)

text \<open>The handler adds no action, or exactly one.\<close>

lemma worker_actions:
  assumes run: "handle_recovery_case_eligible env no_worker_rivals outbox d = Inr (r, d')"
  shows "recovery_actions d' = recovery_actions d
    \<or> (\<exists>a c policy. recovery_actions d' = recovery_actions d @ [a]
         \<and> get_case d (ra_recovery_case_id a) = Some c \<and> rc_status c = ELIGIBLE
         \<and> policy \<in> set (merchant_policies d') \<and> mp_merchant_id policy = rc_merchant_id c
         \<and> ra_merchant_id a = rc_merchant_id c \<and> ra_status a = A_APPROVED \<and> ra_attempt_number a = 1
         \<and> canonical_key a
         \<and> (permitted (policy_limits_from policy) (build_policy_input d c (ra_action_type a) ANALYSING None)
             \<or> ra_action_type a \<in> {STOP, ESCALATE, WAIT}))"
proof (cases "recovery_actions d' = recovery_actions d")
  case False
  from run False obtain i c where c: "get_case d i = Some c" "rc_status c = ELIGIBLE"
    and an: "analyse_case env no_worker_rivals outbox c d = Inr (r, d')"
    by (auto simp: handle_recovery_case_eligible_def split: option.splits if_splits)
  from an False obtain n d1 where d1: "atomic_transition_recovery_case (rc_id c) (rc_status c) (rc_version c) ANALYSING d = Inr (n, d1)"
    and rest: "(if n = 0 then Inr (ignored ''state_conflict_or_stale_job'', d1)
          else select_and_schedule env no_worker_rivals outbox c d1) = Inr (r, d')"
    unfolding analyse_case_def by (auto split: sum.splits exc.splits)
  have d: "recovery_actions d1 = recovery_actions d" using transition_same_actions(1) [OF d1] by (simp add: same_actions_def)
  with rest False have sel: "select_and_schedule env no_worker_rivals outbox c d1 = Inr (r, d')" by (auto split: if_splits)
  from select_and_schedule_Inr [OF this] obtain policy d2 b created d3
    where p: "get_or_create_default_policy (\<lambda>d. d) (rc_merchant_id c) d1 = Inr (policy, d2)"
      and cr: "create_recovery_action_idempotent (\<lambda>d. d) (rc_merchant_id c) (rc_id c)
           (wd_final_action (decide_action env policy c d2))
           (recovery_action_idempotency_key (rc_id c) (wd_final_action (decide_action env policy c d2)) 1)
           1 A_APPROVED None d2 = Inr ((b, created), d3)"
      and same: "same_actions d3 d'" by blast
  have d2: "recovery_actions d2 = recovery_actions d"
    using arg_cong [OF get_or_create_frame [OF p], of recovery_actions] d by simp
  let ?t = "wd_final_action (decide_action env policy c d2)"
  note cr_cases = create_recovery_action_idempotent_Inr [OF cr]
  have created: "created"
  proof (rule ccontr)
    assume "\<not> created"
    with cr_cases have "d3 = d2 \<or> d3 = snd (new_uuid d2)" by simp
    with False same d2 show False by (auto simp: same_actions_def new_uuid_def)
  qed
  have ins: "insert_action b (snd (new_uuid d2)) = Inr d3"
    and b: "b = new_recovery_action (fst (new_uuid d2)) (rc_merchant_id c) (rc_id c) ?t A_APPROVED
          (recovery_action_idempotency_key (rc_id c) ?t 1) 1 None (clock d2)"
    using cr_cases unfolding if_P [OF created] by blast+
  from insert_Inr(3) [OF ins] same have rows: "recovery_actions d' = recovery_actions d @ [b]"
      "merchant_policies d' = merchant_policies d2"
    by (simp_all add: same_actions_def new_uuid_def d2)
  have pol: "policy \<in> set (merchant_policies d')" "mp_merchant_id policy = rc_merchant_id c"
    using get_or_create_cases [OF p] rows by simp_all
  have "permitted (policy_limits_from policy) (build_policy_input d c ?t ANALYSING None) \<or> ?t \<in> {STOP, ESCALATE, WAIT}"
    using decide_action_refused [of policy d2 c env] unfolding build_policy_input_actions [OF d2] by blast
  moreover have "ra_recovery_case_id b = i" "ra_merchant_id b = rc_merchant_id c" "ra_status b = A_APPROVED"
    "ra_attempt_number b = 1" "canonical_key b" "ra_action_type b = ?t"
    using case_table.get_key [OF c(1)] by (simp_all add: b new_recovery_action_def canonical_key_def)
  ultimately show ?thesis using c pol rows(1) by (intro disjI2 exI [of _ b] exI [of _ c] exI [of _ policy]) simp
qed blast

text \<open>
  C14: whatever the language model answers, every action the handler creates is an approved first
  attempt for the eligible case of the event, under its canonical key and for its merchant, and
  either the merchant's policy permits it against the counts of that moment or it is one of the
  actions that do not contact the customer.
\<close>

theorem worker_actions_permitted:
  assumes run: "handle_recovery_case_eligible env no_worker_rivals outbox d = Inr (r, d')"
    and new: "a \<in> set (recovery_actions d')" "a \<notin> set (recovery_actions d)"
  shows "\<exists>c policy. get_case d (ra_recovery_case_id a) = Some c \<and> rc_status c = ELIGIBLE
    \<and> policy \<in> set (merchant_policies d') \<and> mp_merchant_id policy = rc_merchant_id c
    \<and> ra_merchant_id a = rc_merchant_id c \<and> ra_status a = A_APPROVED \<and> ra_attempt_number a = 1
    \<and> canonical_key a
    \<and> (permitted (policy_limits_from policy) (build_policy_input d c (ra_action_type a) ANALYSING None)
        \<or> ra_action_type a \<in> {STOP, ESCALATE, WAIT})"
  using worker_actions [OF run] new by auto

subsection \<open>The handler reaches its end\<close>

text \<open>
  The next \<open>k\<close> identifiers \<open>uuid4\<close> draws are not yet primary keys: \<open>unused_rows\<close> of the policies and
  actions, \<open>unused_ids\<close> of the outbox and audit events.
\<close>

definition unused_rows :: "nat \<Rightarrow> db \<Rightarrow> bool" where
  "unused_rows k d = list_all (\<lambda>n. get_policy d (uuid4 d (uuid_drawn d + n)) = None
     \<and> get_action d (uuid4 d (uuid_drawn d + n)) = None) [0..<k]"

definition unused_ids :: "nat \<Rightarrow> db \<Rightarrow> bool" where
  "unused_ids k d = list_all (\<lambda>n. get_outbox d (uuid4 d (uuid_drawn d + n)) = None
     \<and> get_audit d (uuid4 d (uuid_drawn d + n)) = None) [0..<k]"

definition final_status_of :: "recovery_action_type \<Rightarrow> recovery_case_status" where
  "final_status_of a = (if a = STOP then STOPPED else if a = ESCALATE then ESCALATED else ACTION_SCHEDULED)"

lemma transition_total:
  assumes "db_ok d" and "get_case d i = Some c" and "rc_status c = s" and "rc_version c = v"
    and "can_transition s t" and "integer_ok (v + 1)"
  obtains d' where "atomic_transition_recovery_case i s v t d = Inr (1, d')"
    and "get_case d' i = Some (c\<lparr>rc_status := t, rc_version := v + 1, rc_updated_at := clock d\<rparr>)"
    and "d' = d\<lparr>recovery_cases := recovery_cases d'\<rparr>" and "db_ok d'"
proof -
  obtain n d' where tr: "atomic_transition_recovery_case i s v t d = Inr (n, d')"
    using atomic_transition_total [OF assms(5,6)] by blast
  have n: "n = 1" using atomic_transition_Inr(1) [OF assms(1) tr] assms by simp
  have "s \<noteq> t" using assms(5) by (cases t; auto simp: can_transition_def)
  then have "db_ok d'" using atomic_transition_step [OF tr] assms(1) db_step_ok by blast
  with tr n atomic_transition_Inr(3) [OF assms(1) tr] atomic_transition_frame [OF tr] assms(2) show thesis
    by (intro that) auto
qed

lemma scheduled_total:
  assumes "db_ok d" and "get_case d i = Some c" and "rc_status c = ACTION_SELECTED" and "rc_version c = v"
    and "integer_ok (v + 1)"
  obtains d' where "atomic_transition_with_next_action_at i ACTION_SELECTED v ACTION_SCHEDULED m d = Inr (1, d')"
    and "get_case d' i = Some (c\<lparr>rc_status := ACTION_SCHEDULED, rc_version := v + 1, rc_updated_at := clock d,
           rc_next_action_at := m\<rparr>)"
    and "d' = d\<lparr>recovery_cases := recovery_cases d'\<rparr>" and "db_ok d'"
proof -
  obtain n d' where tr: "atomic_transition_with_next_action_at i ACTION_SELECTED v ACTION_SCHEDULED m d = Inr (n, d')"
    and fr: "d' = d\<lparr>recovery_cases := recovery_cases d'\<rparr>"
    using assms(5) by (simp add: atomic_transition_with_next_action_at_def update_cases_def can_transition_def validate_transition_def)
  note res = guarded_update_result [OF assms(1) scheduled_update(1) [OF tr] moves_to_scheduled]
  have "n = 1" using res(1) assms by simp
  moreover have "db_ok d'" using scheduled_step [OF tr] assms(1) db_step_ok by simp
  ultimately show thesis using tr fr res(3) assms(2,4) by (intro that) auto
qed

lemma schedule_action_total:
  assumes "db_ok d" and "get_case d i = Some c" and "rc_status c = ACTION_SELECTED" and "rc_version c = v"
    and "integer_ok (v + 1)"
  obtains d' c' where "schedule_action w i v d = Inr ((1, final_status_of (wd_final_action w), 
      if final_status_of (wd_final_action w) = ACTION_SCHEDULED then Some (next_action_time w (clock d)) else None), d')"
    and "get_case d' i = Some c'" and "rc_status c' = final_status_of (wd_final_action w)" and "rc_version c' = v + 1"
    and "rc_merchant_id c' = rc_merchant_id c"
    and "final_status_of (wd_final_action w) = ACTION_SCHEDULED \<Longrightarrow> rc_next_action_at c' = Some (next_action_time w (clock d))"
    and "d' = d\<lparr>recovery_cases := recovery_cases d'\<rparr>" and "db_ok d'"
proof (cases "final_status_of (wd_final_action w) = ACTION_SCHEDULED")
  case True
  obtain d' where d': "atomic_transition_with_next_action_at i ACTION_SELECTED v ACTION_SCHEDULED
      (Some (next_action_time w (clock d))) d = Inr (1, d')"
    "get_case d' i = Some (c\<lparr>rc_status := ACTION_SCHEDULED, rc_version := v + 1, rc_updated_at := clock d,
           rc_next_action_at := Some (next_action_time w (clock d))\<rparr>)"
    "d' = d\<lparr>recovery_cases := recovery_cases d'\<rparr>" "db_ok d'"
    using scheduled_total [OF assms] by blast
  show thesis
    by (rule that [OF _ d'(2) _ _ _ _ d'(3,4)])
      (use True d'(1) in \<open>auto simp: schedule_action_def Let_def final_status_of_def split: if_splits\<close>)
next
  case False
  define t where "t = final_status_of (wd_final_action w)"
  have "can_transition ACTION_SELECTED t"
    using False by (auto simp: t_def final_status_of_def can_transition_def split: if_splits)
  then obtain d' where d': "atomic_transition_recovery_case i ACTION_SELECTED v t d = Inr (1, d')"
    "get_case d' i = Some (c\<lparr>rc_status := t, rc_version := v + 1, rc_updated_at := clock d\<rparr>)"
    "d' = d\<lparr>recovery_cases := recovery_cases d'\<rparr>" "db_ok d'"
    using transition_total [OF assms(1-4) _ assms(5)] by blast
  show thesis
    by (rule that [OF _ d'(2) _ _ _ _ d'(3,4)])
      (use False d'(1) in \<open>auto simp: schedule_action_def Let_def t_def final_status_of_def split: if_splits\<close>)
qed


lemma get_case_merchant:
  assumes "db_ok d" and "get_case d i = Some c"
  shows "get_merchant d (rc_merchant_id c) \<noteq> None"
  using assms by (auto simp: db_ok_def cases_ok_def get_defs get_row_None_iff dest!: get_row_SomeD)

lemma insert_action_scheduled_total:
  assumes "get_merchant d (rc_merchant_id c) \<noteq> None" and "get_outbox d (uuid4 d (uuid_drawn d)) = None"
    and "action_scheduled_key (rc_id c) (ra_id a) \<notin> ob_idempotency_key ` set (outbox_events d)"
  shows "insert_action_scheduled_outbox c a m d = Inr (d\<lparr>uuid_drawn := Suc (uuid_drawn d),
     outbox_events := outbox_events d @ [action_scheduled_event (uuid4 d (uuid_drawn d)) c a m (clock d)]\<rparr>)"
proof -
  have "outbox_row_check (action_scheduled_event u c a m t) = Inr ()" for u t
    by (simp add: outbox_row_check_def action_scheduled_event_def action_scheduled_key_def varchar_ok_def
        integer_ok_def opt_varchar_ok_def)
  moreover have "\<not> list_ex (\<lambda>q. ob_idempotency_key q = action_scheduled_key (rc_id c) (ra_id a)) (outbox_events d)"
    using assms(3) by (auto simp: list_ex_iff image_iff)
  ultimately show ?thesis using assms(1,2)
    by (simp add: insert_action_scheduled_outbox_def insert_outbox_def new_uuid_def get_defs)
      (simp add: action_scheduled_event_def)
qed

lemma insert_decision_audit_total:
  assumes "get_merchant d (rc_merchant_id c) \<noteq> None" and "get_audit d (uuid4 d (uuid_drawn d)) = None"
  shows "\<exists>e. insert_decision_audit c oi ea da aa src rsn fa fpa fpr fs d
       = Inr (d\<lparr>uuid_drawn := Suc (uuid_drawn d), audit_events := audit_events d @ [e]\<rparr>)
     \<and> au_entity_id e = uuid_str (rc_id c) \<and> au_event_type e = ''recovery_case.decision''
     \<and> au_merchant_id e = rc_merchant_id c \<and> au_id e = uuid4 d (uuid_drawn d)"
  using assms
  by (simp add: insert_decision_audit_def insert_audit_row_def new_uuid_def get_defs audit_row_check_def
      varchar_ok_def opt_varchar_ok_def) (rule exI, intro conjI, rule refl, simp_all)

text \<open>
  \<open>logged d d' e\<close>: from \<open>d\<close> to \<open>d'\<close> one audit entry was written, under the last identifier drawn, and
  time and source of identifiers are the same.
\<close>

definition logged :: "db \<Rightarrow> db \<Rightarrow> audit_event \<Rightarrow> bool" where
  "logged d d' e \<longleftrightarrow> audit_events d' = audit_events d @ [e] \<and> uuid4 d' = uuid4 d \<and> clock d' = clock d
     \<and> uuid_drawn d < uuid_drawn d' \<and> au_id e = uuid4 d (uuid_drawn d' - 1)"

lemma record_decision_total:
  assumes "get_merchant d (rc_merchant_id c) \<noteq> None" and "unused_ids 2 d"
    and "action_scheduled_key (rc_id c) (ra_id a) \<notin> ob_idempotency_key ` set (outbox_events d)"
  shows "\<exists>r d' e. record_decision w outbox c a fs m d = Inr (r, d') \<and> obj_get r ''status'' = JStr ''processed''
    \<and> recovery_cases d' = recovery_cases d \<and> recovery_actions d' = recovery_actions d
    \<and> outbox_events d' = outbox_events d @ (if fs = ACTION_SCHEDULED
         then [action_scheduled_event (uuid4 d (uuid_drawn d)) c a m (clock d)] else [])
    \<and> logged d d' e \<and> uuid_drawn d' \<le> uuid_drawn d + 2 \<and> merchant_policies d' = merchant_policies d
    \<and> au_entity_id e = uuid_str (rc_id c) \<and> au_event_type e = ''recovery_case.decision''"
proof -
  have u: "get_outbox d (uuid4 d (uuid_drawn d)) = None" "get_audit d (uuid4 d (uuid_drawn d)) = None"
    "get_audit d (uuid4 d (Suc (uuid_drawn d))) = None"
    using assms(2) by (simp_all add: unused_ids_def numeral_2_eq_2)
  show ?thesis
  proof (cases "fs = ACTION_SCHEDULED")
    case True
    define d1 where "d1 = d\<lparr>uuid_drawn := Suc (uuid_drawn d),
     outbox_events := outbox_events d @ [action_scheduled_event (uuid4 d (uuid_drawn d)) c a m (clock d)]\<rparr>"
    have d1: "insert_action_scheduled_outbox c a m d = Inr d1"
      unfolding d1_def by (rule insert_action_scheduled_total [OF assms(1) u(1) assms(3)])
    have "get_merchant d1 (rc_merchant_id c) \<noteq> None" "get_audit d1 (uuid4 d1 (uuid_drawn d1)) = None"
      using assms(1) u by (simp_all add: d1_def get_defs)
    from insert_decision_audit_total [OF this] show ?thesis
      unfolding record_decision_def using True d1 by (fastforce simp: d1_def obj_get_def logged_def)
  next
    case False
    from insert_decision_audit_total [OF assms(1) u(2)] show ?thesis
      unfolding record_decision_def using False by (fastforce simp: obj_get_def logged_def)
  qed
qed


lemma move_and_record_total:
  assumes ok: "db_ok d" and c1: "get_case d (rc_id c) = Some c1" "rc_status c1 = ANALYSING" "rc_version c1 = rc_version c + 1"
      "rc_merchant_id c1 = rc_merchant_id c"
    and v: "integer_ok (rc_version c)" "integer_ok (rc_version c + 3)" and ids: "unused_ids 2 d"
    and key: "action_scheduled_key (rc_id c) (ra_id a) \<notin> ob_idempotency_key ` set (outbox_events d)"
  shows "\<exists>r d' c' b e. move_and_record w outbox c a d = Inr (r, d') \<and> obj_get r ''status'' = JStr ''processed''
    \<and> get_case d' (rc_id c) = Some c' \<and> rc_status c' = final_status_of (wd_final_action w) \<and> rc_version c' = rc_version c + 3
    \<and> recovery_actions d' = recovery_actions d
    \<and> (rc_status c' = ACTION_SCHEDULED \<longrightarrow>
          b \<in> set (outbox_events d') \<and> b = action_scheduled_event (ob_id b) c a (rc_next_action_at c') (ob_created_at b)
          \<and> rc_next_action_at c' = Some (next_action_time w (clock d)))
    \<and> logged d d' e \<and> uuid_drawn d' \<le> uuid_drawn d + 2 \<and> merchant_policies d' = merchant_policies d
    \<and> au_entity_id e = uuid_str (rc_id c) \<and> au_event_type e = ''recovery_case.decision''"
proof -
  have v2: "integer_ok (rc_version c + 1 + 1)" "integer_ok (rc_version c + 2 + 1)"
    using v by (simp_all add: integer_ok_def)
  obtain d4 where d4: "atomic_transition_recovery_case (rc_id c) ANALYSING (rc_version c + 1) ACTION_SELECTED d = Inr (1, d4)"
    and c2: "get_case d4 (rc_id c) = Some (c1\<lparr>rc_status := ACTION_SELECTED, rc_version := rc_version c + 1 + 1, rc_updated_at := clock d\<rparr>)"
    and f4: "d4 = d\<lparr>recovery_cases := recovery_cases d4\<rparr>" and ok4: "db_ok d4"
    by (rule transition_total [OF ok c1(1,2,3) _ v2(1), of ACTION_SELECTED]) (simp add: can_transition_def)
  have c2': "rc_status (c1\<lparr>rc_status := ACTION_SELECTED, rc_version := rc_version c + 1 + 1, rc_updated_at := clock d\<rparr>) = ACTION_SELECTED"
    "rc_version (c1\<lparr>rc_status := ACTION_SELECTED, rc_version := rc_version c + 1 + 1, rc_updated_at := clock d\<rparr>) = rc_version c + 2"
    by simp_all
  let ?fs = "final_status_of (wd_final_action w)"
  obtain d5 c3 where d5: "schedule_action w (rc_id c) (rc_version c + 2) d4 = Inr ((1, ?fs,
      if ?fs = ACTION_SCHEDULED then Some (next_action_time w (clock d4)) else None), d5)"
    and c3: "get_case d5 (rc_id c) = Some c3" "rc_status c3 = ?fs" "rc_version c3 = rc_version c + 2 + 1"
      "?fs = ACTION_SCHEDULED \<Longrightarrow> rc_next_action_at c3 = Some (next_action_time w (clock d4))"
    and f5: "d5 = d4\<lparr>recovery_cases := recovery_cases d5\<rparr>"
    using schedule_action_total [OF ok4 c2 c2' v2(2), of w] by metis
  obtain rows where f: "d5 = d\<lparr>recovery_cases := rows\<rparr>"
  proof
    show "d5 = d\<lparr>recovery_cases := recovery_cases d5\<rparr>" by (subst f5, subst f4) simp
  qed
  have clk: "clock d4 = clock d" using arg_cong [OF f4, of clock] by simp
  have m: "get_merchant d5 (rc_merchant_id c) \<noteq> None" using get_case_merchant [OF ok c1(1)] c1(4) by (simp add: f get_defs)
  have ids5: "unused_ids 2 d5" using ids by (simp add: f unused_ids_def get_defs)
  have key5: "action_scheduled_key (rc_id c) (ra_id a) \<notin> ob_idempotency_key ` set (outbox_events d5)" using key by (simp add: f)
  from record_decision_total [OF m ids5 key5, of w outbox ?fs] obtain r d' e where
    r: "record_decision w outbox c a ?fs (if ?fs = ACTION_SCHEDULED then Some (next_action_time w (clock d4)) else None) d5 = Inr (r, d')"
    "obj_get r ''status'' = JStr ''processed''" "recovery_cases d' = recovery_cases d5" "recovery_actions d' = recovery_actions d5"
    "outbox_events d' = outbox_events d5 @ (if ?fs = ACTION_SCHEDULED
         then [action_scheduled_event (uuid4 d5 (uuid_drawn d5)) c a (if ?fs = ACTION_SCHEDULED then Some (next_action_time w (clock d4)) else None) (clock d5)] else [])"
    "logged d5 d' e \<and> uuid_drawn d' \<le> uuid_drawn d5 + 2 \<and> merchant_policies d' = merchant_policies d5"
    "au_entity_id e = uuid_str (rc_id c)" "au_event_type e = ''recovery_case.decision''"
    by metis
  define b where "b = action_scheduled_event (uuid4 d5 (uuid_drawn d5)) c a (rc_next_action_at c3) (clock d5)"
  have b: "?fs = ACTION_SCHEDULED \<Longrightarrow> b \<in> set (outbox_events d')" "b = action_scheduled_event (ob_id b) c a (rc_next_action_at c3) (ob_created_at b)"
    using r(5) c3(4) by (simp_all add: b_def action_scheduled_event_def)
  have "move_and_record w outbox c a d = Inr (r, d')"
    by (simp add: move_and_record_def d4 d5 r(1))
  moreover have "get_case d' (rc_id c) = Some c3" using c3(1) r(3) by (simp add: get_defs)
  ultimately show ?thesis
    using r(2,4,6-8) c3(2-4) b clk
    by (intro exI [of _ r] exI [of _ d'] exI [of _ c3] exI [of _ b] exI [of _ e]) (simp add: f logged_def, metis)
qed


lemma get_or_create_drawn:
  assumes "get_or_create_default_policy (\<lambda>d. d) m d = Inr (p, d')"
  shows "uuid_drawn d' = uuid_drawn d \<or> uuid_drawn d' = Suc (uuid_drawn d)"
  using get_or_create_cases [OF assms] by (auto simp: new_uuid_def dest!: insert_Inr)

lemma create_action_total:
  assumes "list_all (\<lambda>a. ra_recovery_case_id a \<noteq> c) (recovery_actions d)" and "canonical_keys d"
    and "get_merchant d m \<noteq> None" and "get_case d c \<noteq> None" and "get_action d (uuid4 d (uuid_drawn d)) = None"
    and "0 < n" and "integer_ok n"
  shows "create_recovery_action_idempotent (\<lambda>d. d) m c t (recovery_action_idempotency_key c t n) n st sch d
    = (let a = new_recovery_action (uuid4 d (uuid_drawn d)) m c t st (recovery_action_idempotency_key c t n) n sch (clock d)
       in Inr ((a, True), d\<lparr>uuid_drawn := Suc (uuid_drawn d), recovery_actions := recovery_actions d @ [a]\<rparr>))"
proof -
  have other: "ra_idempotency_key a \<noteq> recovery_action_idempotency_key c t n" "ra_recovery_case_id a \<noteq> c"
    if "a \<in> set (recovery_actions d)" for a
    using that assms(1,2) by (auto simp: list_all_iff canonical_keys_def canonical_key_def idempotency_key_inj)
  then have "actions_with_key (recovery_action_idempotency_key c t n) d = []"
    by (simp add: actions_with_key_def filter_empty_conv)
  moreover have "insert_action (new_recovery_action u m c t st (recovery_action_idempotency_key c t n) n sch tm) d'
      = Inr (d'\<lparr>recovery_actions := recovery_actions d' @
          [new_recovery_action u m c t st (recovery_action_idempotency_key c t n) n sch tm]\<rparr>)"
    if "recovery_actions d' = recovery_actions d" "get_merchant d' m \<noteq> None" "get_case d' c \<noteq> None" "get_action d' u = None"
    for u tm d'
    using that other assms(6,7) idempotency_key_length [OF assms(7), of c t]
    by (auto simp: insert_action_def action_row_check_def new_recovery_action_def varchar_ok_def opt_varchar_ok_def list_ex_iff)
  ultimately show ?thesis using assms(3-5)
    by (simp add: create_recovery_action_idempotent_def one_or_none_def new_uuid_def Let_def get_defs)
qed

text \<open>
  \<open>handled d d' i c r\<close>: the run of the handler for case \<open>i\<close>, read as \<open>c\<close>, ended in \<open>d'\<close> with answer \<open>r\<close>
  and left everything its outcome needs.
\<close>

definition handled :: "db \<Rightarrow> db \<Rightarrow> uuid \<Rightarrow> recovery_case \<Rightarrow> json_obj \<Rightarrow> bool" where
  "handled d d' i c r \<longleftrightarrow>
     (\<exists>c' a b e. obj_get r ''status'' = JStr ''processed''
    \<and> get_case d' i = Some c' \<and> rc_status c' = final_status_of (ra_action_type a) \<and> rc_version c' = rc_version c + 3
    \<and> recovery_actions d' = recovery_actions d @ [a] \<and> ra_recovery_case_id a = i \<and> ra_status a = A_APPROVED
    \<and> (rc_status c' = ACTION_SCHEDULED \<longrightarrow>
          b \<in> set (outbox_events d') \<and> b = action_scheduled_event (ob_id b) c a (rc_next_action_at c') (ob_created_at b)
          \<and> rc_next_action_at c' \<noteq> None)
    \<and> e \<in> set (audit_events d') \<and> au_entity_id e = uuid_str i \<and> au_event_type e = ''recovery_case.decision'')"

text \<open>
  \<open>follow_up d d' c\<close>: what the executor will find when it comes to the action of that run: the policy
  that permitted it, and nothing drawn or written beyond the run's own rows.
\<close>

definition follow_up :: "db \<Rightarrow> db \<Rightarrow> recovery_case \<Rightarrow> bool" where
  "follow_up d d' c \<longleftrightarrow>
     (\<exists>a policy e. logged d d' e \<and> uuid_drawn d' \<le> uuid_drawn d + 4
    \<and> recovery_actions d' = recovery_actions d @ [a]
    \<and> policy \<in> set (merchant_policies d') \<and> mp_merchant_id policy = rc_merchant_id c
    \<and> (final_status_of (ra_action_type a) = ACTION_SCHEDULED \<longrightarrow>
         permitted (policy_limits_from policy) (build_policy_input d c (ra_action_type a) ANALYSING None)))"

text \<open>Without an active payment link the policy answers \<open>WAIT\<close> only to a candidate \<open>WAIT\<close> it approves.\<close>

lemma evaluate_policy_wait:
  "pd_final_action (evaluate_policy l i h) = WAIT \<Longrightarrow> pi_active_payment_link_count i \<le> 0 \<Longrightarrow>
     pi_candidate_action i = WAIT \<and> permitted l i"
  using evaluate_policy_approved_iff [of l i h] by (auto simp: evaluate_policy_def Let_def split: if_splits)

lemma first_action_permitted:
  assumes "list_all (\<lambda>a. ra_recovery_case_id a \<noteq> rc_id c) (recovery_actions d)"
    and "final_status_of (wd_final_action (decide_action env policy c d)) = ACTION_SCHEDULED"
  shows "permitted (policy_limits_from policy)
    (build_policy_input d c (wd_final_action (decide_action env policy c d)) ANALYSING None)"
proof (cases "contacts_customer (wd_final_action (decide_action env policy c d)) \<or> wd_final_approved (decide_action env policy c d)")
  case True
  then show ?thesis by (rule decide_action_guarded)
next
  case False
  define e where "e = evaluate_recovery (rc_amount_minor c) (rc_failure_category c)"
  have none: "pi_active_payment_link_count (build_policy_input d c a ANALYSING None) = 0" for a
    using no_actions_no_counts(3) assms(1) by (simp add: list_all_iff)
  have wait: "wd_final_action (decide_action env policy c d) = WAIT"
    using False assms(2)
    by (cases "wd_final_action (decide_action env policy c d)") (auto simp: contacts_customer_def final_status_of_def)
  with False have "pd_final_action (evaluate_policy (policy_limits_from policy)
      (build_policy_input d c (rd_action e) ANALYSING None) (rd_delay_hours e)) = WAIT"
    by (auto simp: decide_action_def Let_def e_def split: if_splits)
  from evaluate_policy_wait [OF this] none show ?thesis
    unfolding wait by (auto simp: build_policy_input_def Let_def)
qed

lemma select_and_schedule_total:
  assumes ok: "db_ok d" and c: "get_case d (rc_id c) = Some c1" "rc_status c1 = ANALYSING" "rc_version c1 = rc_version c + 1"
      "rc_merchant_id c1 = rc_merchant_id c"
    and v: "integer_ok (rc_version c)" "integer_ok (rc_version c + 3)"
    and none: "list_all (\<lambda>a. ra_recovery_case_id a \<noteq> rc_id c) (recovery_actions d)" and keys: "canonical_keys d"
    and rows: "unused_rows 2 d" and ids: "unused_ids 4 d"
    and events: "list_all (\<lambda>n. list_all (\<lambda>b. ob_idempotency_key b \<noteq> action_scheduled_key (rc_id c) (uuid4 d (uuid_drawn d + n)))
       (outbox_events d)) [0..<2]"
  shows "\<exists>r d'. select_and_schedule env no_worker_rivals outbox c d = Inr (r, d') \<and> handled d d' (rc_id c) c r \<and> follow_up d d' c"
proof -
  have m: "get_merchant d (rc_merchant_id c) \<noteq> None" using get_case_merchant [OF ok c(1)] c(4) by simp
  have "get_policy d (uuid4 d (uuid_drawn d)) = None" using rows by (simp add: unused_rows_def numeral_eq_Suc)
  with get_or_create_total [where rival = "\<lambda>d. d", OF ok db_step_refl m] obtain policy d2
    where p: "get_or_create_default_policy (\<lambda>d. d) (rc_merchant_id c) d = Inr (policy, d2)" by blast
  have ok2: "db_ok d2" using get_or_create_step [OF p db_step_refl] ok db_step_ok by blast
  obtain k where k: "uuid_drawn d2 = uuid_drawn d + k" "k < 2" using get_or_create_drawn [OF p] by force
  define ps where "ps = merchant_policies d2"
  have f2: "d2 = d\<lparr>merchant_policies := ps, uuid_drawn := uuid_drawn d + k\<rparr>"
    using get_or_create_frame [OF p] k(1) by (simp add: ps_def)
  define w where "w = decide_action env policy c d2"
  define a where "a = new_recovery_action (uuid4 d (uuid_drawn d + k)) (rc_merchant_id c) (rc_id c) (wd_final_action w) A_APPROVED
     (recovery_action_idempotency_key (rc_id c) (wd_final_action w) 1) 1 None (clock d)"
  define d3 where "d3 = d2\<lparr>uuid_drawn := Suc (uuid_drawn d2), recovery_actions := recovery_actions d2 @ [a]\<rparr>"
  have kk: "k = 0 \<or> k = 1" using k(2) by auto
  have "get_action d2 (uuid4 d2 (uuid_drawn d2)) = None"
    using rows kk by (auto simp: f2 unused_rows_def get_defs numeral_eq_Suc)
  moreover have c2: "get_case d2 (rc_id c) = Some c1" "get_merchant d2 (rc_merchant_id c) \<noteq> None"
    using m c by (simp_all add: f2 get_defs)
  moreover have "list_all (\<lambda>a. ra_recovery_case_id a \<noteq> rc_id c) (recovery_actions d2)" "canonical_keys d2"
    using none keys by (simp_all add: f2 canonical_keys_def)
  ultimately have cr: "create_recovery_action_idempotent (\<lambda>d. d) (rc_merchant_id c) (rc_id c) (wd_final_action w)
      (recovery_action_idempotency_key (rc_id c) (wd_final_action w) 1) 1 A_APPROVED None d2 = Inr ((a, True), d3)"
    using create_action_total [where d = d2 and c = "rc_id c" and m = "rc_merchant_id c" and n = 1]
    by (simp add: integer_ok_def Let_def a_def d3_def f2)
  have ok3: "db_ok d3"
    using create_recovery_action_idempotent_step [OF cr db_step_refl c2(1) c(4)] ok2 db_step_ok by simp
  have c3: "get_case d3 (rc_id c) = Some c1" using c2 by (simp add: d3_def get_defs)
  have ids3: "unused_ids 2 d3" using ids kk by (auto simp: unused_ids_def d3_def f2 get_defs numeral_eq_Suc)
  have "list_all (\<lambda>b. ob_idempotency_key b \<noteq> action_scheduled_key (rc_id c) (ra_id a)) (outbox_events d)"
    using events k(2) by (simp add: list_all_iff [of _ "[0..<2]"] a_def new_recovery_action_def)
  then have key3: "action_scheduled_key (rc_id c) (ra_id a) \<notin> ob_idempotency_key ` set (outbox_events d3)"
    by (auto simp: list_all_iff image_iff d3_def f2)
  from move_and_record_total [OF ok3 c3 c(2-4) v ids3 key3, of w outbox] obtain r d' c' b e where
    run: "move_and_record w outbox c a d3 = Inr (r, d')" and r: "obj_get r ''status'' = JStr ''processed''"
    and c': "get_case d' (rc_id c) = Some c'" "rc_status c' = final_status_of (wd_final_action w)" "rc_version c' = rc_version c + 3"
      "rc_status c' = ACTION_SCHEDULED \<longrightarrow> b \<in> set (outbox_events d')
        \<and> b = action_scheduled_event (ob_id b) c a (rc_next_action_at c') (ob_created_at b)
        \<and> rc_next_action_at c' = Some (next_action_time w (clock d3))"
    and acts: "recovery_actions d' = recovery_actions d3"
    and e: "logged d3 d' e" "uuid_drawn d' \<le> uuid_drawn d3 + 2" "merchant_policies d' = merchant_policies d3"
      "au_entity_id e = uuid_str (rc_id c)" "au_event_type e = ''recovery_case.decision''" by blast
  have a: "ra_action_type a = wd_final_action w" "ra_recovery_case_id a = rc_id c" "ra_status a = A_APPROVED"
    by (simp_all add: a_def new_recovery_action_def)
  have rows': "recovery_actions d' = recovery_actions d @ [a]" "e \<in> set (audit_events d')"
    using acts e(1) by (simp_all add: d3_def f2 logged_def)
  have "handled d d' (rc_id c) c r"
    unfolding handled_def
    by (rule exI [of _ c'], rule exI [of _ a], rule exI [of _ b], rule exI [of _ e]) (use r c' a rows' e(4,5) in \<open>simp, metis\<close>)
  moreover have "follow_up d d' c"
    unfolding follow_up_def
  proof (rule exI [of _ a], rule exI [of _ policy], rule exI [of _ e], intro conjI impI)
    show "logged d d' e" using e(1) by (simp add: logged_def d3_def f2)
    show "uuid_drawn d' \<le> uuid_drawn d + 4" using e(2) k(2) by (simp add: d3_def f2)
    show "policy \<in> set (merchant_policies d')" "mp_merchant_id policy = rc_merchant_id c"
      using get_or_create_cases [OF p] e(3) by (simp_all add: d3_def)
    have "list_all (\<lambda>a. ra_recovery_case_id a \<noteq> rc_id c) (recovery_actions d2)" using none by (simp add: f2)
    moreover assume "final_status_of (ra_action_type a) = ACTION_SCHEDULED"
    ultimately show "permitted (policy_limits_from policy) (build_policy_input d c (ra_action_type a) ANALYSING None)"
      using first_action_permitted [of c d2 env policy] build_policy_input_actions [of d2 d] by (simp add: a(1) w_def f2)
  qed (rule rows')
  moreover have "select_and_schedule env no_worker_rivals outbox c d = Inr (r, d')"
    using p cr run by (simp add: select_and_schedule_def w_def Let_def)
  ultimately show ?thesis by blast
qed

lemma eligible_case_handled:
  assumes ok: "db_ok d" and c: "get_case d i = Some c" "rc_status c = ELIGIBLE"
    and payload: "obj_get (ob_payload outbox) ''recovery_case_id'' = JStr (uuid_str i)"
    and room: "integer_ok (rc_version c + 3)"
    and none: "list_all (\<lambda>a. ra_recovery_case_id a \<noteq> i) (recovery_actions d)" and keys: "canonical_keys d"
    and rows: "unused_rows 2 d" and ids: "unused_ids 4 d"
    and events: "list_all (\<lambda>n. list_all (\<lambda>b. ob_idempotency_key b \<noteq> action_scheduled_key i (uuid4 d (uuid_drawn d + n)))
       (outbox_events d)) [0..<2]"
  shows "\<exists>r d'. handle_recovery_case_eligible env no_worker_rivals outbox d = Inr (r, d') \<and> handled d d' i c r \<and> follow_up d d' c"
proof -
  note i = case_table.get_key [OF c(1)]
  have "c \<in> set (recovery_cases d)" using c(1) by (auto simp: get_defs dest: get_row_SomeD)
  with ok have "integer_ok (rc_version c)" "0 < rc_version c" by (auto simp: db_ok_def cases_ok_def case_row_check_iff)
  then have v: "integer_ok (rc_version c)" "integer_ok (rc_version c + 1)" using room by (simp_all add: integer_ok_def)
  have el: "can_transition (rc_status c) ANALYSING" using c(2) by (simp add: can_transition_def)
  obtain d1 where d1: "atomic_transition_recovery_case i (rc_status c) (rc_version c) ANALYSING d = Inr (1, d1)"
    and c1: "get_case d1 i = Some (c\<lparr>rc_status := ANALYSING, rc_version := rc_version c + 1, rc_updated_at := clock d\<rparr>)"
    and f1: "d1 = d\<lparr>recovery_cases := recovery_cases d1\<rparr>" and ok1: "db_ok d1"
    by (rule transition_total [OF ok c(1) refl refl el v(2)])
  define rs where "rs = recovery_cases d1"
  have f1': "d1 = d\<lparr>recovery_cases := rs\<rparr>" using f1 unfolding rs_def .
  have el1: "select_and_schedule env no_worker_rivals outbox c d1 = Inr (r, d')
      \<Longrightarrow> handle_recovery_case_eligible env no_worker_rivals outbox d = Inr (r, d')" for r d'
    using c d1 payload by (simp add: handle_recovery_case_eligible_def analyse_case_def i)
  from select_and_schedule_total [OF ok1, of c, unfolded i, OF c1 _ _ _ v(1) room, where env = env and outbox = outbox]
  obtain r d' where "select_and_schedule env no_worker_rivals outbox c d1 = Inr (r, d')" "handled d1 d' i c r" "follow_up d1 d' c"
    using none keys rows ids events
    by (auto simp: f1' canonical_keys_def unused_rows_def unused_ids_def get_defs)
  moreover from this(2) have "handled d d' i c r" by (simp add: handled_def f1')
  moreover from calculation(3) have "follow_up d d' c"
    using build_policy_input_actions [of d1 d] by (simp add: follow_up_def logged_def f1')
  ultimately show ?thesis using el1 by blast
qed


text \<open>
  C15: liveness of the worker. An eligible case without actions, whose version has room for the
  three transitions, is carried by one run of the handler to its end, whatever the engine and the
  model decide: the run answers "processed", the case is stopped, escalated or scheduled three
  versions later, exactly one approved action was created for it, a decision is in the audit
  trail, and a scheduled action has its outbox event pending for exactly the case's next action
  time.
\<close>

theorem eligible_case_processed:
  assumes "db_ok d" and "get_case d i = Some c" "rc_status c = ELIGIBLE"
    and event: "get_outbox d (ob_id outbox) = Some outbox"
    and "obj_get (ob_payload outbox) ''recovery_case_id'' = JStr (uuid_str i)"
    and "integer_ok (rc_version c + 3)"
    and "list_all (\<lambda>a. ra_recovery_case_id a \<noteq> i) (recovery_actions d)" and "canonical_keys d"
    and "unused_rows 2 d" and "unused_ids 4 d"
    and "list_all (\<lambda>n. list_all (\<lambda>b. ob_idempotency_key b \<noteq> action_scheduled_key i (uuid4 d (uuid_drawn d + n)))
       (outbox_events d)) [0..<2]"
  shows "\<exists>r d'. process_eligible_event env no_worker_rivals (uuid_str (ob_id outbox)) d = (Inr r, d') \<and> handled d d' i c r"
  using eligible_case_handled [OF assms(1-3,5-11), of env] event
  by (fastforce simp: process_eligible_event_def in_transaction_def)

end
