(* ===== verification/Action_Executor.thy ===== *)
theory Action_Executor
  imports Policy_Service Recovery_Cases Settings
begin

text \<open>
  Execution of a scheduled action, \<^verbatim>\<open>src/app/services/action_executor.py\<close>, with the payment-link
  client of \<^verbatim>\<open>src/app/integrations/razorpay.py\<close>.

  Execution is three separate steps: a transaction that claims the action, the external call
  outside any transaction, and a transaction that records the outcome. \<open>exec_rivals\<close> is what other
  transactions commit after the claim read its rows, at the policy lookup, and during the call.

  \<open>exec_env\<close> holds the settings and what the code gets from outside the repository: \<open>http_post\<close>
  is the HTTP client (\<open>httpx.post\<close>), \<open>mock_uuid\<close> the two identifiers the mock draws, \<open>error_text\<close>
  the text of an exception whose message is not the repository's own.
\<close>

subsection \<open>The payment-link client\<close>

datatype http_result =
    HTTP_Response int string "json option"
  | HTTP_Timeout
  | HTTP_Error string
  | HTTP_Raised exc

record exec_env =
  exec_settings :: settings
  http_post :: "string \<Rightarrow> json_obj \<Rightarrow> string \<times> string \<Rightarrow> http_result"
  mock_uuid :: "nat \<Rightarrow> uuid"
  error_text :: "exc \<Rightarrow> string"

definition create_payment_link ::
  "exec_env \<Rightarrow> int \<Rightarrow> string \<Rightarrow> string \<Rightarrow> string \<Rightarrow> json_obj \<Rightarrow> json_obj res" where
  "create_payment_link env amount_minor currency description reference_id notes =
     (let s = exec_settings env in
      if razorpay_use_mock s
      then Inr [(''id'', JStr (''link_mock_'' @ take 14 (uuid_hex (mock_uuid env 0)))),
                (''short_url'', JStr (''https://rzp.io/l/mock_'' @ take 8 (uuid_hex (mock_uuid env 1)))),
                (''status'', JStr ''created''),
                (''mock'', JBool True)]
      else if razorpay_key_id s = [] \<or> razorpay_key_secret s = []
      then Inl (RazorpayError ''Razorpay credentials are not configured'')
      else
        case http_post env ''https://api.razorpay.com/v1/payment_links''
               [(''amount'', JInt amount_minor), (''currency'', JStr currency),
                (''description'', JStr description), (''reference_id'', JStr reference_id),
                (''notes'', JObj notes)]
               (razorpay_key_id s, razorpay_key_secret s) of
          HTTP_Timeout \<Rightarrow> Inl (RazorpayTimeoutError ''Razorpay request timed out'')
        | HTTP_Error msg \<Rightarrow> Inl (RazorpayError (''Razorpay HTTP error: '' @ msg))
        | HTTP_Raised e \<Rightarrow> Inl e
        | HTTP_Response status_code txt body \<Rightarrow>
            if 400 \<le> status_code
            then Inl (RazorpayError (''Razorpay error '' @ show_int status_code @ '': '' @ take 300 txt))
            else
              (case body of
                 None \<Rightarrow> Inl (ValueError ''JSONDecodeError'')
               | Some (JObj data) \<Rightarrow>
                   Inr [(''id'', obj_get data ''id''), (''short_url'', obj_get data ''short_url''),
                        (''status'', obj_get data ''status'')]
               | Some _ \<Rightarrow> Inl (OtherException ''AttributeError'')))"

subsection \<open>Claiming\<close>

definition executor_audit ::
  "recovery_case \<Rightarrow> recovery_action \<Rightarrow> string \<Rightarrow> json_obj \<Rightarrow> db \<Rightarrow> db res" where
  "executor_audit c action event_type payload d =
     (let (u, d1) = new_uuid d in
      insert_audit_row
        \<lparr>au_id = u, au_merchant_id = rc_merchant_id c, au_entity_type = ''recovery_action'',
         au_entity_id = uuid_str (ra_id action), au_event_type = event_type,
         au_actor = ''action_executor'', au_correlation_id = None,
         au_payload = [(''recovery_case_id'', JStr (uuid_str (rc_id c))),
                       (''action_type'', JStr (recovery_action_type_value (ra_action_type action)))] @ payload,
         au_created_at = clock d1\<rparr> d1)"

definition atomic_action_transition ::
  "uuid \<Rightarrow> recovery_action_status \<Rightarrow> recovery_action_status \<Rightarrow> db \<Rightarrow> nat \<times> db" where
  "atomic_action_transition action_id expected_status new_status d =
     update_actions (\<lambda>a. ra_id a = action_id \<and> ra_status a = expected_status)
       (\<lambda>a. a\<lparr>ra_status := new_status, ra_updated_at := clock d\<rparr>) d"

record exec_context =
  cx_action_id :: uuid
  cx_case_id :: uuid
  cx_merchant_id :: uuid
  cx_action_type :: recovery_action_type
  cx_idempotency_key :: string
  cx_amount_minor :: int
  cx_currency :: string
  cx_original_provider_payment_id :: "string option"

datatype claim = Claimed exec_context | Not_claimed json_obj

record exec_rivals =
  after_claim_read :: "db \<Rightarrow> db"
  before_claim_policy :: "db \<Rightarrow> db"
  during_call :: "db \<Rightarrow> db"

definition claim_decision :: "merchant_policy \<Rightarrow> recovery_case \<Rightarrow> recovery_action \<Rightarrow> db \<Rightarrow> policy_decision" where
  "claim_decision policy c action d =
     evaluate_policy (policy_limits_from policy)
       (build_policy_input d c (ra_action_type action) (rc_status c) (Some (ra_id action))) None"

definition claim_allowed :: "recovery_case \<Rightarrow> recovery_action \<Rightarrow> policy_decision \<Rightarrow> bool" where
  "claim_allowed c action decision =
     (\<not> is_terminal (rc_status c) \<and> pd_approved decision \<and> pd_final_action decision = ra_action_type action)"

text \<open>
  \<open>except InvalidStateTransition: pass\<close> around a guarded update whose row count is not looked at.
\<close>

definition try_transition ::
  "uuid \<Rightarrow> recovery_case_status \<Rightarrow> int \<Rightarrow> recovery_case_status \<Rightarrow> db \<Rightarrow> db res" where
  "try_transition i s v t d =
     (case atomic_transition_recovery_case i s v t d of
        Inr (_, d') \<Rightarrow> Inr d'
      | Inl (InvalidStateTransition _) \<Rightarrow> Inr d
      | Inl e \<Rightarrow> Inl e)"

text \<open>The branch of a refused action.\<close>

definition cancel_action :: "recovery_case \<Rightarrow> recovery_action \<Rightarrow> policy_decision \<Rightarrow> db \<Rightarrow> (claim \<times> db) res" where
  "cancel_action c action decision d =
     (let (rowcount, d1) = atomic_action_transition (ra_id action) A_APPROVED A_CANCELLED d;
          answer = Not_claimed [(''status'', JStr ''cancelled''), (''reason'', JStr (pd_reason decision))]
      in if rowcount = 1
         then res_bind (executor_audit c action ''recovery_action.cancelled''
                          [(''reason'', JStr (pd_reason decision)),
                           (''case_status'', JStr (recovery_case_status_value (rc_status c)))] d1) (\<lambda>d2.
                if \<not> is_terminal (rc_status c) \<and> rc_status c = ACTION_SCHEDULED
                then res_bind (try_transition (rc_id c) (rc_status c) (rc_version c) STOPPED d2) (\<lambda>d3.
                       Inr (answer, d3))
                else Inr (answer, d2))
         else Inr (answer, d1))"

text \<open>The branch of an allowed action.\<close>

definition take_action :: "payment option \<Rightarrow> recovery_case \<Rightarrow> recovery_action \<Rightarrow> db \<Rightarrow> (claim \<times> db) res" where
  "take_action pay c action d =
     (if ra_status action \<noteq> A_APPROVED
      then Inr (Not_claimed [(''status'', JStr ''ignored''),
             (''reason'', JStr (''action_status_is_'' @ recovery_action_status_value (ra_status action)))], d)
      else
        let (rowcount, d1) = atomic_action_transition (ra_id action) A_APPROVED A_EXECUTING d in
        if rowcount = 0
        then Inr (Not_claimed [(''status'', JStr ''ignored''), (''reason'', JStr ''action_not_claimable'')], d1)
        else
          res_bind (executor_audit c action ''recovery_action.claimed''
                      [(''case_status'', JStr (recovery_case_status_value (rc_status c)))] d1) (\<lambda>d2.
            Inr (Claimed
              \<lparr>cx_action_id = ra_id action, cx_case_id = rc_id c, cx_merchant_id = rc_merchant_id c,
               cx_action_type = ra_action_type action, cx_idempotency_key = ra_idempotency_key action,
               cx_amount_minor = rc_amount_minor c, cx_currency = rc_currency c,
               cx_original_provider_payment_id = map_option pay_provider_payment_id pay\<rparr>, d2)))"

definition claim_action :: "exec_rivals \<Rightarrow> uuid \<Rightarrow> db \<Rightarrow> (claim \<times> db) res" where
  "claim_action rv action_id d =
     (case get_action d action_id of
        None \<Rightarrow> Inr (Not_claimed [(''status'', JStr ''missing_action'')], d)
      | Some action \<Rightarrow>
          (case get_case d (ra_recovery_case_id action) of
             None \<Rightarrow> Inr (Not_claimed [(''status'', JStr ''missing_case'')], d)
           | Some c \<Rightarrow>
               (let pay = get_payment d (rc_payment_id c) in
                res_bind (get_or_create_default_policy (before_claim_policy rv) (rc_merchant_id c)
                            (after_claim_read rv d)) (\<lambda>(policy, d1).
                  let decision = claim_decision policy c action d1 in
                  if \<not> claim_allowed c action decision then cancel_action c action decision d1
                  else take_action pay c action d1))))"

subsection \<open>The external call\<close>

definition execute_external :: "exec_env \<Rightarrow> exec_context \<Rightarrow> (json \<times> json_obj) res" where
  "execute_external env cx =
     (if cx_action_type cx = CREATE_PAYMENT_LINK
      then
        let description =
              (case cx_original_provider_payment_id cx of
                 Some p \<Rightarrow> if p \<noteq> [] then ''Recovery payment for '' @ p else ''RecoverAI payment link''
               | None \<Rightarrow> ''RecoverAI payment link'');
            notes = [(''recoverai_merchant_id'', JStr (uuid_str (cx_merchant_id cx))),
                     (''recoverai_recovery_case_id'', JStr (uuid_str (cx_case_id cx))),
                     (''recoverai_recovery_action_id'', JStr (uuid_str (cx_action_id cx))),
                     (''recoverai_original_payment_reference'',
                        json_opt_str (cx_original_provider_payment_id cx))]
        in res_bind (create_payment_link env (cx_amount_minor cx) (cx_currency cx) description
                       (cx_idempotency_key cx) notes) (\<lambda>result.
             Inr (if py_truthy (obj_get result ''short_url'') then obj_get result ''short_url''
                  else obj_get result ''id'', result))
      else if cx_action_type cx = SEND_REMINDER
      then Inr (JStr (''reminder:'' @ uuid_str (cx_action_id cx)),
                [(''reminder'', JStr ''simulated_reminder_sent'')])
      else if cx_action_type cx = WAIT
      then Inr (JNull, [(''wait'', JStr ''completed'')])
      else Inl (RazorpayError (''unsupported executable action: ''
                  @ recovery_action_type_value (cx_action_type cx))))"

subsection \<open>Recording the outcome\<close>

text \<open>A value bound to a \<open>VARCHAR\<close> column: only strings and \<open>None\<close> fit.\<close>

definition varchar_value :: "json \<Rightarrow> string option res" where
  "varchar_value v =
     (case v of JNull \<Rightarrow> Inr None | JStr s \<Rightarrow> Inr (Some s) | _ \<Rightarrow> Inl (OtherException ''ProgrammingError''))"

definition finalize_success_body :: "exec_context \<Rightarrow> json \<Rightarrow> json_obj \<Rightarrow> db \<Rightarrow> (unit \<times> db) res" where
  "finalize_success_body cx provider_reference details d =
     (case (get_action d (cx_action_id cx), get_case d (cx_case_id cx)) of
        (Some action, Some c) \<Rightarrow>
          if ra_status action \<noteq> A_EXECUTING then Inr ((), d)
          else
            res_bind (varchar_value provider_reference) (\<lambda>ref.
            let action' = action\<lparr>ra_status := A_EXECUTED, ra_executed_at := Some (clock d),
                                 ra_provider_reference := ref, ra_failure_reason := None\<rparr> in
            res_bind (flush_action action' d) (\<lambda>d1.
            res_bind (if rc_status c = ACTION_SCHEDULED
                      then try_transition (rc_id c) (rc_status c) (rc_version c) WAITING d1
                      else Inr d1) (\<lambda>d2.
            res_bind (executor_audit c action' ''recovery_action.executed''
                        [(''provider_reference'', provider_reference), (''details'', JObj details)] d2) (\<lambda>d3.
              Inr ((), d3)))))
      | _ \<Rightarrow> Inr ((), d))"

definition finalize_success :: "exec_context \<Rightarrow> json \<Rightarrow> json_obj \<Rightarrow> db \<Rightarrow> unit res \<times> db" where
  "finalize_success cx provider_reference details d =
     in_transaction (finalize_success_body cx provider_reference details) d"

definition finalize_failure_body :: "exec_context \<Rightarrow> string \<Rightarrow> db \<Rightarrow> (unit \<times> db) res" where
  "finalize_failure_body cx err d =
     (case (get_action d (cx_action_id cx), get_case d (cx_case_id cx)) of
        (Some action, Some c) \<Rightarrow>
          let action' = (if ra_status action = A_EXECUTING
                         then action\<lparr>ra_status := A_FAILED, ra_failure_reason := Some (take 512 err)\<rparr>
                         else action)
          in res_bind (if ra_status action = A_EXECUTING then flush_action action' d else Inr d) (\<lambda>d1.
             res_bind (executor_audit c action' ''recovery_action.failed'' [(''error'', JStr err)] d1) (\<lambda>d2.
               Inr ((), d2)))
      | _ \<Rightarrow> Inr ((), d))"

definition finalize_failure :: "exec_context \<Rightarrow> string \<Rightarrow> db \<Rightarrow> unit res \<times> db" where
  "finalize_failure cx err d = in_transaction (finalize_failure_body cx err) d"

definition exc_str :: "exec_env \<Rightarrow> exc \<Rightarrow> string" where
  "exc_str env e = (case e of RazorpayError m \<Rightarrow> m | RazorpayTimeoutError m \<Rightarrow> m | _ \<Rightarrow> error_text env e)"

definition is_razorpay_error :: "exc \<Rightarrow> bool" where
  "is_razorpay_error e = (case e of RazorpayError _ \<Rightarrow> True | RazorpayTimeoutError _ \<Rightarrow> True | _ \<Rightarrow> False)"

text \<open>The call and the recording of its outcome, for a claimed action.\<close>

definition execute_claimed :: "exec_env \<Rightarrow> exec_rivals \<Rightarrow> exec_context \<Rightarrow> db \<Rightarrow> json_obj res \<times> db" where
  "execute_claimed env rv cx d =
     (case execute_external env cx of
        Inl e \<Rightarrow>
          (case finalize_failure cx (exc_str env e) (during_call rv d) of
             (Inl e', d') \<Rightarrow> (Inl e', d')
           | (Inr _, d') \<Rightarrow>
               if is_razorpay_error e
               then (Inr [(''status'', JStr ''failed''), (''reason'', JStr (exc_str env e))], d')
               else (Inl e, d'))
      | Inr (provider_reference, details) \<Rightarrow>
          (case finalize_success cx provider_reference details (during_call rv d) of
             (Inl e', d') \<Rightarrow> (Inl e', d')
           | (Inr _, d') \<Rightarrow>
               (Inr [(''status'', JStr ''executed''),
                     (''action_type'', JStr (recovery_action_type_value (cx_action_type cx))),
                     (''provider_reference'', provider_reference)], d')))"

definition execute_scheduled_action_from_outbox ::
  "exec_env \<Rightarrow> exec_rivals \<Rightarrow> json_obj \<Rightarrow> db \<Rightarrow> json_obj res \<times> db" where
  "execute_scheduled_action_from_outbox env rv payload d =
     (case uuid_of_json (obj_get payload ''recovery_action_id'') of
        None \<Rightarrow> (Inr [(''status'', JStr ''invalid_payload'')], d)
      | Some action_id \<Rightarrow>
          (case in_transaction (claim_action rv action_id) d of
             (Inl e, d1) \<Rightarrow> (Inl e, d1)
           | (Inr (Not_claimed answer), d1) \<Rightarrow> (Inr answer, d1)
           | (Inr (Claimed cx), d1) \<Rightarrow> execute_claimed env rv cx d1))"

subsection \<open>Every step respects the history\<close>

definition exec_rivals_ok :: "exec_rivals \<Rightarrow> bool" where
  "exec_rivals_ok rv \<longleftrightarrow>
     (\<forall>d. db_step d (after_claim_read rv d) \<and> db_step d (before_claim_policy rv d) \<and> db_step d (during_call rv d))"

lemma action_row_checkD:
  "action_row_check a = Inr u \<Longrightarrow> varchar_ok 128 (ra_idempotency_key a) \<and> integer_ok (ra_attempt_number a)
     \<and> opt_varchar_ok 128 (ra_provider_reference a) \<and> opt_varchar_ok 512 (ra_failure_reason a)
     \<and> 0 < ra_attempt_number a"
  by (simp add: action_row_check_def not_le split: if_splits)

lemma action_evolves_status:
  assumes "action_step (ra_status a) s"
  shows "action_evolves a (a\<lparr>ra_status := s, ra_updated_at := t\<rparr>)"
    "action_evolves a (a\<lparr>ra_status := s, ra_executed_at := x, ra_provider_reference := p, ra_failure_reason := f,
       ra_updated_at := t\<rparr>)"
    "action_evolves a (a\<lparr>ra_status := s, ra_failure_reason := f, ra_updated_at := t\<rparr>)"
  using assms action_machine.final_stuck by (auto simp: action_evolves_def)

lemma atomic_action_transition_step:
  assumes "atomic_action_transition i s t d = (n, d')" and "action_step s t"
  shows "db_step d d'"
proof -
  from assms(1) have d': "d' = d\<lparr>recovery_actions := upd_where (\<lambda>a. ra_id a = i \<and> ra_status a = s)
      (\<lambda>a. a\<lparr>ra_status := t, ra_updated_at := clock d\<rparr>) (recovery_actions d)\<rparr>"
    by (simp add: atomic_action_transition_def update_actions_def)
  show ?thesis unfolding d'
  proof (rule modify_actions_step)
    fix a assume "db_ok d" "a \<in> set (recovery_actions d)" "ra_id a = i \<and> ra_status a = s"
    then show "action_evolves a (a\<lparr>ra_status := t, ra_updated_at := clock d\<rparr>)
        \<and> action_row_check (a\<lparr>ra_status := t, ra_updated_at := clock d\<rparr>) = Inr ()"
      using assms(2) action_evolves_status(1) [of a t] by (auto simp: db_ok_def actions_ok_def)
  qed
qed

lemma executor_audit_step: "executor_audit c a e p d = Inr d' \<Longrightarrow> db_step d d'"
  unfolding executor_audit_def Let_def case_prod_beta
  by (rule db_step_trans [OF new_uuid_step insert_audit_row_step])

lemma try_transition_step:
  assumes "try_transition i s v t d = Inr d'" and "s \<noteq> t"
  shows "db_step d d'"
proof (cases "atomic_transition_recovery_case i s v t d")
  case (Inl e)
  with assms(1) show ?thesis by (cases e) (simp_all add: try_transition_def)
next
  case (Inr x)
  with assms show ?thesis by (cases x) (auto simp: try_transition_def intro: atomic_transition_step)
qed

lemma keeps_executor_audit:
  assumes "db_step d d1" and "\<And>d2. executor_audit c a e p d1 = Inr d2 \<Longrightarrow> db_step d d2 \<Longrightarrow> keeps d (f d2)"
  shows "keeps d (res_bind (executor_audit c a e p d1) f)"
  by (rule keeps_bind_db [OF executor_audit_step assms(1)]) (simp_all add: assms(2))

lemma keeps_try_transition:
  assumes "db_step d d1" and "s \<noteq> t" and "\<And>d2. try_transition i s v t d1 = Inr d2 \<Longrightarrow> db_step d d2 \<Longrightarrow> keeps d (f d2)"
  shows "keeps d (res_bind (try_transition i s v t d1) f)"
  by (rule keeps_bind_db [OF try_transition_step [OF _ assms(2)] assms(1)]) (simp_all add: assms(3))

lemma keeps_flush_action:
  assumes "get_action d (ra_id b) = Some a" and "action_evolves a (b\<lparr>ra_updated_at := clock d\<rparr>)"
    and "\<And>d2. flush_action b d = Inr d2 \<Longrightarrow> db_step d d2 \<Longrightarrow> keeps d (f d2)"
  shows "keeps d (res_bind (flush_action b d) f)"
  by (rule keeps_bind_db [OF flush_action_step [OF _ assms(1,2)] db_step_refl]) (simp_all add: assms(3))

lemma res_bind_if: "res_bind (if b then m else m') f = (if b then res_bind m f else res_bind m' f)"
  by simp

lemma cancel_action_step: "keeps d (cancel_action c a p d)"
proof -
  obtain n d1 where t: "atomic_action_transition (ra_id a) A_APPROVED A_CANCELLED d = (n, d1)" by fastforce
  have d1: "db_step d d1" by (rule atomic_action_transition_step [OF t]) (simp add: action_step_def)
  show ?thesis
    unfolding cancel_action_def t Let_def prod.case
    by (auto simp: keeps_return d1 intro!: keeps_executor_audit keeps_try_transition)
qed

lemma take_action_step: "keeps d (take_action pay c a d)"
proof -
  obtain n d1 where t: "atomic_action_transition (ra_id a) A_APPROVED A_EXECUTING d = (n, d1)" by fastforce
  have d1: "db_step d d1" by (rule atomic_action_transition_step [OF t]) (simp add: action_step_def)
  show ?thesis
    unfolding take_action_def t Let_def prod.case
    by (auto simp: keeps_return d1 intro!: keeps_executor_audit)
qed

lemma claim_action_step:
  assumes "exec_rivals_ok rv"
  shows "keeps d (claim_action rv i d)"
proof -
  have r: "db_step d (after_claim_read rv d)" "db_step x (before_claim_policy rv x)" for x
    using assms by (simp_all add: exec_rivals_ok_def)
  have "keeps d (res_bind (get_or_create_default_policy (before_claim_policy rv) m (after_claim_read rv d)) f)"
    if "\<And>p d1. keeps d1 (f (p, d1))" for m and f :: "merchant_policy \<times> db \<Rightarrow> (claim \<times> db) res"
  proof (rule keeps_bind [OF _ r(1)])
    show "keeps (after_claim_read rv d) (get_or_create_default_policy (before_claim_policy rv) m (after_claim_read rv d))"
      using get_or_create_step r(2) by (blast intro: keepsI)
  qed (rule keeps_trans [OF _ that])
  then show ?thesis
    by (auto simp: claim_action_def keeps_return Let_def cancel_action_step take_action_step split: option.split)
qed

lemma finalize_success_step: "keeps d (finalize_success_body cx p dt d)"
proof (cases "get_action d (cx_action_id cx)")
  case a: (Some a)
  then have i: "ra_id a = cx_action_id cx" by (rule action_table.get_key)
  show ?thesis
  proof (cases "get_case d (cx_case_id cx)")
    case c: (Some c)
    show ?thesis
    proof (cases "varchar_value p")
      case r: (Inr r)
      show ?thesis
        unfolding finalize_success_body_def a c prod.case option.case r
        by (auto simp: keeps_return Let_def res_bind_if a i action_step_def
            intro!: keeps_executor_audit keeps_try_transition keeps_flush_action [where a = a]
              action_evolves_status(2))
    qed (simp add: finalize_success_body_def a c keeps_return)
  qed (simp add: finalize_success_body_def a keeps_return)
qed (simp add: finalize_success_body_def keeps_return)

lemma finalize_failure_step: "keeps d (finalize_failure_body cx err d)"
proof (cases "get_action d (cx_action_id cx)")
  case a: (Some a)
  then have i: "ra_id a = cx_action_id cx" by (rule action_table.get_key)
  show ?thesis
  proof (cases "get_case d (cx_case_id cx)")
    case c: (Some c)
    show ?thesis
      unfolding finalize_failure_body_def a c prod.case option.case
      by (auto simp: keeps_return Let_def res_bind_if a i action_step_def
          intro!: keeps_executor_audit keeps_flush_action [where a = a] action_evolves_status(3))
  qed (simp add: finalize_failure_body_def a keeps_return)
qed (simp add: finalize_failure_body_def keeps_return)

lemma execute_claimed_step:
  assumes "exec_rivals_ok rv"
  shows "db_step d (snd (execute_claimed env rv cx d))"
proof -
  have r: "db_step d (during_call rv d)" using assms by (simp add: exec_rivals_ok_def)
  have "db_step d (snd (finalize_success cx p dt (during_call rv d)))"
    "db_step d (snd (finalize_failure cx err (during_call rv d)))" for p dt err
    unfolding finalize_success_def finalize_failure_def
    using in_transaction_step finalize_success_step finalize_failure_step db_step_trans [OF r] by blast+
  then show ?thesis
    unfolding execute_claimed_def
    by (auto split: sum.splits prod.splits) (metis snd_conv)+
qed

lemma execute_scheduled_action_step:
  assumes "exec_rivals_ok rv"
  shows "db_step d (snd (execute_scheduled_action_from_outbox env rv payload d))"
proof (cases "uuid_of_json (obj_get payload ''recovery_action_id'')")
  case (Some i)
  obtain r d1 where c: "in_transaction (claim_action rv i) d = (r, d1)" by fastforce
  have d1: "db_step d d1" using in_transaction_step [of d "claim_action rv i"] claim_action_step [OF assms] c by simp
  with Some c show ?thesis
    using db_step_trans [OF d1 execute_claimed_step [OF assms]]
    by (auto simp: execute_scheduled_action_from_outbox_def split: sum.split claim.split)
qed (simp add: execute_scheduled_action_from_outbox_def)

subsection \<open>What a claim means\<close>

lemma cancel_action_not_claimed: "cancel_action c a p d \<noteq> Inr (Claimed cx, d')"
  by (auto simp: cancel_action_def Let_def case_prod_beta split: if_splits)

lemma atomic_action_transition_result:
  assumes "db_ok d" and "atomic_action_transition i s t d = (n, d')"
  shows "n = (case get_action d i of None \<Rightarrow> 0 | Some a \<Rightarrow> if ra_status a = s then 1 else 0)"
    and "n \<noteq> 0 \<Longrightarrow> \<exists>a. get_action d i = Some a \<and> ra_status a = s
           \<and> get_action d' i = Some (a\<lparr>ra_status := t, ra_updated_at := clock d\<rparr>)"
proof -
  let ?p = "\<lambda>a. ra_id a = i \<and> ra_status a = s"
  let ?f = "\<lambda>a. a\<lparr>ra_status := t, ra_updated_at := clock d\<rparr>"
  have n: "n = count_where ?p (recovery_actions d)" and u: "update_actions ?p ?f d = (n, d')"
    using assms(2) by (simp_all add: atomic_action_transition_def update_actions_def)
  show eq: "n = (case get_action d i of None \<Rightarrow> 0 | Some a \<Rightarrow> if ra_status a = s then 1 else 0)"
    using count_where_key [OF db_ok_distinct(4) [OF assms(1)], of i "\<lambda>a. ra_status a = s"] n
    by (simp add: get_defs)
  show "\<exists>a. get_action d i = Some a \<and> ra_status a = s \<and> get_action d' i = Some (?f a)" if "n \<noteq> 0"
  proof -
    from that eq obtain a where a: "get_action d i = Some a" "ra_status a = s"
      by (auto split: option.splits if_splits)
    moreover have "get_action d' i = map_option (\<lambda>r. if ?p r then ?f r else r) (get_action d i)"
      using action_table.get_modify [of ?f ?p d i] u by simp
    ultimately show ?thesis using action_table.get_key [OF a(1)] by simp
  qed
qed

lemma executor_audit_frame:
  "executor_audit c a e p d = Inr d' \<Longrightarrow> get_action d' i = get_action d i \<and> get_case d' i = get_case d i
     \<and> recovery_actions d' = recovery_actions d \<and> recovery_cases d' = recovery_cases d
     \<and> payments d' = payments d \<and> outbox_events d' = outbox_events d"
  by (auto simp: executor_audit_def Let_def case_prod_beta new_uuid_def get_defs dest!: insert_Inr(7))

lemma take_action_claimed:
  assumes "take_action pay c a d = Inr (Claimed cx, d')" and "db_ok d"
  shows "ra_status a = A_APPROVED"
    "\<exists>b. get_action d (ra_id a) = Some b \<and> ra_status b = A_APPROVED
       \<and> get_action d' (ra_id a) = Some (b\<lparr>ra_status := A_EXECUTING, ra_updated_at := clock d\<rparr>)"
    "cx_action_id cx = ra_id a \<and> cx_case_id cx = rc_id c \<and> cx_merchant_id cx = rc_merchant_id c
       \<and> cx_action_type cx = ra_action_type a \<and> cx_idempotency_key cx = ra_idempotency_key a
       \<and> cx_amount_minor cx = rc_amount_minor c \<and> cx_currency cx = rc_currency c
       \<and> cx_original_provider_payment_id cx = map_option pay_provider_payment_id pay"
proof -
  obtain n d1 where t: "atomic_action_transition (ra_id a) A_APPROVED A_EXECUTING d = (n, d1)" by fastforce
  from assms(1) show "ra_status a = A_APPROVED" by (auto simp: take_action_def split: if_splits)
  with assms(1) t have "n \<noteq> 0" and aud: "executor_audit c a ''recovery_action.claimed''
        [(''case_status'', JStr (recovery_case_status_value (rc_status c)))] d1 = Inr d'"
    by (auto simp: take_action_def split: if_splits)
  then show "\<exists>b. get_action d (ra_id a) = Some b \<and> ra_status b = A_APPROVED
       \<and> get_action d' (ra_id a) = Some (b\<lparr>ra_status := A_EXECUTING, ra_updated_at := clock d\<rparr>)"
    using atomic_action_transition_result(2) [OF assms(2) t] executor_audit_frame [OF aud] by auto
  show "cx_action_id cx = ra_id a \<and> cx_case_id cx = rc_id c \<and> cx_merchant_id cx = rc_merchant_id c
       \<and> cx_action_type cx = ra_action_type a \<and> cx_idempotency_key cx = ra_idempotency_key a
       \<and> cx_amount_minor cx = rc_amount_minor c \<and> cx_currency cx = rc_currency c
       \<and> cx_original_provider_payment_id cx = map_option pay_provider_payment_id pay"
    using assms(1) by (auto simp: take_action_def t split: if_splits)
qed

lemma claim_action_Claimed:
  assumes "claim_action rv i d = Inr (Claimed cx, d')"
  obtains a c policy d1 where "get_action d i = Some a" and "get_case d (ra_recovery_case_id a) = Some c"
    and "get_or_create_default_policy (before_claim_policy rv) (rc_merchant_id c) (after_claim_read rv d) = Inr (policy, d1)"
    and "claim_allowed c a (claim_decision policy c a d1)"
    and "take_action (get_payment d (rc_payment_id c)) c a d1 = Inr (Claimed cx, d')"
  using assms cancel_action_not_claimed
  by (auto simp: claim_action_def Let_def split: option.splits if_splits)

text \<open>
  C3: the executor claims an action only if, when it read them, the action was approved and its case
  not terminal, and the policy of the merchant permits the action against the counts read in the
  claiming transaction, the action itself excluded. The claimed action is then \<open>EXECUTING\<close>, and
  the context of the external call is that action's own: its key, its case's amount and currency.
\<close>

theorem claim_requires_permission:
  assumes "claim_action rv i d = Inr (Claimed cx, d')" and "db_ok d" and "exec_rivals_ok rv"
  shows "\<exists>a c policy d1. get_action d i = Some a \<and> ra_status a = A_APPROVED
      \<and> get_case d (ra_recovery_case_id a) = Some c \<and> \<not> is_terminal (rc_status c)
      \<and> mp_merchant_id policy = rc_merchant_id c \<and> policy \<in> set (merchant_policies d1) \<and> db_evolves d d1
      \<and> permitted (policy_limits_from policy)
          (build_policy_input d1 c (ra_action_type a) (rc_status c) (Some i))
      \<and> (\<exists>b. get_action d' i = Some b \<and> ra_status b = A_EXECUTING)
      \<and> cx_action_id cx = i \<and> cx_idempotency_key cx = ra_idempotency_key a
      \<and> cx_action_type cx = ra_action_type a \<and> cx_case_id cx = rc_id c
      \<and> cx_amount_minor cx = rc_amount_minor c \<and> cx_currency cx = rc_currency c"
proof -
  from assms(1) obtain a c policy d1 where g: "get_action d i = Some a" "get_case d (ra_recovery_case_id a) = Some c"
    and p: "get_or_create_default_policy (before_claim_policy rv) (rc_merchant_id c) (after_claim_read rv d) = Inr (policy, d1)"
    and al: "claim_allowed c a (claim_decision policy c a d1)"
    and t: "take_action (get_payment d (rc_payment_id c)) c a d1 = Inr (Claimed cx, d')"
    by (rule claim_action_Claimed)
  have i: "ra_id a = i" using action_table.get_key [OF g(1)] .
  have "db_step d d1"
    using get_or_create_step [OF p] assms(3) db_step_trans unfolding exec_rivals_ok_def by blast
  then have d1: "db_ok d1" "db_evolves d d1" using assms(2) db_step_ok db_step_evolves by blast+
  show ?thesis
    using g al d1 get_or_create_cases [OF p] take_action_claimed [OF t d1(1)] i
    by (intro exI [of _ a] exI [of _ c] exI [of _ policy] exI [of _ d1])
      (auto simp: claim_allowed_def claim_decision_def evaluate_policy_approved_iff)
qed


end
