(* ===== verification/Executor_Facts.thy ===== *)
theory Executor_Facts
  imports Action_Executor
begin

text \<open>
  What becomes of an executed action: how the outcome of the external call is recorded, and that
  the action of a closed case is never executed.
\<close>

subsection \<open>Total forms of the statements\<close>

lemma executor_audit_total:
  assumes "get_merchant d (rc_merchant_id c) \<noteq> None" and "get_audit d (uuid4 d (uuid_drawn d)) = None"
    and "length ev \<le> 128"
  shows "\<exists>e. executor_audit c a ev p d = Inr (d\<lparr>uuid_drawn := Suc (uuid_drawn d), audit_events := audit_events d @ [e]\<rparr>)
     \<and> au_entity_id e = uuid_str (ra_id a) \<and> au_event_type e = ev \<and> au_id e = uuid4 d (uuid_drawn d)"
  using assms
  by (simp add: executor_audit_def insert_audit_row_def new_uuid_def get_defs audit_row_check_def
      varchar_ok_def opt_varchar_ok_def) (rule exI, intro conjI, rule refl, simp_all)

lemma flush_action_get:
  assumes "flush_action b d = Inr d'" and "get_action d (ra_id b) = Some a"
  shows "get_action d' (ra_id b) = Some (b\<lparr>ra_updated_at := clock d\<rparr>)"
    and "d' = d\<lparr>recovery_actions := recovery_actions d'\<rparr>"
proof -
  have d': "d' = d\<lparr>recovery_actions := upd_where (\<lambda>q. ra_id q = ra_id b) (\<lambda>_. b\<lparr>ra_updated_at := clock d\<rparr>) (recovery_actions d)\<rparr>"
    using assms(1) by (auto simp: flush_action_def)
  have "get_row ra_id (ra_id b) (upd_where (\<lambda>q. ra_id q = ra_id b) (\<lambda>_. b\<lparr>ra_updated_at := clock d\<rparr>) xs)
      = map_option (\<lambda>_. b\<lparr>ra_updated_at := clock d\<rparr>) (get_row ra_id (ra_id b) xs)" for xs
    by (induction xs) auto
  with assms(2) show "get_action d' (ra_id b) = Some (b\<lparr>ra_updated_at := clock d\<rparr>)" by (simp add: d' get_defs)
  show "d' = d\<lparr>recovery_actions := recovery_actions d'\<rparr>" by (simp add: d')
qed

text \<open>Whether the provider's reference can be stored in its column.\<close>

definition storable_reference :: "json \<Rightarrow> bool" where
  "storable_reference v =
     (case v of JNull \<Rightarrow> True | JStr s \<Rightarrow> varchar_ok 128 s | _ \<Rightarrow> False)"

lemma storable_reference_iff:
  "storable_reference v \<longleftrightarrow> (\<exists>r. varchar_value v = Inr r \<and> opt_varchar_ok 128 r)"
  by (cases v) (auto simp: storable_reference_def varchar_value_def opt_varchar_ok_def)

lemma executed_row_check:
  assumes "action_row_check a = Inr ()"
  shows "action_row_check (a\<lparr>ra_status := s, ra_executed_at := t, ra_provider_reference := r, ra_failure_reason := None\<rparr>)
      = (if opt_varchar_ok 128 r then Inr () else Inl DataError)"
    and "action_row_check (a\<lparr>ra_status := s, ra_failure_reason := Some (take 512 err)\<rparr>) = Inr ()"
  using assms by (auto simp: action_row_check_def opt_varchar_ok_def varchar_ok_def split: if_splits)


subsection \<open>The outcome of a call\<close>

text \<open>\<open>executing cx a c d\<close>: the claimed action and its case as the recording transaction finds them.\<close>

definition executing :: "exec_context \<Rightarrow> recovery_action \<Rightarrow> recovery_case \<Rightarrow> db \<Rightarrow> bool" where
  "executing cx a c d \<longleftrightarrow> db_ok d \<and> get_action d (cx_action_id cx) = Some a \<and> ra_status a = A_EXECUTING
     \<and> get_case d (cx_case_id cx) = Some c \<and> integer_ok (rc_version c + 1)
     \<and> get_audit d (uuid4 d (uuid_drawn d)) = None"

lemma executingD:
  assumes "executing cx a c d"
  shows "action_row_check a = Inr ()" "get_merchant d (rc_merchant_id c) \<noteq> None" "ra_id a = cx_action_id cx"
    "rc_id c = cx_case_id cx"
proof -
  have "a \<in> set (recovery_actions d)" "c \<in> set (recovery_cases d)"
    using assms by (auto simp: executing_def get_defs dest: get_row_SomeD)
  with assms show "action_row_check a = Inr ()" "get_merchant d (rc_merchant_id c) \<noteq> None"
    by (auto simp: executing_def db_ok_def actions_ok_def cases_ok_def get_defs get_row_None_iff)
  show "ra_id a = cx_action_id cx" "rc_id c = cx_case_id cx"
    using assms action_table.get_key case_table.get_key by (auto simp: executing_def)
qed

lemma finalize_failure_total:
  assumes x: "executing cx a c d"
  shows "\<exists>d' e. finalize_failure cx err d = (Inr (), d')
    \<and> get_action d' (cx_action_id cx) = Some (a\<lparr>ra_status := A_FAILED, ra_failure_reason := Some (take 512 err), ra_updated_at := clock d\<rparr>)
    \<and> recovery_cases d' = recovery_cases d \<and> audit_events d' = audit_events d @ [e]
    \<and> au_event_type e = ''recovery_action.failed''"
proof -
  note k = executingD [OF x]
  define b where "b = a\<lparr>ra_status := A_FAILED, ra_failure_reason := Some (take 512 err)\<rparr>"
  have b: "ra_id b = ra_id a" by (simp add: b_def)
  obtain d1 where f: "flush_action b d = Inr d1"
    using executed_row_check(2) [OF k(1)] by (simp add: flush_action_def b_def)
  have ga: "get_action d (ra_id b) = Some a" using x k(3) by (simp add: b executing_def)
  note d1 = flush_action_get [OF f ga]
  define rs where "rs = recovery_actions d1"
  have d1': "d1 = d\<lparr>recovery_actions := rs\<rparr>" using d1(2) by (simp add: rs_def)
  have "get_merchant d1 (rc_merchant_id c) \<noteq> None" "get_audit d1 (uuid4 d1 (uuid_drawn d1)) = None"
    using k(2) x by (simp_all add: d1' get_defs executing_def)
  from executor_audit_total [OF this, of "''recovery_action.failed''" b "[(''error'', JStr err)]"]
  obtain e where e: "executor_audit c b ''recovery_action.failed'' [(''error'', JStr err)] d1
      = Inr (d1\<lparr>uuid_drawn := Suc (uuid_drawn d1), audit_events := audit_events d1 @ [e]\<rparr>)"
    "au_event_type e = ''recovery_action.failed''" by auto
  have "finalize_failure_body cx err d = Inr ((), d1\<lparr>uuid_drawn := Suc (uuid_drawn d1), audit_events := audit_events d1 @ [e]\<rparr>)"
    using x f e(1) by (simp add: finalize_failure_body_def executing_def b_def)
  moreover have "get_action (d1\<lparr>uuid_drawn := Suc (uuid_drawn d1), audit_events := audit_events d1 @ [e]\<rparr>) (cx_action_id cx)
      = Some (b\<lparr>ra_updated_at := clock d\<rparr>)"
    using d1(1) k(3) b by (simp add: get_defs)
  ultimately show ?thesis
    using e(2) by (simp add: finalize_failure_def in_transaction_def) (simp add: d1' b_def)
qed

text \<open>The case after a successful call: a scheduled case waits for the customer.\<close>

definition case_after :: "recovery_case \<Rightarrow> int \<Rightarrow> recovery_case" where
  "case_after c t = (if rc_status c = ACTION_SCHEDULED
     then c\<lparr>rc_status := WAITING, rc_version := rc_version c + 1, rc_updated_at := t\<rparr> else c)"

lemma try_waiting_total:
  assumes "db_ok d" and "get_case d i = Some c" and "integer_ok (rc_version c + 1)"
  shows "\<exists>d'. (if rc_status c = ACTION_SCHEDULED then try_transition i (rc_status c) (rc_version c) WAITING d else Inr d) = Inr d'
     \<and> get_case d' i = Some (case_after c (clock d)) \<and> d' = d\<lparr>recovery_cases := recovery_cases d'\<rparr>"
proof (cases "rc_status c = ACTION_SCHEDULED")
  case True
  then have "can_transition (rc_status c) WAITING" by (simp add: can_transition_def)
  with atomic_transition_total [OF _ assms(3)] obtain n d'
    where tr: "atomic_transition_recovery_case i (rc_status c) (rc_version c) WAITING d = Inr (n, d')" by blast
  have "n \<noteq> 0" using atomic_transition_Inr(1) [OF assms(1) tr] assms(2) by simp
  with atomic_transition_Inr(3) [OF assms(1) tr] atomic_transition_frame [OF tr] tr True assms(2) show ?thesis
    by (auto simp: try_transition_def case_after_def)
qed (use assms(2) in \<open>simp add: case_after_def\<close>)


lemma finalize_success_total:
  assumes x: "executing cx a c d" and ref: "varchar_value ref = Inr r" "opt_varchar_ok 128 r"
  shows "\<exists>d' e. finalize_success cx ref details d = (Inr (), d')
    \<and> get_action d' (cx_action_id cx) = Some (a\<lparr>ra_status := A_EXECUTED, ra_executed_at := Some (clock d),
         ra_provider_reference := r, ra_failure_reason := None, ra_updated_at := clock d\<rparr>)
    \<and> get_case d' (cx_case_id cx) = Some (case_after c (clock d)) \<and> audit_events d' = audit_events d @ [e]
    \<and> au_event_type e = ''recovery_action.executed''"
proof -
  note k = executingD [OF x]
  define b where "b = a\<lparr>ra_status := A_EXECUTED, ra_executed_at := Some (clock d), ra_provider_reference := r, ra_failure_reason := None\<rparr>"
  have b: "ra_id b = ra_id a" by (simp add: b_def)
  obtain d1 where f: "flush_action b d = Inr d1"
    using executed_row_check(1) [OF k(1)] ref(2) by (simp add: flush_action_def b_def)
  have ga: "get_action d (ra_id b) = Some a" using x k(3) by (simp add: b executing_def)
  note d1 = flush_action_get [OF f ga]
  have "action_evolves a (b\<lparr>ra_updated_at := clock d\<rparr>)"
    using x unfolding b_def by (intro action_evolves_status(2)) (simp add: executing_def action_step_def)
  then have ok1: "db_ok d1" using flush_action_step [OF f ga] x db_step_ok by (auto simp: executing_def)
  define rs where "rs = recovery_actions d1"
  have d1': "d1 = d\<lparr>recovery_actions := rs\<rparr>" using d1(2) by (simp add: rs_def)
  have c1: "get_case d1 (rc_id c) = Some c" "integer_ok (rc_version c + 1)"
    using x k(4) by (simp_all add: d1' get_defs executing_def)
  from try_waiting_total [OF ok1 c1] obtain d2
    where d2: "(if rc_status c = ACTION_SCHEDULED then try_transition (rc_id c) (rc_status c) (rc_version c) WAITING d1 else Inr d1) = Inr d2"
      "get_case d2 (rc_id c) = Some (case_after c (clock d1))" "d2 = d1\<lparr>recovery_cases := recovery_cases d2\<rparr>" by blast
  define cs where "cs = recovery_cases d2"
  have d2': "d2 = d\<lparr>recovery_actions := rs, recovery_cases := cs\<rparr>" using d2(3) by (simp add: cs_def d1')
  have "get_merchant d2 (rc_merchant_id c) \<noteq> None" "get_audit d2 (uuid4 d2 (uuid_drawn d2)) = None"
    using k(2) x by (simp_all add: d2' get_defs executing_def)
  from executor_audit_total [OF this, of "''recovery_action.executed''" b "[(''provider_reference'', ref), (''details'', JObj details)]"]
  obtain e where e: "executor_audit c b ''recovery_action.executed'' [(''provider_reference'', ref), (''details'', JObj details)] d2
      = Inr (d2\<lparr>uuid_drawn := Suc (uuid_drawn d2), audit_events := audit_events d2 @ [e]\<rparr>)"
    "au_event_type e = ''recovery_action.executed''" by auto
  define d3 where "d3 = d2\<lparr>uuid_drawn := Suc (uuid_drawn d2), audit_events := audit_events d2 @ [e]\<rparr>"
  have "finalize_success_body cx ref details d = Inr ((), d3)"
    using x f e(1) d2(1) ref(1) by (simp add: finalize_success_body_def executing_def b_def d3_def Let_def)
  moreover have "get_action d3 (cx_action_id cx) = Some (b\<lparr>ra_updated_at := clock d\<rparr>)"
    using d1(1) k(3) b by (simp add: d3_def d2' get_defs rs_def)
  moreover have "get_case d3 (cx_case_id cx) = Some (case_after c (clock d))"
    using d2(2) k(4) by (simp add: d3_def get_defs d1')
  ultimately show ?thesis
    using e(2) by (simp add: finalize_success_def in_transaction_def) (simp add: b_def d3_def d2')
qed

lemma finalize_success_unstorable:
  assumes x: "executing cx a c d" and ref: "\<not> storable_reference ref"
  shows "\<exists>e. finalize_success cx ref details d = (Inl e, d)"
proof (cases "varchar_value ref")
  case (Inl e)
  with x show ?thesis by (simp add: finalize_success_def in_transaction_def finalize_success_body_def executing_def)
next
  case (Inr r)
  with ref have "\<not> opt_varchar_ok 128 r" by (simp add: storable_reference_iff)
  with Inr x executed_row_check(1) [OF executingD(1) [OF x]] show ?thesis
    by (simp add: finalize_success_def in_transaction_def finalize_success_body_def executing_def flush_action_def Let_def)
qed

lemma execution_outcome:
  assumes "executing cx a c (during_call rv d)"
  shows "case execute_external env cx of
      Inl e \<Rightarrow> \<exists>d' b. execute_claimed env rv cx d
            = (if is_razorpay_error e then Inr [(''status'', JStr ''failed''), (''reason'', JStr (exc_str env e))] else Inl e, d')
          \<and> get_action d' (cx_action_id cx) = Some b \<and> ra_status b = A_FAILED
          \<and> ra_failure_reason b = Some (take 512 (exc_str env e)) \<and> get_case d' (cx_case_id cx) = Some c
    | Inr (ref, details) \<Rightarrow>
        if storable_reference ref
        then \<exists>d' b. execute_claimed env rv cx d
              = (Inr [(''status'', JStr ''executed''), (''action_type'', JStr (recovery_action_type_value (cx_action_type cx))),
                      (''provider_reference'', ref)], d')
            \<and> get_action d' (cx_action_id cx) = Some b \<and> ra_status b = A_EXECUTED
            \<and> json_opt_str (ra_provider_reference b) = ref \<and> ra_executed_at b = Some (clock (during_call rv d))
            \<and> get_case d' (cx_case_id cx) = Some (case_after c (clock (during_call rv d)))
        else \<exists>e. execute_claimed env rv cx d = (Inl e, during_call rv d)"
proof (cases "execute_external env cx")
  case (Inl e)
  from finalize_failure_total [OF assms, of "exc_str env e"] obtain d' where
    f: "finalize_failure cx (exc_str env e) (during_call rv d) = (Inr (), d')" "recovery_cases d' = recovery_cases (during_call rv d)"
    "get_action d' (cx_action_id cx) = Some (a\<lparr>ra_status := A_FAILED, ra_failure_reason := Some (take 512 (exc_str env e)),
       ra_updated_at := clock (during_call rv d)\<rparr>)" by blast
  have "get_case d' (cx_case_id cx) = Some c" using f(2) assms by (simp add: get_defs executing_def)
  with f Inl show ?thesis by (simp add: execute_claimed_def)
next
  case (Inr y)
  obtain ref details where y: "y = (ref, details)" by (cases y)
  show ?thesis
  proof (cases "storable_reference ref")
    case True
    then obtain r where r: "varchar_value ref = Inr r" "opt_varchar_ok 128 r" by (auto simp: storable_reference_iff)
    then have "json_opt_str r = ref" by (cases ref) (auto simp: varchar_value_def json_opt_str_def)
    with finalize_success_total [OF assms r, of details] Inr y True show ?thesis
      by (auto simp: execute_claimed_def)
  next
    case False
    with finalize_success_unstorable [OF assms, of ref details] Inr y show ?thesis by (auto simp: execute_claimed_def)
  qed
qed

text \<open>
  C13: what becomes of the external call. A failed call leaves the action \<open>FAILED\<close> with the reason
  (cut to its column) and the case as it was; Razorpay's own errors are answered, any other is
  raised again for the task to handle. A successful call with a reference that fits its column
  leaves the action \<open>EXECUTED\<close> with reference and time, and a scheduled case \<open>WAITING\<close>. A reference
  that does not fit raises after the call was made, and nothing of it is recorded.
\<close>

theorem execution_recorded:
  assumes "executing cx a c (during_call rv d)"
  shows "case execute_external env cx of
      Inl e \<Rightarrow> \<exists>d' b. execute_claimed env rv cx d
            = (if is_razorpay_error e then Inr [(''status'', JStr ''failed''), (''reason'', JStr (exc_str env e))] else Inl e, d')
          \<and> get_action d' (cx_action_id cx) = Some b \<and> ra_status b = A_FAILED
          \<and> ra_failure_reason b = Some (take 512 (exc_str env e)) \<and> get_case d' (cx_case_id cx) = Some c
    | Inr (ref, details) \<Rightarrow>
        if storable_reference ref
        then \<exists>d' b. execute_claimed env rv cx d
              = (Inr [(''status'', JStr ''executed''), (''action_type'', JStr (recovery_action_type_value (cx_action_type cx))),
                      (''provider_reference'', ref)], d')
            \<and> get_action d' (cx_action_id cx) = Some b \<and> ra_status b = A_EXECUTED
            \<and> json_opt_str (ra_provider_reference b) = ref \<and> ra_executed_at b = Some (clock (during_call rv d))
            \<and> get_case d' (cx_case_id cx) = Some (case_after c (clock (during_call rv d)))
        else \<exists>e. execute_claimed env rv cx d = (Inl e, during_call rv d)"
  by (rule execution_outcome [OF assms])

subsection \<open>A claim that succeeds\<close>

definition no_exec_rivals :: exec_rivals where
  "no_exec_rivals = \<lparr>after_claim_read = \<lambda>d. d, before_claim_policy = \<lambda>d. d, during_call = \<lambda>d. d\<rparr>"

lemma no_exec_rivals_simps [simp]:
  "after_claim_read no_exec_rivals = (\<lambda>d. d)" "before_claim_policy no_exec_rivals = (\<lambda>d. d)"
  "during_call no_exec_rivals = (\<lambda>d. d)"
  by (simp_all add: no_exec_rivals_def)

lemma no_exec_rivals_ok: "exec_rivals_ok no_exec_rivals"
  by (simp add: exec_rivals_ok_def)

text \<open>The context of the external call for an action and its case.\<close>

definition context_of :: "db \<Rightarrow> recovery_case \<Rightarrow> recovery_action \<Rightarrow> exec_context" where
  "context_of d c a =
     \<lparr>cx_action_id = ra_id a, cx_case_id = rc_id c, cx_merchant_id = rc_merchant_id c,
      cx_action_type = ra_action_type a, cx_idempotency_key = ra_idempotency_key a,
      cx_amount_minor = rc_amount_minor c, cx_currency = rc_currency c,
      cx_original_provider_payment_id = map_option pay_provider_payment_id (get_payment d (rc_payment_id c))\<rparr>"

lemma claim_action_total:
  assumes ok: "db_ok d" and a: "get_action d x = Some a" "ra_status a = A_APPROVED"
    and c: "get_case d (ra_recovery_case_id a) = Some c" "\<not> is_terminal (rc_status c)"
    and p: "policy \<in> set (merchant_policies d)" "mp_merchant_id policy = rc_merchant_id c"
    and perm: "permitted (policy_limits_from policy) (build_policy_input d c (ra_action_type a) (rc_status c) (Some x))"
    and id: "get_audit d (uuid4 d (uuid_drawn d)) = None"
  shows "\<exists>d' e. claim_action no_exec_rivals x d = Inr (Claimed (context_of d c a), d')
    \<and> get_action d' x = Some (a\<lparr>ra_status := A_EXECUTING, ra_updated_at := clock d\<rparr>)
    \<and> d' = d\<lparr>uuid_drawn := Suc (uuid_drawn d), recovery_actions := recovery_actions d', audit_events := audit_events d @ [e]\<rparr>
    \<and> au_id e = uuid4 d (uuid_drawn d)"
proof -
  have x: "ra_id a = x" by (rule action_table.get_key [OF a(1)])
  define dec where "dec = claim_decision policy c a d"
  have allowed: "claim_allowed c a dec"
    using perm c(2) evaluate_policy_approved_final
    by (fastforce simp: claim_allowed_def dec_def claim_decision_def evaluate_policy_approved_iff x)
  obtain n d1 where t: "atomic_action_transition x A_APPROVED A_EXECUTING d = (n, d1)" by fastforce
  note res = atomic_action_transition_result [OF ok t]
  have n: "n = 1" using res(1) a by simp
  have a1: "get_action d1 x = Some (a\<lparr>ra_status := A_EXECUTING, ra_updated_at := clock d\<rparr>)" using res(2) n a by simp
  define rows where "rows = recovery_actions d1"
  have d1: "d1 = d\<lparr>recovery_actions := rows\<rparr>"
    using t by (auto simp: atomic_action_transition_def update_actions_def rows_def)
  have m: "get_merchant d1 (rc_merchant_id c) \<noteq> None" "get_audit d1 (uuid4 d1 (uuid_drawn d1)) = None"
    using ok c(1) id by (auto simp: d1 db_ok_def cases_ok_def get_defs get_row_None_iff dest!: get_row_SomeD)
  obtain e where e: "executor_audit c a ''recovery_action.claimed''
        [(''case_status'', JStr (recovery_case_status_value (rc_status c)))] d1
      = Inr (d1\<lparr>uuid_drawn := Suc (uuid_drawn d1), audit_events := audit_events d1 @ [e]\<rparr>)"
    "au_id e = uuid4 d1 (uuid_drawn d1)"
    using executor_audit_total [OF m, of "''recovery_action.claimed''" a] by auto
  have "claim_action no_exec_rivals x d = Inr (Claimed (context_of d c a),
      d\<lparr>uuid_drawn := Suc (uuid_drawn d), recovery_actions := rows, audit_events := audit_events d @ [e]\<rparr>)"
    using a c(1) e(1) t n allowed
    by (simp add: claim_action_def get_or_create_existing [OF ok p] take_action_def x dec_def [symmetric] context_of_def d1)
  then show ?thesis
    using a1 e(2) by (intro exI [of _ "d\<lparr>uuid_drawn := Suc (uuid_drawn d), recovery_actions := rows,
        audit_events := audit_events d @ [e]\<rparr>"] exI [of _ e]) (simp add: d1 get_defs)
qed

end
