(* ===== verification/Frames.thy ===== *)
theory Frames
  imports Worker_Facts Executor_Facts
begin

text \<open>
  What the worker and the executor do to the database, seen through a relation. The locale
  \<open>worker_frame\<close> is the contract between a relation on databases and the statements these two
  execute: it is a preorder, and every statement stays within it, the case transitions as far as they
  do not lead to \<open>RECOVERED\<close>. Whole transactions then stay within it too.
\<close>

locale worker_frame = state_preorder R for R :: "db \<Rightarrow> db \<Rightarrow> bool" +
  assumes frame_uuid: "R d (snd (new_uuid d))"
    and frame_policy_row: "insert_policy mp d = Inr d' \<Longrightarrow> R d d'"
    and frame_action_row: "insert_action a d = Inr d' \<Longrightarrow> R d d'"
    and frame_audit_row: "insert_audit_row u d = Inr d' \<Longrightarrow> R d d'"
    and frame_scheduled: "insert_outbox (action_scheduled_event i c a m t) d = Inr d' \<Longrightarrow> R d d'"
    and frame_actions: "R d (snd (update_actions q g d))"
    and frame_flush: "flush_action a d = Inr d' \<Longrightarrow> R d d'"
    and frame_transition: "atomic_transition_recovery_case i s v st d = Inr (n, d') \<Longrightarrow> st \<noteq> RECOVERED \<Longrightarrow> R d d'"
    and frame_transition_at: "atomic_transition_with_next_action_at i s v st m d = Inr (n, d') \<Longrightarrow> st \<noteq> RECOVERED \<Longrightarrow> R d d'"
begin

lemma inserts:
  "insert_action_scheduled_outbox c a m d = Inr d' \<Longrightarrow> R d d'"
  "insert_decision_audit c oi ea da aa src rsn fa fpa fpr fs d = Inr d' \<Longrightarrow> R d d'"
  "executor_audit c a ev pl d = Inr d' \<Longrightarrow> R d d'"
  unfolding insert_action_scheduled_outbox_def insert_decision_audit_def executor_audit_def Let_def case_prod_beta
  using state_trans [OF frame_uuid] frame_scheduled frame_audit_row by blast+

lemma policy:
  assumes "get_or_create_default_policy (\<lambda>d. d) m d = Inr (p, d')"
  shows "R d d'"
  using get_or_create_cases [OF assms] state_trans [OF frame_uuid frame_policy_row] frame_uuid state_refl by blast

lemma create_action:
  assumes "create_recovery_action_idempotent (\<lambda>d. d) m c t k n st sch d = Inr ((a, created), d')"
  shows "R d d'"
  using create_recovery_action_idempotent_Inr [OF assms] state_trans [OF frame_uuid frame_action_row]
    frame_uuid state_refl by (cases created) auto

lemma schedule: "keeps_rel R d (schedule_action w i v d)"
  by (auto simp: schedule_action_def Let_def intro!: keeps_relI dest: frame_transition frame_transition_at split: if_splits)

lemma recording: "keeps_rel R d (record_decision w outbox c a fs nx d)"
  unfolding record_decision_def
  by (rule bind_db_rule [OF _ state_refl])
     (force split: if_splits intro: inserts state_refl, rule bind_db_rule [OF inserts(2)], simp_all add: keeps_rel_return)

lemma move: "keeps_rel R d (move_and_record w outbox c a d)"
  unfolding move_and_record_def
proof (rule bind_rule [OF _ state_refl])
  show "keeps_rel R d (atomic_transition_recovery_case (rc_id c) ANALYSING (rc_version c + 1) ACTION_SELECTED d)"
    by (rule keeps_relI) (erule frame_transition, simp)
next
  fix n2 d4 assume d4: "R d d4"
  have "keeps_rel R d (res_bind (schedule_action w (rc_id c) (rc_version c + 2) d4) (\<lambda>((n3, final_status, next_action_at), d5).
       if n3 = 0 then Inr (ignored ''state_conflict_during_final_transition'', d5)
       else record_decision w outbox c a final_status next_action_at d5))"
    by (rule bind_rule [OF schedule d4]) (auto simp: keeps_rel_return intro: trans_rule [OF _ recording])
  with d4 show "keeps_rel R d (case (n2, d4) of (n2, d4) \<Rightarrow>
     if n2 = 0 then Inr (ignored ''state_conflict_during_selection'', d4)
     else
       res_bind (schedule_action w (rc_id c) (rc_version c + 2) d4) (\<lambda>((n3, final_status, next_action_at), d5).
       if n3 = 0 then Inr (ignored ''state_conflict_during_final_transition'', d5)
       else record_decision w outbox c a final_status next_action_at d5))"
    by (simp add: keeps_rel_return)
qed

lemma select: "keeps_rel R d (select_and_schedule env no_worker_rivals outbox c d)"
  unfolding select_and_schedule_def no_worker_rivals_simps Let_def
proof (rule bind_rule [OF _ state_refl], rule keeps_relI, erule policy, unfold prod.case, rule bind_rule)
  fix p d2
  show "keeps_rel R d2 (create_recovery_action_idempotent (\<lambda>d. d) (rc_merchant_id c) (rc_id c)
         (wd_final_action (decide_action env p c d2))
         (recovery_action_idempotency_key (rc_id c) (wd_final_action (decide_action env p c d2)) 1) 1 A_APPROVED None d2)"
    by (rule keeps_relI) (metis create_action surj_pair)
qed (auto simp: keeps_rel_return intro: trans_rule [OF _ move])

lemma transaction: "keeps_rel R d (body d) \<Longrightarrow> R d (snd (in_transaction body d))"
  by (rule in_transaction_rel [OF _ state_refl])

lemma analyse: "keeps_rel R d (analyse_case env no_worker_rivals outbox c d)"
proof (cases "atomic_transition_recovery_case (rc_id c) (rc_status c) (rc_version c) ANALYSING d")
  case (Inl e)
  then show ?thesis by (cases e) (simp_all add: analyse_case_def keeps_rel_return state_refl)
next
  case (Inr x)
  obtain n d1 where x: "x = (n, d1)" by (cases x)
  with Inr have "R d d1" using frame_transition by blast
  with Inr x trans_rule [OF _ select] show ?thesis by (simp add: analyse_case_def keeps_rel_return)
qed

lemma process_eligible: "R d (snd (process_eligible_event env no_worker_rivals i d))"
proof -
  have "keeps_rel R d (handle_recovery_case_eligible env no_worker_rivals outbox d)" for outbox
    using analyse by (auto simp: handle_recovery_case_eligible_def keeps_rel_return state_refl split: option.split)
  then show ?thesis
    by (auto simp: process_eligible_event_def keeps_rel_return state_refl split: option.split intro!: transaction)
qed

lemma try_transition: "try_transition i s v t d = Inr d' \<Longrightarrow> t \<noteq> RECOVERED \<Longrightarrow> R d d'"
  by (auto simp: try_transition_def split: sum.splits exc.splits intro: frame_transition state_refl)

lemma action_transition: "R d (snd (atomic_action_transition i s t d))"
  by (simp add: atomic_action_transition_def frame_actions)

lemma bind_audit:
  assumes "R d d1" and "\<And>d2. R d d2 \<Longrightarrow> keeps_rel R d (f d2)"
  shows "keeps_rel R d (res_bind (executor_audit c a ev pl d1) f)"
  by (rule bind_db_rule [OF inserts(3) assms(1)]) (simp_all add: assms(2))

lemma bind_try:
  assumes "R d d1" and "t \<noteq> RECOVERED" and "\<And>d2. R d d2 \<Longrightarrow> keeps_rel R d (f d2)"
  shows "keeps_rel R d (res_bind (try_transition i s v t d1) f)"
  by (rule bind_db_rule [OF try_transition [OF _ assms(2)] assms(1)]) (simp_all add: assms(3))

lemma bind_flush:
  assumes "R d d1" and "\<And>d2. R d d2 \<Longrightarrow> keeps_rel R d (f d2)"
  shows "keeps_rel R d (res_bind (flush_action a d1) f)"
  by (rule bind_db_rule [OF frame_flush assms(1)]) (simp_all add: assms(2))

lemma cancel_take: "keeps_rel R d (cancel_action c a p d)" "keeps_rel R d (take_action pay c a d)"
  using action_transition [of d "ra_id a"]
  by (auto simp: cancel_action_def take_action_def Let_def case_prod_beta keeps_rel_return state_refl
      intro!: bind_audit bind_try)

lemma claim: "keeps_rel R d (claim_action no_exec_rivals i d)"
proof -
  have "keeps_rel R d (res_bind (get_or_create_default_policy (\<lambda>d. d) m d) f)"
    if "\<And>p d1. keeps_rel R d1 (f (p, d1))" for m and f :: "merchant_policy \<times> db \<Rightarrow> (claim \<times> db) res"
    by (rule bind_rule [OF _ state_refl]) (rule keeps_relI, erule policy, rule trans_rule [OF _ that])
  then show ?thesis
    by (auto simp: claim_action_def keeps_rel_return state_refl Let_def cancel_take split: option.split)
qed

lemma execute: "R d (snd (execute_claimed env no_exec_rivals cx d))"
proof -
  have s: "keeps_rel R d (finalize_success_body cx ref details d)" for ref details
    unfolding finalize_success_body_def
    by (cases "varchar_value ref")
      (auto simp: keeps_rel_return state_refl Let_def res_bind_if split: option.split
        intro!: bind_audit bind_try bind_flush)
  have f: "keeps_rel R d (finalize_failure_body cx err d)" for err
    unfolding finalize_failure_body_def
    by (auto simp: keeps_rel_return state_refl Let_def res_bind_if split: option.split intro!: bind_audit bind_flush)
  have "R d (snd (finalize_success cx ref details d))" "R d (snd (finalize_failure cx err d))" for ref details err
    unfolding finalize_success_def finalize_failure_def by (rule transaction, rule s, rule transaction, rule f)
  then show ?thesis
    unfolding execute_claimed_def by (auto split: sum.splits prod.splits) (metis snd_conv)+
qed

end

end
