(* ===== verification/Dispatcher.thy ===== *)
theory Dispatcher
  imports History Settings
begin

text \<open>
  The outbox dispatcher, \<^verbatim>\<open>src/app/outbox/dispatcher.py\<close>: one transaction that selects due pending
  events and hands each to the broker. \<open>publish\<close> is the broker (\<open>apply_async\<close>), which may raise;
  \<open>locked\<close> tells which rows another dispatcher holds (\<open>SKIP LOCKED\<close>); \<open>exc_message\<close> is the text of
  an exception. The result is the number of published events, the database, and the list of the
  messages the broker accepted, which a later rollback does not take back.
\<close>

subsection \<open>Definitions\<close>

definition due :: "int \<Rightarrow> outbox_event \<Rightarrow> bool" where
  "due now b =
     (ob_status b = O_PENDING \<and> (case ob_deliver_at b of None \<Rightarrow> True | Some t \<Rightarrow> t \<le> now))"

definition dispatch_limit :: "settings \<Rightarrow> int option \<Rightarrow> int" where
  "dispatch_limit s batch_size =
     (case batch_size of
        None \<Rightarrow> outbox_dispatch_batch_size s
      | Some n \<Rightarrow> if n = 0 then outbox_dispatch_batch_size s else n)"

definition select_due :: "(uuid \<Rightarrow> bool) \<Rightarrow> int \<Rightarrow> db \<Rightarrow> outbox_event list" where
  "select_due locked limit d =
     take (nat limit)
       (sort_key ob_created_at (filter (\<lambda>b. due (clock d) b \<and> \<not> locked (ob_id b)) (outbox_events d)))"

text \<open>The body of the loop: the event as the loop leaves it.\<close>

definition dispatch_event ::
  "settings \<Rightarrow> (exc \<Rightarrow> string) \<Rightarrow> (outbox_event \<Rightarrow> unit res) \<Rightarrow> int \<Rightarrow> outbox_event \<Rightarrow> outbox_event" where
  "dispatch_event s exc_message publish now b =
     (case publish b of
        Inr _ \<Rightarrow> b\<lparr>ob_status := O_PUBLISHED, ob_published_at := Some now, ob_attempts := ob_attempts b + 1,
                   ob_last_error := None\<rparr>
      | Inl e \<Rightarrow>
          (let b' = b\<lparr>ob_attempts := ob_attempts b + 1, ob_last_error := Some (take 512 (exc_message e))\<rparr>
           in if outbox_max_dispatch_attempts s \<le> ob_attempts b' then b'\<lparr>ob_status := O_FAILED\<rparr> else b'))"

fun flush_events :: "outbox_event list \<Rightarrow> db \<Rightarrow> db res" where
  "flush_events [] d = Inr d"
| "flush_events (b # bs) d = res_bind (flush_outbox b d) (flush_events bs)"

definition accepted :: "(outbox_event \<Rightarrow> unit res) \<Rightarrow> outbox_event list \<Rightarrow> outbox_event list" where
  "accepted publish bs = filter (\<lambda>b. publish b = Inr ()) bs"

definition dispatch_transaction ::
  "settings \<Rightarrow> (exc \<Rightarrow> string) \<Rightarrow> (outbox_event \<Rightarrow> unit res) \<Rightarrow> outbox_event list \<Rightarrow> db \<Rightarrow> (nat \<times> db) res" where
  "dispatch_transaction s exc_message publish events d =
     res_bind (flush_events (map (dispatch_event s exc_message publish (clock d)) events) d) (\<lambda>d'.
       Inr (length (accepted publish events), d'))"

definition dispatch_outbox_events ::
  "settings \<Rightarrow> (exc \<Rightarrow> string) \<Rightarrow> (outbox_event \<Rightarrow> unit res) \<Rightarrow> (uuid \<Rightarrow> bool) \<Rightarrow> int option \<Rightarrow> db
   \<Rightarrow> (nat res \<times> db) \<times> outbox_event list" where
  "dispatch_outbox_events s exc_message publish locked batch_size d =
     (let limit = dispatch_limit s batch_size in
      if limit < 0 then ((Inl DataError, d), [])
      else
        let events = select_due locked limit d
        in (in_transaction (dispatch_transaction s exc_message publish events) d, accepted publish events))"

subsection \<open>The dispatcher respects the history\<close>

lemma select_due_mem:
  "b \<in> set (select_due locked limit d) \<Longrightarrow> b \<in> set (outbox_events d) \<and> due (clock d) b \<and> \<not> locked (ob_id b)"
  by (auto simp: select_due_def dest!: in_set_takeD)

lemma select_due_distinct:
  assumes "db_ok d"
  shows "distinct (map ob_id (select_due locked limit d))"
proof -
  have "distinct (map ob_id (filter p (outbox_events d)))" for p
    using db_ok_distinct(7) [OF assms] by (simp add: distinct_map_filter)
  then have "distinct (map ob_id (sort_key ob_created_at (filter p (outbox_events d))))" for p
    by (simp add: distinct_map inj_on_def)
  then show ?thesis unfolding select_due_def by (simp add: take_map [symmetric] distinct_take)
qed

lemma dispatch_event_id [simp]: "ob_id (dispatch_event s tx pub t b) = ob_id b"
  by (simp add: dispatch_event_def Let_def split: sum.split)

lemma dispatch_event_evolves: "ob_status b = O_PENDING \<Longrightarrow> outbox_evolves b (dispatch_event s tx pub t b)"
  by (auto simp: dispatch_event_def Let_def outbox_evolves_def split: sum.split)

lemma flush_outbox_get:
  assumes "flush_outbox b d = Inr d'"
  shows "get_outbox d' i = (if i = ob_id b then map_option (\<lambda>_. b) (get_outbox d i) else get_outbox d i)"
proof -
  have d': "d' = d\<lparr>outbox_events := upd_where (\<lambda>q. ob_id q = ob_id b) (\<lambda>_. b) (outbox_events d)\<rparr>"
    using assms by (auto simp: flush_outbox_def)
  have "get_row ob_id i (upd_where (\<lambda>q. ob_id q = ob_id b) (\<lambda>_. b) xs)
      = (if i = ob_id b then map_option (\<lambda>_. b) (get_row ob_id i xs) else get_row ob_id i xs)" for xs
    by (induction xs) auto
  then show ?thesis by (simp add: d' get_defs)
qed

lemma flush_events_get:
  assumes "flush_events bs d = Inr d'" and "distinct (map ob_id bs)"
  shows "get_outbox d' i = (case get_row ob_id i bs of
      Some b \<Rightarrow> map_option (\<lambda>_. b) (get_outbox d i) | None \<Rightarrow> get_outbox d i)"
  using assms
proof (induction bs arbitrary: d)
  case (Cons b bs)
  from Cons.prems obtain d1 where f: "flush_outbox b d = Inr d1" and r: "flush_events bs d1 = Inr d'" by auto
  have n: "get_row ob_id (ob_id b) bs = None" using Cons.prems(2) by (simp add: get_row_None_iff)
  from Cons.IH [OF r] Cons.prems(2) flush_outbox_get [OF f] n show ?case
    by (auto split: option.split)
qed simp

lemma flush_events_step:
  assumes "flush_events bs d = Inr d'"
    and "\<And>b. b \<in> set bs \<Longrightarrow> \<exists>b0. get_outbox d (ob_id b) = Some b0 \<and> outbox_evolves b0 b"
    and "distinct (map ob_id bs)"
  shows "db_step d d'"
  using assms
proof (induction bs arbitrary: d)
  case (Cons b bs)
  from Cons.prems(1) obtain d1 where f: "flush_outbox b d = Inr d1" and r: "flush_events bs d1 = Inr d'" by auto
  from Cons.prems(2) obtain b0 where b0: "get_outbox d (ob_id b) = Some b0" "outbox_evolves b0 b" by auto
  have "db_step d d1" by (rule flush_outbox_step [OF f b0])
  moreover have "\<exists>b0. get_outbox d1 (ob_id x) = Some b0 \<and> outbox_evolves b0 x" if "x \<in> set bs" for x
  proof -
    have "ob_id x \<noteq> ob_id b" using Cons.prems(3) imageI [OF that, of ob_id] by auto
    then show ?thesis using Cons.prems(2) [of x] that flush_outbox_get [OF f, of "ob_id x"] by simp
  qed
  then have "db_step d1 d'" using Cons.IH [OF r] Cons.prems(3) by simp
  ultimately show ?case by (rule db_step_trans)
qed simp

lemma dispatch_flush_premise:
  assumes "db_ok d" and "b \<in> set (map (dispatch_event s tx pub t) (select_due locked limit d))"
  shows "\<exists>b0. get_outbox d (ob_id b) = Some b0 \<and> outbox_evolves b0 b"
proof -
  from assms(2) obtain b0 where b0: "b = dispatch_event s tx pub t b0" "b0 \<in> set (select_due locked limit d)" by auto
  from select_due_mem [OF this(2)] have "b0 \<in> set (outbox_events d)" "ob_status b0 = O_PENDING"
    by (auto simp: due_def)
  with get_row_distinct [OF db_ok_distinct(7) [OF assms(1)]] b0(1) dispatch_event_evolves show ?thesis
    by (fastforce simp: get_defs)
qed

lemma dispatch_ids:
  "map ob_id (map (dispatch_event s tx pub t) bs) = map ob_id bs"
  by simp

lemma dispatch_outbox_events_step:
  assumes "db_ok d"
  shows "db_step d (snd (fst (dispatch_outbox_events s tx pub locked batch d)))"
proof -
  let ?bs = "select_due locked (dispatch_limit s batch) d"
  have "flush_events (map (dispatch_event s tx pub (clock d)) ?bs) d = Inr d' \<Longrightarrow> db_step d d'" for d'
    using flush_events_step dispatch_flush_premise [OF assms] select_due_distinct [OF assms] dispatch_ids by metis
  then have "keeps d (dispatch_transaction s tx pub ?bs d)"
    by (auto simp: keeps_def dispatch_transaction_def)
  from in_transaction_step [of d "dispatch_transaction s tx pub ?bs", OF this] show ?thesis by (simp add: dispatch_outbox_events_def Let_def)
qed

subsection \<open>What a dispatch does\<close>

lemma get_row_map_id:
  "(\<And>b. key (f b) = key b) \<Longrightarrow> get_row key i (map f bs) = map_option f (get_row key i bs)"
  by (induction bs) auto

text \<open>
  C21: a committed dispatch. Every message the broker accepted was a due, unlocked, pending event and
  its row is now \<open>PUBLISHED\<close>; a row whose message was refused counts one more attempt and is
  \<open>FAILED\<close> exactly when the attempts are used up; every other row is as it was. So a row becomes
  \<open>PUBLISHED\<close> only because its message was accepted.
\<close>

theorem dispatch_outbox_events_spec:
  assumes "db_ok d" and "dispatch_outbox_events s tx pub locked batch d = ((Inr n, d'), sent)"
  shows "n = length sent
    \<and> (\<forall>b \<in> set sent. b \<in> set (outbox_events d) \<and> due (clock d) b \<and> \<not> locked (ob_id b) \<and> pub b = Inr ())
    \<and> (\<forall>i. get_outbox d' i =
         (case get_outbox d i of
            None \<Rightarrow> None
          | Some b \<Rightarrow>
              Some (if b \<in> set sent
                    then b\<lparr>ob_status := O_PUBLISHED, ob_published_at := Some (clock d),
                           ob_attempts := ob_attempts b + 1, ob_last_error := None\<rparr>
                    else if b \<in> set (select_due locked (dispatch_limit s batch) d)
                    then b\<lparr>ob_attempts := ob_attempts b + 1,
                           ob_last_error := ob_last_error (dispatch_event s tx pub (clock d) b),
                           ob_status := (if outbox_max_dispatch_attempts s \<le> ob_attempts b + 1
                                         then O_FAILED else O_PENDING)\<rparr>
                    else b)))"
proof -
  let ?bs = "select_due locked (dispatch_limit s batch) d"
  let ?f = "dispatch_event s tx pub (clock d)"
  from assms(2) have sent: "sent = accepted pub ?bs"
    and t: "in_transaction (dispatch_transaction s tx pub ?bs) d = (Inr n, d')"
    by (auto simp: dispatch_outbox_events_def Let_def split: if_splits)
  from t have fl: "flush_events (map ?f ?bs) d = Inr d'" and n: "n = length sent"
    unfolding in_transaction_def dispatch_transaction_def sent
    by (auto split: sum.splits)
  have mem: "b \<in> set (outbox_events d)" "due (clock d) b" "\<not> locked (ob_id b)" if "b \<in> set ?bs" for b
    using select_due_mem [OF that] by simp_all
  have row: "get_row ob_id i ?bs = (if b \<in> set ?bs then Some b else None)" if "get_outbox d i = Some b" for i b
  proof -
    have b: "b \<in> set (outbox_events d)" "ob_id b = i" using that get_row_SomeD by (fastforce simp: get_defs)+
    have "x = b" if "x \<in> set ?bs" "ob_id x = i" for x
      using get_row_unique [OF db_ok_distinct(7) [OF assms(1)]] \<open>get_outbox d i = Some b\<close> mem(1) [OF that(1)] that(2)
      by (simp add: get_defs)
    then show ?thesis
      using get_row_distinct [OF select_due_distinct [OF assms(1)]] b(2)
      by (metis (no_types, lifting) get_row_None_iff imageE)
  qed
  have get: "get_outbox d' i = (case get_outbox d i of None \<Rightarrow> None | Some b \<Rightarrow> Some (if b \<in> set ?bs then ?f b else b))" for i
  proof -
    have "get_outbox d' i = (case get_row ob_id i (map ?f ?bs) of
        Some b \<Rightarrow> map_option (\<lambda>_. b) (get_outbox d i) | None \<Rightarrow> get_outbox d i)"
      by (rule flush_events_get [OF fl]) (simp add: select_due_distinct [OF assms(1)] comp_def)
    then show ?thesis
      by (cases "get_outbox d i") (auto simp: get_row_map_id row split: option.split)
  qed
  have "pub b = Inr () \<Longrightarrow> ?f b = b\<lparr>ob_status := O_PUBLISHED, ob_published_at := Some (clock d),
        ob_attempts := ob_attempts b + 1, ob_last_error := None\<rparr>" for b
    by (simp add: dispatch_event_def)
  moreover have "ob_status b = O_PENDING \<Longrightarrow> pub b \<noteq> Inr () \<Longrightarrow> ?f b = b\<lparr>ob_attempts := ob_attempts b + 1,
        ob_last_error := ob_last_error (?f b),
        ob_status := (if outbox_max_dispatch_attempts s \<le> ob_attempts b + 1 then O_FAILED else O_PENDING)\<rparr>" for b
    by (cases b) (auto simp: dispatch_event_def Let_def split: sum.split)
  ultimately show ?thesis
    using n mem get by (auto simp: sent accepted_def due_def split: option.split)
qed

text \<open>
  C23: a poisoned event does not block the outbox. If the broker refuses an event every time, after
  \<open>k\<close> dispatches it has counted \<open>k\<close> attempts and is \<open>FAILED\<close> exactly when \<open>k\<close> has reached the
  configured maximum.
\<close>

theorem dispatch_gives_up:
  assumes "\<And>b. \<exists>e. pub b = Inl e" and "ob_status b = O_PENDING" and "ob_attempts b = 0"
    and "0 < outbox_max_dispatch_attempts s" and "int k \<le> outbox_max_dispatch_attempts s"
  shows "ob_attempts ((dispatch_event s tx pub t ^^ k) b) = int k
    \<and> ob_status ((dispatch_event s tx pub t ^^ k) b)
        = (if int k = outbox_max_dispatch_attempts s then O_FAILED else O_PENDING)"
  using assms(5)
proof (induction k)
  case 0
  then show ?case using assms by simp
next
  case (Suc k)
  obtain e where e: "pub ((dispatch_event s tx pub t ^^ k) b) = Inl e" using assms(1) by blast
  have "ob_attempts ((dispatch_event s tx pub t ^^ k) b) = int k"
    "ob_status ((dispatch_event s tx pub t ^^ k) b) = O_PENDING"
    using Suc by auto
  then show ?case using Suc.prems e by (simp add: dispatch_event_def [of s tx pub t "(dispatch_event s tx pub t ^^ k) b"] Let_def)
qed

end
