(* ===== verification/Money.thy ===== *)
theory Money
  imports Schema
begin

text \<open>
  Money in minor units, \<^verbatim>\<open>src/app/domain/money.py\<close>. The two validators take a Python value of any
  type (a \<open>json\<close> value here), since they check the type themselves.

  \<open>major_to_minor\<close> works on \<open>decimal.Decimal\<close> in the default context: 28 significant digits,
  round-half-even for arithmetic. Its first argument is the outcome of \<open>Decimal(str(amount_major))\<close>:
  \<open>None\<close> when this raises \<open>InvalidOperation\<close>.
\<close>

subsection \<open>Definitions\<close>

definition normalize_currency :: "json \<Rightarrow> string res" where
  "normalize_currency currency =
     (case currency of
        JStr s \<Rightarrow>
          (let normalized = py_upper (py_strip s) in
           if length normalized \<noteq> 3 then Inl (MoneyError ''currency must be exactly 3 characters'')
           else if \<not> py_isalpha normalized then Inl (MoneyError ''currency must contain only letters'')
           else Inr normalized)
      | _ \<Rightarrow> Inl (MoneyError ''currency must be a string''))"

definition validate_amount_minor :: "json \<Rightarrow> int res" where
  "validate_amount_minor amount_minor =
     (case amount_minor of
        JInt i \<Rightarrow> if i < 0 then Inl (MoneyError ''amount_minor cannot be negative'') else Inr i
      | _ \<Rightarrow> Inl (MoneyError ''amount_minor must be an integer''))"

datatype decimal = Finite bool nat int | Infinite bool | NaN

definition dec_digits :: nat where
  "dec_digits = 10 ^ 28"

text \<open>A quotient rounded half to even.\<close>

definition div_half_even :: "nat \<Rightarrow> nat \<Rightarrow> nat" where
  "div_half_even a b =
     (let q = a div b; r = a mod b in
      if 2 * r < b then q else if b < 2 * r then q + 1 else if even q then q else q + 1)"

text \<open>Rounding of a coefficient to 28 digits: the coefficient and the number of digits dropped.\<close>

function fix_digits :: "nat \<Rightarrow> nat" where
  "fix_digits c = (if c < dec_digits then 0 else Suc (fix_digits (c div 10)))"
  by auto

termination fix_digits
  by (relation "measure id") (auto simp: dec_digits_def)

declare fix_digits.simps [simp del]

definition fix_coeff :: "nat \<Rightarrow> nat \<times> nat" where
  "fix_coeff c =
     (let k = fix_digits c; q = div_half_even c (10 ^ k) in
      if q = dec_digits then (q div 10, Suc k) else (q, k))"

text \<open>\<open>quantize(Decimal("1"), ROUND_HALF_UP)\<close> of \<open>c * 10^e\<close>; \<open>None\<close> for \<open>InvalidOperation\<close>.\<close>

definition quantize_half_up :: "nat \<Rightarrow> int \<Rightarrow> nat option" where
  "quantize_half_up c e =
     (let n = (if 0 \<le> e then c * 10 ^ nat e
               else (2 * c + 10 ^ nat (- e)) div (2 * 10 ^ nat (- e)))
      in if n < dec_digits then Some n else None)"

definition major_to_minor :: "decimal option \<Rightarrow> json \<Rightarrow> (int \<times> string) res" where
  "major_to_minor amount_major currency =
     res_bind (normalize_currency currency) (\<lambda>normalized_currency.
       case amount_major of
         None \<Rightarrow> Inl (MoneyError ''invalid amount'')
       | Some NaN \<Rightarrow> Inl (OtherException ''InvalidOperation'')
       | Some (Infinite neg) \<Rightarrow>
           if neg then Inl (MoneyError ''amount cannot be negative'')
           else Inl (OtherException ''InvalidOperation'')
       | Some (Finite neg c e) \<Rightarrow>
           if neg \<and> c \<noteq> 0 then Inl (MoneyError ''amount cannot be negative'')
           else
             (let (c', k) = fix_coeff (c * 100) in
              case quantize_half_up c' (e + int k) of
                None \<Rightarrow> Inl (OtherException ''InvalidOperation'')
              | Some minor \<Rightarrow>
                  res_bind (validate_amount_minor (JInt (int minor))) (\<lambda>m. Inr (m, normalized_currency))))"

definition format_minor :: "json \<Rightarrow> json \<Rightarrow> string res" where
  "format_minor amount_minor currency =
     res_bind (validate_amount_minor amount_minor) (\<lambda>validated_amount.
     res_bind (normalize_currency currency) (\<lambda>normalized_currency.
       let (c, k) = fix_coeff (nat validated_amount);
           v = c * 10 ^ k
       in Inr (show_nat (v div 100) @ ''.'' @ [digit_char (v mod 100 div 10), digit_char (v mod 10)]
               @ '' '' @ normalized_currency)))"

subsection \<open>Facts\<close>

lemma fix_coeff_small: "c < dec_digits \<Longrightarrow> fix_coeff c = (c, 0)"
  by (subst fix_coeff_def, subst fix_digits.simps) (simp add: div_half_even_def dec_digits_def)

lemma strip_by_mem: "c \<in> set (strip_by p s) \<Longrightarrow> c \<in> set s"
  by (auto simp: strip_by_def dest!: set_dropWhileD)

lemma py_upper_ascii_letter:
  assumes "ord c < 128"
  shows "\<exists>u. py_upper_char c = [u] \<and> ord u < 128 \<and> (py_isalpha_char u \<longrightarrow> 65 \<le> ord u \<and> ord u \<le> 90)"
proof (cases "97 \<le> ord c \<and> ord c \<le> 122")
  case True
  then have "py_upper_char c = [char_of (ord c - 32)]" by (simp add: py_upper_char_def)
  moreover have "ord (char_of (ord c - 32)) = ord c - 32" using True by (auto intro!: mod_less)
  ultimately show ?thesis using True by auto
next
  case False
  then have "py_upper_char c = [c]" using assms by (auto simp: py_upper_char_def Let_def)
  with False assms show ?thesis by (auto simp: py_isalpha_char_def Let_def)
qed

lemma py_upper_ascii:
  assumes "is_ascii s" and "u \<in> set (py_upper s)" and "py_isalpha_char u"
  shows "65 \<le> ord u \<and> ord u \<le> 90"
proof -
  from assms(2) obtain c where c: "c \<in> set s" "u \<in> set (py_upper_char c)" by (auto simp: py_upper_def)
  with assms(1) have "ord c < 128" by (simp add: is_ascii_def list_all_iff)
  from py_upper_ascii_letter [OF this] c(2) assms(3) show ?thesis by auto
qed

lemma normalize_currency_Inr:
  "normalize_currency v = Inr n \<longleftrightarrow>
     (\<exists>s. v = JStr s \<and> n = py_upper (py_strip s) \<and> length n = 3 \<and> py_isalpha n)"
  by (cases v) (auto simp: normalize_currency_def Let_def)

lemma normalize_currency_error:
  "normalize_currency v = Inl e \<Longrightarrow> \<exists>m. e = MoneyError m"
  by (cases v) (auto simp: normalize_currency_def Let_def split: if_splits)

lemma validate_amount_minor_Inr: "validate_amount_minor v = Inr i \<longleftrightarrow> v = JInt i \<and> 0 \<le> i"
  by (cases v) (auto simp: validate_amount_minor_def)

lemma upper_letters_fixed:
  assumes "list_all (\<lambda>c. 65 \<le> ord c \<and> ord c \<le> 90) s"
  shows "py_upper (py_strip s) = s"
proof -
  have sp: "list_all (\<lambda>c. \<not> py_isspace c) s"
    using assms by (auto simp: list_all_iff py_isspace_def Let_def)
  have up: "py_upper_char c = [c]" if "c \<in> set s" for c
    using assms that by (auto simp: list_all_iff py_upper_char_def Let_def)
  have "concat (map py_upper_char s) = s" using up by (induction s) auto
  then show ?thesis using strip_by_id [OF sp] by (simp add: py_strip_def py_upper_def)
qed

text \<open>
  A currency code written in ASCII that \<open>normalize_currency\<close> accepts is three capital letters,
  as the check constraint of the tables demands, and normalizing it again changes nothing.
\<close>

theorem normalize_currency_canonical:
  assumes "is_ascii s" and "normalize_currency (JStr s) = Inr n"
  shows "currency_ok n \<and> normalize_currency (JStr n) = Inr n"
proof -
  from assms(2) have n: "n = py_upper (py_strip s)" "length n = 3" "py_isalpha n"
    by (auto simp: normalize_currency_Inr)
  have "is_ascii (py_strip s)"
    using assms(1) by (auto simp: is_ascii_def list_all_iff py_strip_def dest: strip_by_mem)
  then have caps: "list_all (\<lambda>c. 65 \<le> ord c \<and> ord c \<le> 90) n"
    using py_upper_ascii [of "py_strip s"] n(1,3) by (auto simp: list_all_iff py_isalpha_def)
  with n upper_letters_fixed [OF caps] show ?thesis by (simp add: currency_ok_def normalize_currency_Inr)
qed

lemma quantize_cents: "m < dec_digits \<Longrightarrow> quantize_half_up (m * 100) (- 2) = Some m"
proof -
  assume m: "m < dec_digits"
  have "(2 * (m * 100) + 100) div (200::nat) = m" by presburger
  with m show ?thesis by (simp add: quantize_half_up_def)
qed

lemma half_up_floor:
  "\<lfloor>of_nat c / 10 ^ k * 100 + 1 / (2::rat)\<rfloor> = int ((2 * (c * 100) + 10 ^ k) div (2 * 10 ^ k))"
proof -
  have "of_nat c / 10 ^ k * 100 + 1 / (2::rat) = of_nat (2 * (c * 100) + 10 ^ k) / of_nat (2 * 10 ^ k)"
    by (simp add: field_simps)
  then show ?thesis by (simp only: floor_divide_of_nat_eq)
qed

lemma half_up_le: "(2 * (c * 100) + 10 ^ k) div (2 * 10 ^ k) \<le> c * (100::nat)"
proof -
  have p: "(1::nat) \<le> 10 ^ k" by simp
  have "c * 200 * 1 \<le> c * 200 * 10 ^ k" using p by (rule mult_le_mono2)
  then have "c * 200 < 10 ^ k + c * 200 * 10 ^ k" using p by linarith
  then have "2 * (c * 100) + 10 ^ k < (c * 100 + 1) * (2 * 10 ^ k)" by (simp add: algebra_simps)
  then have "(2 * (c * 100) + 10 ^ k) div (2 * 10 ^ k) < c * 100 + 1" by (simp add: less_mult_imp_div_less)
  then show ?thesis by simp
qed

lemma quantize_scaled:
  assumes "c * 100 < dec_digits"
  shows "quantize_half_up (c * 100) (- int k) = Some ((2 * (c * 100) + 10 ^ k) div (2 * 10 ^ k))"
proof (cases "k = 0")
  case True
  then show ?thesis using assms by (simp add: quantize_half_up_def)
next
  case False
  then show ?thesis using half_up_le [of c k] assms by (simp add: quantize_half_up_def Let_def)
qed

text \<open>
  C24: an amount with at most 26 significant digits and any number \<open>k\<close> of decimals is converted to
  the nearest minor unit, halves up; an amount with two decimals is converted exactly.
\<close>

theorem major_to_minor_exact:
  assumes "normalize_currency cur = Inr n" and "c < 10 ^ 26"
  shows "major_to_minor (Some (Finite False c (- int k))) cur
        = Inr (\<lfloor>of_nat c / 10 ^ k * 100 + 1 / (2::rat)\<rfloor>, n)
    \<and> major_to_minor (Some (Finite False c (- 2))) cur = Inr (int c, n)"
proof -
  have small: "c * 100 < dec_digits" "c < dec_digits" using assms(2) by (simp_all add: dec_digits_def)
  show ?thesis
    unfolding half_up_floor
    using quantize_cents [OF small(2)] quantize_scaled [OF small(1)] assms(1)
    by (simp add: major_to_minor_def fix_coeff_small [OF small(1)] validate_amount_minor_def)
qed

theorem major_to_minor_exact_witness:
  "major_to_minor (Some (Finite False 7999 (- int 2))) (JStr ''inr'')
      = Inr (\<lfloor>of_nat 7999 / 10 ^ 2 * 100 + 1 / (2::rat)\<rfloor>, ''INR'')
   \<and> major_to_minor (Some (Finite False 7999 (- 2))) (JStr ''inr'') = Inr (int 7999, ''INR'')"
  by (rule major_to_minor_exact) (simp_all, code_simp)

theorem normalize_currency_canonical_witness:
  "currency_ok ''INR'' \<and> normalize_currency (JStr ''INR'') = Inr ''INR''"
  by (rule normalize_currency_canonical [of "'' inr ''"]) (code_simp, code_simp)

end
