(* ===== verification/Webhook_Handlers.thy ===== *)
theory Webhook_Handlers
  imports Recovery_Cases Money Settings
begin

text \<open>
  What a Razorpay event does to the database, \<^verbatim>\<open>src/app/webhooks/handlers.py\<close> with the schemas of
  \<^verbatim>\<open>razorpay_schemas.py\<close>. \<open>web_env\<close> holds the settings and the functions of the cryptographic and
  validation libraries: the two digests as hexadecimal text, the JSON value a body denotes
  (\<open>None\<close> when it does not decode), and pydantic's conversion of a value to an integer.

  \<open>rival\<close> is what other transactions commit between the lookup of a payment and its insert.
\<close>

subsection \<open>Schemas\<close>

record web_env =
  web_settings :: settings
  hmac_sha256_hex :: "string \<Rightarrow> string \<Rightarrow> string"
  sha256_hex :: "string \<Rightarrow> string"
  json_value :: "string \<Rightarrow> json option"
  lax_int :: "json \<Rightarrow> int option"

record payment_entity =
  ent_id :: string
  ent_amount :: int
  ent_currency :: string
  ent_status :: "string option"
  ent_error_code :: "string option"
  ent_error_description :: "string option"
  ent_notes :: "json_obj option"

record razorpay_event =
  rw_id :: "string option"
  rw_event :: string
  rw_payload :: json_obj

definition str_field :: "json \<Rightarrow> string res" where
  "str_field v = (case v of JStr s \<Rightarrow> Inr s | _ \<Rightarrow> Inl ValidationError)"

definition opt_str_field :: "json \<Rightarrow> string option res" where
  "opt_str_field v = (case v of JNull \<Rightarrow> Inr None | JStr s \<Rightarrow> Inr (Some s) | _ \<Rightarrow> Inl ValidationError)"

definition dict_field :: "json \<Rightarrow> json_obj res" where
  "dict_field v = (case v of JObj kvs \<Rightarrow> Inr kvs | _ \<Rightarrow> Inl ValidationError)"

definition opt_dict_field :: "json \<Rightarrow> json_obj option res" where
  "opt_dict_field v = (case v of JNull \<Rightarrow> Inr None | JObj kvs \<Rightarrow> Inr (Some kvs) | _ \<Rightarrow> Inl ValidationError)"

definition amount_field :: "web_env \<Rightarrow> json \<Rightarrow> int res" where
  "amount_field env v =
     (case lax_int env v of
        None \<Rightarrow> Inl ValidationError
      | Some i \<Rightarrow> if 0 \<le> i then Inr i else Inl ValidationError)"

definition validate_payment_entity :: "web_env \<Rightarrow> json_obj \<Rightarrow> payment_entity res" where
  "validate_payment_entity env data =
     res_bind (str_field (obj_get data ''id'')) (\<lambda>i.
     res_bind (amount_field env (obj_get data ''amount'')) (\<lambda>a.
     res_bind (str_field (obj_get data ''currency'')) (\<lambda>c.
     res_bind (opt_str_field (obj_get data ''status'')) (\<lambda>s.
     res_bind (opt_str_field (obj_get data ''error_code'')) (\<lambda>ec.
     res_bind (opt_str_field (obj_get data ''error_description'')) (\<lambda>ed.
     res_bind (opt_dict_field (obj_get data ''notes'')) (\<lambda>n.
       Inr \<lparr>ent_id = i, ent_amount = a, ent_currency = c, ent_status = s, ent_error_code = ec,
            ent_error_description = ed, ent_notes = n\<rparr>)))))))"

definition validate_webhook :: "json \<Rightarrow> razorpay_event res" where
  "validate_webhook v =
     res_bind (dict_field v) (\<lambda>data.
     res_bind (opt_str_field (obj_get data ''id'')) (\<lambda>i.
     res_bind (str_field (obj_get data ''event'')) (\<lambda>e.
     res_bind (dict_field (obj_get data ''payload'')) (\<lambda>p.
       Inr \<lparr>rw_id = i, rw_event = e, rw_payload = p\<rparr>))))"

definition parse_razorpay_webhook :: "web_env \<Rightarrow> string \<Rightarrow> razorpay_event res" where
  "parse_razorpay_webhook env raw_body =
     (case json_value env raw_body of
        None \<Rightarrow> Inl (ValueError ''JSONDecodeError'')
      | Some data \<Rightarrow> validate_webhook data)"

definition extract_payment_entity :: "web_env \<Rightarrow> razorpay_event \<Rightarrow> payment_entity res" where
  "extract_payment_entity env webhook =
     (case obj_get (rw_payload webhook) ''payment'' of
        JObj payment \<Rightarrow>
          (case obj_get payment ''entity'' of
             JObj entity \<Rightarrow> validate_payment_entity env entity
           | _ \<Rightarrow> Inl (ValueError ''payload.payment.entity is missing or invalid''))
      | _ \<Rightarrow> Inl (ValueError ''payload.payment is missing or invalid''))"

subsection \<open>Helpers\<close>

definition SUPPORTED_EVENTS :: "string list" where
  "SUPPORTED_EVENTS = [''payment.failed'', ''payment.captured'']"

definition classify_failure :: "string option \<Rightarrow> string" where
  "classify_failure error_code =
     (case error_code of
        None \<Rightarrow> ''unknown''
      | Some s \<Rightarrow>
          if s = [] then ''unknown''
          else
            let code = py_upper s in
            if py_in ''EXPIRED'' code then ''expired_instrument''
            else if py_in ''INSUFFICIENT'' code then ''insufficient_funds''
            else if py_in ''NETWORK'' code \<or> py_in ''TIMEOUT'' code then ''temporary_network''
            else ''issuer_failure'')"

definition insert_audit ::
  "uuid \<Rightarrow> string \<Rightarrow> string \<Rightarrow> string \<Rightarrow> string option \<Rightarrow> json_obj \<Rightarrow> db \<Rightarrow> db res" where
  "insert_audit merchant_id entity_type entity_id event_type correlation_id payload d =
     (let (u, d1) = new_uuid d in
      insert_audit_row
        \<lparr>au_id = u, au_merchant_id = merchant_id, au_entity_type = entity_type, au_entity_id = entity_id,
         au_event_type = event_type, au_actor = ''webhook'', au_correlation_id = correlation_id,
         au_payload = payload, au_created_at = clock d1\<rparr> d1)"

definition new_outbox_event ::
  "uuid \<Rightarrow> uuid \<Rightarrow> string \<Rightarrow> string \<Rightarrow> string \<Rightarrow> string \<Rightarrow> json_obj \<Rightarrow> int \<Rightarrow> outbox_event" where
  "new_outbox_event u merchant_id aggregate_type aggregate_id event_type idempotency_key payload t =
     \<lparr>ob_id = u, ob_merchant_id = merchant_id, ob_aggregate_type = aggregate_type,
      ob_aggregate_id = aggregate_id, ob_event_type = event_type, ob_payload = payload,
      ob_idempotency_key = idempotency_key, ob_status = O_PENDING, ob_attempts = 0,
      ob_last_error = None, ob_created_at = t, ob_published_at = None, ob_deliver_at = None\<rparr>"

definition insert_outbox_if_missing ::
  "uuid \<Rightarrow> string \<Rightarrow> string \<Rightarrow> string \<Rightarrow> string \<Rightarrow> json_obj \<Rightarrow> db \<Rightarrow> (outbox_event \<times> db) res" where
  "insert_outbox_if_missing merchant_id aggregate_type aggregate_id event_type idempotency_key payload d =
     res_bind (one_or_none (filter (\<lambda>b. ob_idempotency_key b = idempotency_key) (outbox_events d))) (\<lambda>existing.
       case existing of
         Some b \<Rightarrow> Inr (b, d)
       | None \<Rightarrow>
           (let (u, d1) = new_uuid d;
                b = new_outbox_event u merchant_id aggregate_type aggregate_id event_type idempotency_key
                      payload (clock d1)
            in res_bind (insert_outbox b d1) (\<lambda>d2. Inr (b, d2))))"

definition get_payment_by_provider :: "uuid \<Rightarrow> string \<Rightarrow> db \<Rightarrow> payment option res" where
  "get_payment_by_provider merchant_id provider_payment_id d =
     one_or_none (filter (\<lambda>p. pay_merchant_id p = merchant_id \<and> pay_provider p = ''razorpay''
                           \<and> pay_provider_payment_id p = provider_payment_id) (payments d))"

definition get_recovery_case_by_payment :: "uuid \<Rightarrow> db \<Rightarrow> recovery_case option res" where
  "get_recovery_case_by_payment payment_id d =
     one_or_none (filter (\<lambda>c. rc_payment_id c = payment_id) (recovery_cases d))"

subsection \<open>A failed payment\<close>

definition new_failed_payment ::
  "uuid \<Rightarrow> uuid \<Rightarrow> payment_entity \<Rightarrow> int \<Rightarrow> string \<Rightarrow> int \<Rightarrow> payment" where
  "new_failed_payment u merchant_id entity amount_minor currency t =
     \<lparr>pay_id = u, pay_merchant_id = merchant_id, pay_provider = ''razorpay'',
      pay_provider_payment_id = ent_id entity, pay_status = P_FAILED, pay_amount_minor = amount_minor,
      pay_currency = currency, pay_failure_code = ent_error_code entity,
      pay_failure_reason = ent_error_description entity, pay_failed_at = Some t,
      pay_captured_at = None, pay_created_at = t, pay_updated_at = t\<rparr>"

text \<open>The payment row of a failed payment, inserted or updated.\<close>

definition store_failed_payment ::
  "(db \<Rightarrow> db) \<Rightarrow> uuid \<Rightarrow> payment_entity \<Rightarrow> int \<Rightarrow> string \<Rightarrow> payment option \<Rightarrow> db \<Rightarrow> (payment \<times> db) res" where
  "store_failed_payment rival merchant_id entity amount_minor currency existing d =
     (case existing of
        None \<Rightarrow>
          (let (u, d1) = new_uuid (rival d);
               p = new_failed_payment u merchant_id entity amount_minor currency (clock d1)
           in res_bind (insert_payment p d1) (\<lambda>d2. Inr (p, d2)))
      | Some q \<Rightarrow>
          (let p = q\<lparr>pay_status := P_FAILED, pay_amount_minor := amount_minor, pay_currency := currency,
                     pay_failure_code := ent_error_code entity,
                     pay_failure_reason := ent_error_description entity, pay_failed_at := Some (clock d)\<rparr>
           in res_bind (flush_payment p d) (\<lambda>d1. Inr (p, d1))))"

definition eligible_key :: "uuid \<Rightarrow> string" where
  "eligible_key case_id = ''recovery_case.eligible:'' @ uuid_str case_id"

definition eligible_outbox :: "uuid \<Rightarrow> payment \<Rightarrow> recovery_case \<Rightarrow> db \<Rightarrow> (outbox_event \<times> db) res" where
  "eligible_outbox merchant_id p c d =
     insert_outbox_if_missing merchant_id ''recovery_case'' (uuid_str (rc_id c)) ''recovery_case.eligible''
       (eligible_key (rc_id c))
       [(''merchant_id'', JStr (uuid_str merchant_id)), (''payment_id'', JStr (uuid_str (pay_id p))),
        (''recovery_case_id'', JStr (uuid_str (rc_id c))), (''amount_minor'', JInt (rc_amount_minor c)),
        (''currency'', JStr (rc_currency c))] d"

definition new_failed_case :: "uuid \<Rightarrow> uuid \<Rightarrow> payment \<Rightarrow> string option \<Rightarrow> int \<Rightarrow> recovery_case" where
  "new_failed_case u merchant_id p error_code t =
     \<lparr>rc_id = u, rc_merchant_id = merchant_id, rc_payment_id = pay_id p, rc_status = FAILED,
      rc_amount_minor = pay_amount_minor p, rc_currency = pay_currency p,
      rc_failure_category = Some (classify_failure error_code), rc_next_action_at = None, rc_version = 1,
      rc_created_at = t, rc_updated_at = t\<rparr>"

text \<open>The branch that opens a case, and the one that activates a case still \<open>FAILED\<close>.\<close>

definition open_case ::
  "uuid \<Rightarrow> payment_entity \<Rightarrow> payment \<Rightarrow> string option \<Rightarrow> db \<Rightarrow> (json_obj \<times> db) res" where
  "open_case merchant_id entity p correlation_id d =
     (let (u, d1) = new_uuid d; c = new_failed_case u merchant_id p (ent_error_code entity) (clock d1) in
      res_bind (insert_case c d1) (\<lambda>d2.
      res_bind (transition_recovery_case c ELIGIBLE) (\<lambda>c'.
      res_bind (flush_case c' d2) (\<lambda>d3.
      res_bind (insert_audit merchant_id ''recovery_case'' (uuid_str (rc_id c')) ''recovery_case.eligible''
                  correlation_id
                  [(''payment_id'', JStr (uuid_str (pay_id p))),
                   (''provider_payment_id'', JStr (pay_provider_payment_id p)),
                   (''from_status'', JStr (recovery_case_status_value FAILED)),
                   (''to_status'', JStr (recovery_case_status_value ELIGIBLE)),
                   (''amount_minor'', JInt (rc_amount_minor c')), (''currency'', JStr (rc_currency c'))] d3) (\<lambda>d4.
      res_bind (eligible_outbox merchant_id p c' d4) (\<lambda>(_, d5).
        Inr ([(''outcome'', JStr ''recovery_case_created''),
              (''recovery_case_id'', JStr (uuid_str (rc_id c')))], d5)))))))"

definition activate_case ::
  "uuid \<Rightarrow> payment \<Rightarrow> recovery_case \<Rightarrow> string option \<Rightarrow> db \<Rightarrow> (json_obj \<times> db) res" where
  "activate_case merchant_id p c correlation_id d =
     res_bind (transition_recovery_case c ELIGIBLE) (\<lambda>c'.
     res_bind (flush_case c' d) (\<lambda>d1.
     res_bind (insert_audit merchant_id ''recovery_case'' (uuid_str (rc_id c')) ''recovery_case.eligible''
                 correlation_id
                 [(''payment_id'', JStr (uuid_str (pay_id p))),
                  (''from_status'', JStr (recovery_case_status_value FAILED)),
                  (''to_status'', JStr (recovery_case_status_value ELIGIBLE))] d1) (\<lambda>d2.
     res_bind (eligible_outbox merchant_id p c' d2) (\<lambda>(_, d3).
       Inr ([(''outcome'', JStr ''recovery_case_activated''),
             (''recovery_case_id'', JStr (uuid_str (rc_id c')))], d3)))))"

text \<open>The rest of the handler for a payment that is not captured.\<close>

definition fail_payment ::
  "(db \<Rightarrow> db) \<Rightarrow> uuid \<Rightarrow> payment_entity \<Rightarrow> int \<Rightarrow> string \<Rightarrow> string option \<Rightarrow> payment option \<Rightarrow> db
   \<Rightarrow> (json_obj \<times> db) res" where
  "fail_payment rival merchant_id entity amount_minor currency correlation_id existing d =
     res_bind (store_failed_payment rival merchant_id entity amount_minor currency existing d) (\<lambda>(p, d1).
     res_bind (get_recovery_case_by_payment (pay_id p) d1) (\<lambda>found.
       case found of
         None \<Rightarrow> open_case merchant_id entity p correlation_id d1
       | Some c \<Rightarrow>
           if rc_status c = FAILED then activate_case merchant_id p c correlation_id d1
           else Inr ([(''outcome'', JStr ''recovery_case_already_exists''),
                      (''recovery_case_id'', JStr (uuid_str (rc_id c)))], d1)))"

definition handle_payment_failed ::
  "(db \<Rightarrow> db) \<Rightarrow> uuid \<Rightarrow> payment_entity \<Rightarrow> int \<Rightarrow> string \<Rightarrow> string option \<Rightarrow> db \<Rightarrow> (json_obj \<times> db) res" where
  "handle_payment_failed rival merchant_id entity amount_minor currency correlation_id d =
     res_bind (get_payment_by_provider merchant_id (ent_id entity) d) (\<lambda>existing.
       case existing of
         Some q \<Rightarrow>
           if pay_status q = P_CAPTURED
           then Inr ([(''outcome'', JStr ''ignored_already_captured''),
                      (''payment_id'', JStr (uuid_str (pay_id q)))], d)
           else fail_payment rival merchant_id entity amount_minor currency correlation_id existing d
       | None \<Rightarrow> fail_payment rival merchant_id entity amount_minor currency correlation_id existing d)"

subsection \<open>A captured payment\<close>

text \<open>
  The flush of a case moved in memory: the ORM writes the changed columns of the row with this
  identifier, whatever the row has become since it was read.
\<close>

definition flush_case_status :: "recovery_case \<Rightarrow> db \<Rightarrow> db res" where
  "flush_case_status c d =
     (if \<not> integer_ok (rc_version c) then Inl DataError
      else if rc_version c \<le> 0 then Inl IntegrityError
      else Inr (d\<lparr>recovery_cases := upd_where (\<lambda>q. rc_id q = rc_id c)
             (\<lambda>q. q\<lparr>rc_status := rc_status c, rc_version := rc_version c, rc_updated_at := clock d\<rparr>)
             (recovery_cases d)\<rparr>))"

definition cancel_open_actions :: "uuid \<Rightarrow> db \<Rightarrow> db" where
  "cancel_open_actions case_id d =
     snd (update_actions
       (\<lambda>a. ra_recovery_case_id a = case_id \<and> ra_status a \<in> {A_PENDING, A_APPROVED})
       (\<lambda>a. a\<lparr>ra_status := A_CANCELLED, ra_updated_at := clock d\<rparr>) d)"

definition recovered_key :: "uuid \<Rightarrow> string" where
  "recovered_key case_id = ''recovery_case.recovered:'' @ uuid_str case_id"

definition mark_case_recovered ::
  "uuid \<Rightarrow> payment \<Rightarrow> recovery_case \<Rightarrow> string option \<Rightarrow> db \<Rightarrow> (json_obj \<times> db) res" where
  "mark_case_recovered merchant_id p c correlation_id d =
     (if is_terminal (rc_status c)
      then Inr ([(''outcome'', JStr ''case_already_terminal''),
                 (''recovery_case_id'', JStr (uuid_str (rc_id c)))], d)
      else
        case transition_recovery_case c RECOVERED of
          Inl (InvalidStateTransition _) \<Rightarrow>
            Inr ([(''outcome'', JStr ''transition_not_allowed''),
                  (''recovery_case_id'', JStr (uuid_str (rc_id c)))], d)
        | Inl e \<Rightarrow> Inl e
        | Inr c' \<Rightarrow>
            res_bind (flush_case_status c' d) (\<lambda>d1.
            res_bind (insert_audit merchant_id ''recovery_case'' (uuid_str (rc_id c')) ''recovery_case.recovered''
                        correlation_id
                        [(''payment_id'', JStr (uuid_str (pay_id p))),
                         (''provider_payment_id'', JStr (pay_provider_payment_id p)),
                         (''to_status'', JStr (recovery_case_status_value RECOVERED))]
                        (cancel_open_actions (rc_id c') d1)) (\<lambda>d2.
            res_bind (insert_outbox_if_missing merchant_id ''recovery_case'' (uuid_str (rc_id c'))
                        ''recovery_case.recovered'' (recovered_key (rc_id c'))
                        [(''merchant_id'', JStr (uuid_str merchant_id)),
                         (''payment_id'', JStr (uuid_str (pay_id p))),
                         (''recovery_case_id'', JStr (uuid_str (rc_id c')))] d2) (\<lambda>(_, d3).
              Inr ([(''outcome'', JStr ''recovery_case_recovered''),
                    (''recovery_case_id'', JStr (uuid_str (rc_id c')))], d3)))))"

definition new_captured_payment ::
  "uuid \<Rightarrow> uuid \<Rightarrow> payment_entity \<Rightarrow> int \<Rightarrow> string \<Rightarrow> int \<Rightarrow> payment" where
  "new_captured_payment u merchant_id entity amount_minor currency t =
     \<lparr>pay_id = u, pay_merchant_id = merchant_id, pay_provider = ''razorpay'',
      pay_provider_payment_id = ent_id entity, pay_status = P_CAPTURED, pay_amount_minor = amount_minor,
      pay_currency = currency, pay_failure_code = None, pay_failure_reason = None, pay_failed_at = None,
      pay_captured_at = Some t, pay_created_at = t, pay_updated_at = t\<rparr>"

definition store_captured_payment ::
  "(db \<Rightarrow> db) \<Rightarrow> uuid \<Rightarrow> payment_entity \<Rightarrow> int \<Rightarrow> string \<Rightarrow> payment option \<Rightarrow> db \<Rightarrow> (payment \<times> db) res" where
  "store_captured_payment rival merchant_id entity amount_minor currency existing d =
     (case existing of
        None \<Rightarrow>
          (let (u, d1) = new_uuid (rival d);
               p = new_captured_payment u merchant_id entity amount_minor currency (clock d1)
           in res_bind (insert_payment p d1) (\<lambda>d2. Inr (p, d2)))
      | Some q \<Rightarrow>
          if pay_status q \<noteq> P_CAPTURED
          then (let p = q\<lparr>pay_status := P_CAPTURED, pay_captured_at := Some (clock d)\<rparr>
                in res_bind (flush_payment p d) (\<lambda>d1. Inr (p, d1)))
          else Inr (q, d))"

text \<open>
  The case a captured payment belongs to: the one its notes name, if it is the merchant's own,
  otherwise the one of the payment itself.
\<close>

definition noted_case :: "uuid \<Rightarrow> payment_entity \<Rightarrow> db \<Rightarrow> recovery_case option" where
  "noted_case merchant_id entity d =
     (let notes = (case ent_notes entity of None \<Rightarrow> [] | Some kvs \<Rightarrow> kvs);
          raw = obj_get notes ''recoverai_recovery_case_id''
      in if \<not> py_truthy raw then None
         else
           case uuid_of_json raw of
             None \<Rightarrow> None
           | Some i \<Rightarrow>
               (case get_case d i of
                  None \<Rightarrow> None
                | Some c \<Rightarrow> if rc_merchant_id c = merchant_id then Some c else None))"

definition handle_payment_captured ::
  "(db \<Rightarrow> db) \<Rightarrow> uuid \<Rightarrow> payment_entity \<Rightarrow> int \<Rightarrow> string \<Rightarrow> string option \<Rightarrow> db \<Rightarrow> (json_obj \<times> db) res" where
  "handle_payment_captured rival merchant_id entity amount_minor currency correlation_id d =
     res_bind (get_payment_by_provider merchant_id (ent_id entity) d) (\<lambda>existing.
     res_bind (store_captured_payment rival merchant_id entity amount_minor currency existing d) (\<lambda>(p, d1).
       case noted_case merchant_id entity d1 of
         Some c \<Rightarrow> mark_case_recovered merchant_id p c correlation_id d1
       | None \<Rightarrow>
           res_bind (get_recovery_case_by_payment (pay_id p) d1) (\<lambda>found.
             case found of
               None \<Rightarrow> Inr ([(''outcome'', JStr ''payment_captured_no_recovery_case''),
                             (''payment_id'', JStr (uuid_str (pay_id p)))], d1)
             | Some c \<Rightarrow> mark_case_recovered merchant_id p c correlation_id d1)))"

subsection \<open>One event\<close>

text \<open>The answer, the status the webhook row gets, and the database.\<close>

definition process_razorpay_event ::
  "web_env \<Rightarrow> (db \<Rightarrow> db) \<Rightarrow> uuid \<Rightarrow> razorpay_event \<Rightarrow> string option \<Rightarrow> db
   \<Rightarrow> ((json_obj \<times> webhook_event_status) \<times> db) res" where
  "process_razorpay_event env rival merchant_id event correlation_id d =
     (if rw_event event \<notin> set SUPPORTED_EVENTS
      then Inr (([(''status'', JStr ''ignored''), (''reason'', JStr ''unsupported_event'')], W_IGNORED), d)
      else
        res_bind (extract_payment_entity env event) (\<lambda>entity.
        res_bind (validate_amount_minor (JInt (ent_amount entity))) (\<lambda>amount_minor.
        res_bind (normalize_currency (JStr (ent_currency entity))) (\<lambda>currency.
        res_bind (if rw_event event = ''payment.failed''
                  then handle_payment_failed rival merchant_id entity amount_minor currency correlation_id d
                  else handle_payment_captured rival merchant_id entity amount_minor currency correlation_id d) (\<lambda>(result, d').
          Inr (((''status'', JStr ''accepted'') # result, W_PROCESSED), d'))))))"

subsection \<open>Lookups\<close>

lemma payment_lookup_Some:
  "get_payment_by_provider m i d = Inr (Some q) \<Longrightarrow>
     q \<in> set (payments d) \<and> pay_merchant_id q = m \<and> pay_provider q = ''razorpay'' \<and> pay_provider_payment_id q = i"
  unfolding get_payment_by_provider_def by (drule one_or_none_filter, simp)

lemma payment_lookup_get:
  assumes "db_ok d" and "get_payment_by_provider m i d = Inr (Some q)"
  shows "get_payment d (pay_id q) = Some q"
  using get_row_distinct [OF db_ok_distinct(2) [OF assms(1)]] payment_lookup_Some [OF assms(2)]
  by (simp add: get_defs)

lemma case_lookup_eq:
  assumes "db_ok d"
  shows "get_recovery_case_by_payment i d = Inr (get_row rc_payment_id i (recovery_cases d))"
proof -
  have "distinct (map rc_payment_id (recovery_cases d))" using assms by (simp add: db_ok_def cases_ok_def)
  then show ?thesis by (simp add: get_recovery_case_by_payment_def one_or_none_key)
qed

lemma case_lookup_Some:
  assumes "db_ok d" and "get_recovery_case_by_payment i d = Inr (Some c)"
  shows "get_case d (rc_id c) = Some c" and "rc_payment_id c = i"
proof -
  have c: "get_row rc_payment_id i (recovery_cases d) = Some c"
    using assms(2) unfolding case_lookup_eq [OF assms(1)] by simp
  then have "c \<in> set (recovery_cases d)" using get_row_SomeD by fastforce
  then show "get_case d (rc_id c) = Some c"
    using get_row_distinct [OF db_ok_distinct(3) [OF assms(1)]] by (simp add: get_defs)
  show "rc_payment_id c = i" using c get_row_SomeD by fastforce
qed

subsection \<open>Every handler respects the history\<close>

lemma insert_audit_step: "insert_audit m et ei ev co pl d = Inr d' \<Longrightarrow> db_step d d'"
  unfolding insert_audit_def Let_def case_prod_beta
  by (rule db_step_trans [OF new_uuid_step insert_audit_row_step])

lemma keeps_insert_audit:
  assumes "db_step d d1" and "\<And>d2. insert_audit m et ei ev co pl d1 = Inr d2 \<Longrightarrow> db_step d d2 \<Longrightarrow> keeps d (f d2)"
  shows "keeps d (res_bind (insert_audit m et ei ev co pl d1) f)"
  by (rule keeps_bind_db [OF insert_audit_step assms(1)]) (simp_all add: assms(2))

lemma insert_outbox_if_missing_step: "keeps d (insert_outbox_if_missing m aty ai ev k pl d)"
proof -
  have "keeps d (res_bind (insert_outbox b (snd (new_uuid d))) (\<lambda>d2. Inr (b, d2)))" for b
    by (rule keeps_bind_db [OF insert_outbox_step new_uuid_step]) (simp_all add: keeps_return)
  then show ?thesis
    unfolding insert_outbox_if_missing_def
    by (cases "one_or_none (filter (\<lambda>b. ob_idempotency_key b = k) (outbox_events d))")
      (simp_all add: keeps_return Let_def case_prod_beta split: option.split)
qed

lemma eligible_outbox_step: "keeps d (eligible_outbox m p c d)"
  unfolding eligible_outbox_def by (rule insert_outbox_if_missing_step)

lemma payment_evolves_update:
  assumes "pay_status q \<noteq> P_CAPTURED"
  shows "payment_evolves q (q\<lparr>pay_status := s, pay_amount_minor := a, pay_currency := c, pay_failure_code := fc,
      pay_failure_reason := fr, pay_failed_at := fa, pay_updated_at := t\<rparr>)"
    "payment_evolves q (q\<lparr>pay_status := s, pay_captured_at := ca, pay_updated_at := t\<rparr>)"
  using assms by (simp_all add: payment_evolves_def)

lemma flush_payment_get:
  assumes "flush_payment p d = Inr d'" and "get_payment d (pay_id p) = Some q"
  shows "get_payment d' (pay_id p) = Some (p\<lparr>pay_updated_at := clock d\<rparr>)"
proof -
  have d': "d' = d\<lparr>payments := upd_where (\<lambda>q. pay_id q = pay_id p) (\<lambda>_. p\<lparr>pay_updated_at := clock d\<rparr>) (payments d)\<rparr>"
    using assms(1) by (auto simp: flush_payment_def)
  have "get_row pay_id i (upd_where (\<lambda>q. pay_id q = i) (\<lambda>_. r) xs) = Some r"
    if "get_row pay_id i xs \<noteq> None" "pay_id r = i" for i and r :: payment and xs
    using that by (induction xs) auto
  then show ?thesis using assms(2) unfolding d' by (simp add: get_defs)
qed

text \<open>What storing a payment guarantees to the rest of the handlers.\<close>

definition stored_payment :: "uuid \<Rightarrow> string \<Rightarrow> payment \<Rightarrow> db \<Rightarrow> bool" where
  "stored_payment m i p d \<longleftrightarrow> pay_merchant_id p = m \<and>
     (\<exists>q. get_payment d (pay_id p) = Some q \<and> pay_merchant_id q = m \<and> pay_provider q = ''razorpay''
        \<and> pay_provider_payment_id q = i \<and> pay_status q = pay_status p)"

lemma store_failed_payment_step:
  assumes ok: "db_ok d" and rv: "\<And>d. db_step d (rival d)"
    and ex: "get_payment_by_provider m (ent_id e) d = Inr ex"
    and nc: "\<And>q. ex = Some q \<Longrightarrow> pay_status q \<noteq> P_CAPTURED"
    and st: "store_failed_payment rival m e a c ex d = Inr (p, d1)"
  shows "db_step d d1" and "stored_payment m (ent_id e) p d1" and "pay_status p = P_FAILED"
proof -
  have "db_step d d1 \<and> stored_payment m (ent_id e) p d1 \<and> pay_status p = P_FAILED"
  proof (cases ex)
    case None
    obtain u d0 where u: "new_uuid (rival d) = (u, d0)" by fastforce
    have "db_step d d0" using rv [of d] new_uuid_step [of "rival d"] u db_step_trans by fastforce
    moreover from st None u have i: "insert_payment p d0 = Inr d1"
      and p: "p = new_failed_payment u m e a c (clock d0)"
      by (auto simp: store_failed_payment_def Let_def)
    ultimately show ?thesis
      using insert_payment_step [OF i] payment_table.get_added [OF i] db_step_trans
      by (simp add: stored_payment_def p new_failed_payment_def)
  next
    case (Some q)
    note q = payment_lookup_Some [OF ex [unfolded Some]] payment_lookup_get [OF ok ex [unfolded Some]]
    define r where "r = q\<lparr>pay_status := P_FAILED, pay_amount_minor := a, pay_currency := c,
                     pay_failure_code := ent_error_code e,
                     pay_failure_reason := ent_error_description e, pay_failed_at := Some (clock d)\<rparr>"
    from st Some have f: "flush_payment r d = Inr d1" and p: "p = r"
      by (auto simp: store_failed_payment_def Let_def r_def)
    have "db_step d d1"
      by (rule flush_payment_step [OF f, of q])
        (use q nc [OF Some] payment_evolves_update(1) [of q] in \<open>simp_all add: r_def\<close>)
    moreover have "get_payment d1 (pay_id r) = Some (r\<lparr>pay_updated_at := clock d\<rparr>)"
      using flush_payment_get [OF f, of q] q by (simp add: r_def)
    ultimately show ?thesis using q by (simp add: stored_payment_def p) (simp add: r_def)
  qed
  then show "db_step d d1" and "stored_payment m (ent_id e) p d1" and "pay_status p = P_FAILED" by simp_all
qed

lemma store_captured_payment_step:
  assumes ok: "db_ok d" and rv: "\<And>d. db_step d (rival d)"
    and ex: "get_payment_by_provider m (ent_id e) d = Inr ex"
    and st: "store_captured_payment rival m e a c ex d = Inr (p, d1)"
  shows "db_step d d1" and "stored_payment m (ent_id e) p d1" and "pay_status p = P_CAPTURED"
proof -
  have "db_step d d1 \<and> stored_payment m (ent_id e) p d1 \<and> pay_status p = P_CAPTURED"
  proof (cases ex)
    case None
    obtain u d0 where u: "new_uuid (rival d) = (u, d0)" by fastforce
    have "db_step d d0" using rv [of d] new_uuid_step [of "rival d"] u db_step_trans by fastforce
    moreover from st None u have i: "insert_payment p d0 = Inr d1"
      and p: "p = new_captured_payment u m e a c (clock d0)"
      by (auto simp: store_captured_payment_def Let_def)
    ultimately show ?thesis
      using insert_payment_step [OF i] payment_table.get_added [OF i] db_step_trans
      by (simp add: stored_payment_def p new_captured_payment_def)
  next
    case (Some q)
    note q = payment_lookup_Some [OF ex [unfolded Some]] payment_lookup_get [OF ok ex [unfolded Some]]
    define r where "r = q\<lparr>pay_status := P_CAPTURED, pay_captured_at := Some (clock d)\<rparr>"
    show ?thesis
    proof (cases "pay_status q = P_CAPTURED")
      case True
      with st Some q show ?thesis by (auto simp: store_captured_payment_def stored_payment_def)
    next
      case False
      with st Some have f: "flush_payment r d = Inr d1" and p: "p = r"
        by (auto simp: store_captured_payment_def Let_def r_def)
      have "db_step d d1"
        by (rule flush_payment_step [OF f, of q])
          (use q False payment_evolves_update(2) [of q] in \<open>simp_all add: r_def\<close>)
      moreover have "get_payment d1 (pay_id r) = Some (r\<lparr>pay_updated_at := clock d\<rparr>)"
        using flush_payment_get [OF f, of q] q by (simp add: r_def)
      ultimately show ?thesis using q by (simp add: stored_payment_def p) (simp add: r_def)
    qed
  qed
  then show "db_step d d1" and "stored_payment m (ent_id e) p d1" and "pay_status p = P_CAPTURED" by simp_all
qed

lemma keeps_eligible_outbox:
  assumes "db_step d d1"
  shows "keeps d (res_bind (eligible_outbox m p c d1) (\<lambda>(b, d2). Inr (r, d2)))"
  by (rule keeps_bind [OF eligible_outbox_step assms]) (simp add: keeps_return)

lemma keeps_recovered_outbox:
  assumes "db_step d d1"
  shows "keeps d (res_bind (insert_outbox_if_missing m aty ai ev k pl d1) (\<lambda>(b, d2). Inr (r, d2)))"
  by (rule keeps_bind [OF insert_outbox_if_missing_step assms]) (simp add: keeps_return)

lemma case_evolves_moved:
  "can_transition (rc_status c) t \<Longrightarrow>
     case_evolves c (c\<lparr>rc_status := t, rc_version := rc_version c + 1, rc_updated_at := u\<rparr>)"
  using case_evolves_transition [where c = c and t = t and n = "rc_next_action_at c" and u = u] by (cases c) simp

lemma transition_to_eligible:
  "rc_status c = FAILED \<Longrightarrow>
     transition_recovery_case c ELIGIBLE = Inr (c\<lparr>rc_status := ELIGIBLE, rc_version := rc_version c + 1\<rparr>)"
  by (simp add: transition_recovery_case_Inr can_transition_def)

lemma flush_eligible_step:
  assumes "flush_case (c\<lparr>rc_status := ELIGIBLE, rc_version := rc_version c + 1\<rparr>) d = Inr d'"
    and "get_case d (rc_id c) = Some c" and "rc_status c = FAILED"
  shows "db_step d d'"
  by (rule flush_case_step [OF assms(1), of c]) (use assms case_evolves_moved [of c ELIGIBLE] in \<open>simp_all add: can_transition_def\<close>)

lemma keeps_flush_eligible:
  assumes "db_step d d1" and "get_case d1 (rc_id c) = Some c" and "rc_status c = FAILED"
    and "\<And>d2. db_step d d2 \<Longrightarrow> keeps d (f d2)"
  shows "keeps d (res_bind (flush_case (c\<lparr>rc_status := ELIGIBLE, rc_version := rc_version c + 1\<rparr>) d1) f)"
  by (rule keeps_bind_db [OF flush_eligible_step [OF _ assms(2,3)] assms(1)]) (simp_all add: assms(4))

lemma open_case_step:
  assumes "stored_payment m i p d"
  shows "keeps d (open_case m e p co d)"
proof -
  obtain u d1 where u: "new_uuid d = (u, d1)" by fastforce
  have d1: "db_step d d1" using new_uuid_step [of d] u by simp
  define c where "c = new_failed_case u m p (ent_error_code e) (clock d1)"
  obtain q where q: "get_payment d1 (rc_payment_id c) = Some q" "pay_merchant_id q = rc_merchant_id c"
    using assms u by (auto simp: stored_payment_def c_def new_failed_case_def new_uuid_def get_defs)
  have st: "rc_status c = FAILED" by (simp add: c_def new_failed_case_def)
  show ?thesis
    unfolding open_case_def u Let_def prod.case c_def [symmetric] transition_to_eligible [OF st] res_bind.simps
    by (rule keeps_bind_db [OF insert_case_step [OF _ q] d1], assumption)
      (intro keeps_flush_eligible keeps_insert_audit keeps_eligible_outbox case_table.get_added st)
qed

lemma activate_case_step:
  assumes "get_case d (rc_id c) = Some c" and "rc_status c = FAILED"
  shows "keeps d (activate_case m p c co d)"
  unfolding activate_case_def transition_to_eligible [OF assms(2)] res_bind.simps
  by (intro keeps_flush_eligible [OF db_step_refl assms] keeps_insert_audit keeps_eligible_outbox)

lemma fail_payment_step:
  assumes ok: "db_ok d" and rv: "\<And>d. db_step d (rival d)"
    and ex: "get_payment_by_provider m (ent_id e) d = Inr ex"
    and nc: "\<And>q. ex = Some q \<Longrightarrow> pay_status q \<noteq> P_CAPTURED"
  shows "keeps d (fail_payment rival m e a c co ex d)"
  unfolding fail_payment_def
proof (rule keeps_bind [OF _ db_step_refl])
  show "keeps d (store_failed_payment rival m e a c ex d)"
    using store_failed_payment_step(1) [OF assms] by (rule keepsI)
next
  fix p d1 assume st: "store_failed_payment rival m e a c ex d = Inr (p, d1)" and d1: "db_step d d1"
  have ok1: "db_ok d1" using db_step_ok [OF d1 ok] .
  have "keeps d1 (case get_row rc_payment_id (pay_id p) (recovery_cases d1) of
         None \<Rightarrow> open_case m e p co d1
       | Some c \<Rightarrow> if rc_status c = FAILED then activate_case m p c co d1
           else Inr ([(''outcome'', JStr ''recovery_case_already_exists''),
                      (''recovery_case_id'', JStr (uuid_str (rc_id c)))], d1))"
    using open_case_step [OF store_failed_payment_step(2) [OF assms st]]
      activate_case_step case_lookup_Some(1) [OF ok1] case_lookup_eq [OF ok1]
    by (auto simp: keeps_return split: option.split)
  then show "keeps d (case (p, d1) of (p, d1) \<Rightarrow>
     res_bind (get_recovery_case_by_payment (pay_id p) d1) (\<lambda>found.
       case found of
         None \<Rightarrow> open_case m e p co d1
       | Some c \<Rightarrow>
           if rc_status c = FAILED then activate_case m p c co d1
           else Inr ([(''outcome'', JStr ''recovery_case_already_exists''),
                      (''recovery_case_id'', JStr (uuid_str (rc_id c)))], d1)))"
    using d1 by (simp add: case_lookup_eq [OF ok1] keeps_trans)
qed

lemma handle_payment_failed_step:
  assumes "db_ok d" and "\<And>d. db_step d (rival d)"
  shows "keeps d (handle_payment_failed rival m e a c co d)"
proof (cases "get_payment_by_provider m (ent_id e) d")
  case (Inr ex)
  then show ?thesis
    using fail_payment_step [OF assms Inr]
    by (cases ex) (auto simp: handle_payment_failed_def keeps_return)
qed (simp add: handle_payment_failed_def)

lemma flush_case_status_step:
  assumes "flush_case_status (c\<lparr>rc_status := t, rc_version := rc_version c + 1\<rparr>) d = Inr d'"
    and "get_case d (rc_id c) = Some c" and "can_transition (rc_status c) t"
  shows "db_step d d'"
proof -
  let ?f = "\<lambda>q. q\<lparr>rc_status := t, rc_version := rc_version c + 1, rc_updated_at := clock d\<rparr>"
  from assms(1) have v: "integer_ok (rc_version c + 1)" "0 < rc_version c + 1"
    and d': "d' = d\<lparr>recovery_cases := upd_where (\<lambda>q. rc_id q = rc_id c) ?f (recovery_cases d)\<rparr>"
    by (simp_all add: flush_case_status_def not_le split: if_splits)
  show ?thesis unfolding d'
  proof (rule modify_cases_step)
    fix q assume ok: "db_ok d" and q: "q \<in> set (recovery_cases d)" "rc_id q = rc_id c"
    then have "q = c"
      using get_row_unique [OF db_ok_distinct(3) [OF ok]] assms(2) by (simp add: get_defs)
    moreover have "case_row_check q = Inr ()" using ok q(1) by (simp add: db_ok_def cases_ok_def)
    ultimately show "case_evolves q (?f q) \<and> case_row_check (?f q) = Inr ()"
      using v case_evolves_moved [OF assms(3)] by (simp add: case_row_check_iff)
  qed
qed

lemma cancel_open_actions_step: "db_step d (cancel_open_actions i d)"
  unfolding cancel_open_actions_def update_actions_def snd_conv
proof (rule modify_actions_step)
  fix a assume ok: "db_ok d" "a \<in> set (recovery_actions d)" "ra_recovery_case_id a = i \<and> ra_status a \<in> {A_PENDING, A_APPROVED}"
  then have "action_step (ra_status a) A_CANCELLED" by (auto simp: action_step_def)
  then show "action_evolves a (a\<lparr>ra_status := A_CANCELLED, ra_updated_at := clock d\<rparr>)
      \<and> action_row_check (a\<lparr>ra_status := A_CANCELLED, ra_updated_at := clock d\<rparr>) = Inr ()"
    using ok action_machine.final_stuck by (auto simp: action_evolves_def db_ok_def actions_ok_def)
qed

lemma mark_case_recovered_step:
  assumes "get_case d (rc_id c) = Some c"
  shows "keeps d (mark_case_recovered m p c co d)"
proof (cases "is_terminal (rc_status c)")
  case False
  then have t: "transition_recovery_case c RECOVERED = Inr (c\<lparr>rc_status := RECOVERED, rc_version := rc_version c + 1\<rparr>)"
    by (simp add: transition_recovery_case_Inr recovered_reachable)
  show ?thesis
    unfolding mark_case_recovered_def t sum.case if_not_P [OF False]
    by (rule keeps_bind_db [OF flush_case_status_step [OF _ assms recovered_reachable [OF False]] db_step_refl])
      (auto intro!: keeps_insert_audit keeps_recovered_outbox intro: db_step_trans [OF _ cancel_open_actions_step])
qed (simp add: mark_case_recovered_def keeps_return)

lemma noted_case_Some:
  assumes "noted_case m e d = Some c"
  shows "get_case d (rc_id c) = Some c" and "rc_merchant_id c = m"
proof -
  have "(\<exists>i. get_case d i = Some c) \<and> rc_merchant_id c = m"
    using assms by (auto simp: noted_case_def Let_def split: if_splits option.splits)
  then show "get_case d (rc_id c) = Some c" and "rc_merchant_id c = m"
    using case_table.get_key by blast+
qed

lemma handle_payment_captured_step:
  assumes ok: "db_ok d" and rv: "\<And>d. db_step d (rival d)"
  shows "keeps d (handle_payment_captured rival m e a c co d)"
proof (cases "get_payment_by_provider m (ent_id e) d")
  case ex: (Inr ex)
  show ?thesis
  proof (cases "store_captured_payment rival m e a c ex d")
    case (Inr x)
    obtain p d1 where x: "x = (p, d1)" by (cases x)
    with Inr have st: "store_captured_payment rival m e a c ex d = Inr (p, d1)" by simp
    have d1: "db_step d d1" by (rule store_captured_payment_step(1) [OF ok rv ex st])
    then have ok1: "db_ok d1" using ok db_step_ok by blast
    have "keeps d1 (mark_case_recovered m p c' co d1)" if "get_case d1 (rc_id c') = Some c'" for c'
      using mark_case_recovered_step [OF that] .
    then have "keeps d1 (handle_payment_captured rival m e a c co d)"
      using noted_case_Some(1) case_lookup_Some(1) [OF ok1] case_lookup_eq [OF ok1]
      by (auto simp: handle_payment_captured_def ex st keeps_return split: option.split)
    with d1 show ?thesis by (rule keeps_trans)
  qed (simp add: handle_payment_captured_def ex)
qed (simp add: handle_payment_captured_def)

lemma process_razorpay_event_step:
  assumes "db_ok d" and "\<And>d. db_step d (rival d)"
  shows "keeps d (process_razorpay_event env rival m ev co d)"
  unfolding process_razorpay_event_def keeps_def
  using handle_payment_failed_step [OF assms] handle_payment_captured_step [OF assms]
  by (auto simp: keeps_def split: if_splits)

end
