(* ===== verification/Webhook_Endpoint.thy ===== *)
theory Webhook_Endpoint
  imports Webhook_Handlers
begin

text \<open>
  The webhook endpoint, \<^verbatim>\<open>src/app/webhooks/razorpay.py\<close>, and the signature check of
  \<^verbatim>\<open>signature.py\<close>. A request is its raw body, the value of the signature header and the request
  identifier the middleware set; the answer is an HTTP status and a JSON body, or the exception
  that leaves the handler.
\<close>

subsection \<open>Definitions\<close>

definition verify_razorpay_signature :: "web_env \<Rightarrow> string \<Rightarrow> string option \<Rightarrow> unit res" where
  "verify_razorpay_signature env raw_body signature_header =
     (let secret = razorpay_webhook_secret (web_settings env) in
      if secret = [] then Inl (WebhookSignatureError ''webhook secret is not configured'')
      else
        case signature_header of
          None \<Rightarrow> Inl (WebhookSignatureError ''missing webhook signature header'')
        | Some [] \<Rightarrow> Inl (WebhookSignatureError ''missing webhook signature header'')
        | Some header \<Rightarrow>
            (let expected_signature = hmac_sha256_hex env secret raw_body;
                 given = py_strip header
             in if \<not> is_ascii expected_signature \<or> \<not> is_ascii given
                then Inl (TypeError ''comparing strings with non-ASCII characters is not supported'')
                else if expected_signature \<noteq> given
                then Inl (WebhookSignatureError ''invalid webhook signature'')
                else Inr ()))"

definition extract_provider_event_id :: "web_env \<Rightarrow> razorpay_event \<Rightarrow> string \<Rightarrow> string" where
  "extract_provider_event_id env dto raw_body =
     (case rw_id dto of
        Some i \<Rightarrow> if i \<noteq> [] then i else ''sha256:'' @ sha256_hex env raw_body
      | None \<Rightarrow> ''sha256:'' @ sha256_hex env raw_body)"

record http_answer =
  status_code :: nat
  content :: json_obj

definition rejected :: "nat \<Rightarrow> string \<Rightarrow> http_answer" where
  "rejected code reason =
     \<lparr>status_code = code, content = [(''status'', JStr ''rejected''), (''reason'', JStr reason)]\<rparr>"

definition duplicate_answer :: http_answer where
  "duplicate_answer = \<lparr>status_code = 200, content = [(''status'', JStr ''duplicate'')]\<rparr>"

text \<open>\<open>model_dump()\<close> of the parsed event.\<close>

definition model_dump :: "razorpay_event \<Rightarrow> json_obj" where
  "model_dump dto =
     [(''id'', json_opt_str (rw_id dto)), (''event'', JStr (rw_event dto)), (''payload'', JObj (rw_payload dto))]"

definition new_webhook_row :: "uuid \<Rightarrow> uuid \<Rightarrow> string \<Rightarrow> razorpay_event \<Rightarrow> int \<Rightarrow> webhook_event" where
  "new_webhook_row u merchant_id provider_event_id dto t =
     \<lparr>wh_id = u, wh_merchant_id = merchant_id, wh_provider = ''razorpay'',
      wh_provider_event_id = provider_event_id, wh_event_type = rw_event dto,
      wh_payload = model_dump dto, wh_status = W_RECEIVED, wh_received_at = t,
      wh_processed_at = None, wh_error_message = None\<rparr>"

text \<open>The body of the transaction.\<close>

definition webhook_transaction ::
  "web_env \<Rightarrow> (db \<Rightarrow> db) \<Rightarrow> uuid \<Rightarrow> string \<Rightarrow> razorpay_event \<Rightarrow> string option \<Rightarrow> db \<Rightarrow> (json_obj \<times> db) res" where
  "webhook_transaction env rival merchant_id provider_event_id dto correlation_id d =
     (case get_merchant d merchant_id of
        None \<Rightarrow> Inl MerchantNotFoundError
      | Some merchant \<Rightarrow>
          if \<not> m_is_active merchant then Inl MerchantNotFoundError
          else
            (let (u, d1) = new_uuid d;
                 row = new_webhook_row u (m_id merchant) provider_event_id dto (clock d1)
             in case insert_webhook row d1 of
                  Inl e \<Rightarrow> if e = IntegrityError then Inl DuplicateWebhookError else Inl e
                | Inr d2 \<Rightarrow>
                    res_bind (process_razorpay_event env rival (m_id merchant) dto correlation_id d2) (\<lambda>((result, status), d3).
                    res_bind (flush_webhook (row\<lparr>wh_status := status, wh_processed_at := Some (clock d3)\<rparr>) d3) (\<lambda>d4.
                      Inr (result, d4)))))"

text \<open>The \<open>except\<close> clauses around the transaction.\<close>

definition webhook_error_answer :: "exc \<Rightarrow> http_answer" where
  "webhook_error_answer e =
     (case e of
        MerchantNotFoundError \<Rightarrow> rejected 404 ''merchant_not_found''
      | DuplicateWebhookError \<Rightarrow> duplicate_answer
      | IntegrityError \<Rightarrow> duplicate_answer
      | ValueError _ \<Rightarrow> rejected 400 ''invalid_payload''
      | ValidationError \<Rightarrow> rejected 400 ''invalid_payload''
      | MoneyError _ \<Rightarrow> rejected 400 ''invalid_payload''
      | InvalidStateTransition _ \<Rightarrow> rejected 400 ''invalid_payload''
      | WebhookSignatureError _ \<Rightarrow> rejected 400 ''invalid_payload''
      | _ \<Rightarrow> \<lparr>status_code = 500, content = [(''status'', JStr ''error'')]\<rparr>)"

definition razorpay_webhook ::
  "web_env \<Rightarrow> (db \<Rightarrow> db) \<Rightarrow> uuid \<Rightarrow> string \<Rightarrow> string option \<Rightarrow> string option \<Rightarrow> db \<Rightarrow> http_answer res \<times> db" where
  "razorpay_webhook env rival merchant_id raw_body signature_header request_id d =
     (case verify_razorpay_signature env raw_body signature_header of
        Inl (WebhookSignatureError _) \<Rightarrow> (Inr (rejected 401 ''invalid_signature''), d)
      | Inl e \<Rightarrow> (Inl e, d)
      | Inr _ \<Rightarrow>
          (case parse_razorpay_webhook env raw_body of
             Inl e \<Rightarrow> (Inr (rejected 400 ''invalid_payload''), d)
           | Inr dto \<Rightarrow>
               (case in_transaction (webhook_transaction env rival merchant_id
                        (extract_provider_event_id env dto raw_body) dto request_id) d of
                  (Inl e, d') \<Rightarrow> (Inr (webhook_error_answer e), d')
                | (Inr result, d') \<Rightarrow> (Inr \<lparr>status_code = 200, content = result\<rparr>, d'))))"

subsection \<open>The endpoint respects the history\<close>

lemma flush_webhook_own_step:
  assumes "insert_webhook w d = Inr d2" and "db_evolves d2 d3" and "db_ok d3"
    and "flush_webhook (w\<lparr>wh_status := s, wh_processed_at := t\<rparr>) d3 = Inr d4"
  shows "db_step d3 d4"
proof -
  have "get_webhook d2 (wh_id w) = Some w" using webhook_table.get_added [OF assms(1)] .
  with assms(2) obtain w0 where w0: "get_webhook d3 (wh_id w) = Some w0" "webhook_evolves w w0"
    using webhook_history.rows_get unfolding db_evolves_def get_defs by blast
  then have "webhook_evolves w0 (w\<lparr>wh_status := s, wh_processed_at := t\<rparr>)" by (simp add: webhook_evolves_def)
  then show ?thesis using flush_webhook_step [OF assms(4), of w0] w0(1) by simp
qed

lemma webhook_transaction_step:
  assumes ok: "db_ok d" and rv: "\<And>d. db_step d (rival d)"
  shows "keeps d (webhook_transaction env rival m pid dto co d)"
proof (rule keepsI)
  fix r d4 assume run: "webhook_transaction env rival m pid dto co d = Inr (r, d4)"
  obtain u d1 where u: "new_uuid d = (u, d1)" by fastforce
  from run obtain mer where mer: "get_merchant d m = Some mer" by (auto simp: webhook_transaction_def split: option.splits)
  define row where "row = new_webhook_row u (m_id mer) pid dto (clock d1)"
  from run obtain d2 st d3 where i: "insert_webhook row d1 = Inr d2"
    and p: "process_razorpay_event env rival (m_id mer) dto co d2 = Inr ((r, st), d3)"
    and f: "flush_webhook (row\<lparr>wh_status := st, wh_processed_at := Some (clock d3)\<rparr>) d3 = Inr d4"
    by (auto simp: webhook_transaction_def mer u row_def Let_def split: sum.splits if_splits)
  have d2: "db_step d d2" using new_uuid_step [of d] u insert_webhook_step [OF i] db_step_trans by fastforce
  then have ok2: "db_ok d2" using ok db_step_ok by blast
  have d3: "db_step d2 d3" using process_razorpay_event_step [OF ok2 rv] p by (rule keepsD)
  have "db_step d3 d4"
    using flush_webhook_own_step [OF i db_step_evolves [OF d3 ok2] db_step_ok [OF d3 ok2] f] .
  with d2 d3 show "db_step d d4" using db_step_trans by blast
qed

lemma razorpay_webhook_step:
  assumes "db_ok d" and "\<And>d. db_step d (rival d)"
  shows "db_step d (snd (razorpay_webhook env rival m body sig rid d))"
proof -
  have "db_step d (snd (in_transaction (webhook_transaction env rival m pid dto rid) d))" for pid dto
    using in_transaction_step [of d "webhook_transaction env rival m pid dto rid"] webhook_transaction_step [OF assms] by blast
  then show ?thesis
    by (auto simp: razorpay_webhook_def split: sum.split exc.split prod.split) (metis snd_conv)+
qed

end
