(* ===== verification/Announcements.thy ===== *)
theory Announcements
  imports Frames Dispatcher Webhook_Endpoint
begin

text \<open>
  The transactional outbox. \<open>announced\<close> says that every case has its \<^verbatim>\<open>recovery_case.eligible\<close> event in
  the outbox: a case and its announcement are committed together or not at all.

  Only the handler of a failed payment adds cases. Every other transaction is \<open>quiet\<close>: it adds no
  case, and no event under the key of an announcement that is not one.
\<close>

subsection \<open>Announcements and quiet transactions\<close>

definition announces :: "uuid \<Rightarrow> outbox_event \<Rightarrow> bool" where
  "announces i b \<longleftrightarrow> ob_idempotency_key b = eligible_key i \<and> ob_event_type b = ''recovery_case.eligible''
     \<and> obj_get (ob_payload b) ''recovery_case_id'' = JStr (uuid_str i)"

definition shaped :: "outbox_event \<Rightarrow> bool" where
  "shaped b \<longleftrightarrow> (\<forall>i. ob_idempotency_key b = eligible_key i \<longrightarrow> announces i b)"

definition announced :: "db \<Rightarrow> bool" where
  "announced d \<longleftrightarrow> (\<forall>c \<in> set (recovery_cases d). \<exists>b \<in> set (outbox_events d). announces (rc_id c) b)
     \<and> (\<forall>b \<in> set (outbox_events d). shaped b)"

definition quiet :: "db \<Rightarrow> db \<Rightarrow> bool" where
  "quiet d d' \<longleftrightarrow> map rc_id (recovery_cases d') = map rc_id (recovery_cases d)
     \<and> (\<forall>b \<in> set (outbox_events d'). shaped b \<or> (\<exists>b0 \<in> set (outbox_events d). outbox_evolves b0 b))"

lemma announces_evolves: "outbox_evolves b c \<Longrightarrow> announces i c = announces i b"
  by (simp add: outbox_evolves_def announces_def)

lemma shaped_evolves: "outbox_evolves b c \<Longrightarrow> shaped b \<Longrightarrow> shaped c"
  unfolding shaped_def outbox_evolves_def announces_def by metis

interpretation quiet_order: state_preorder quiet
proof
  show "quiet d d" for d using outbox_history.R_refl by (auto simp: quiet_def)
next
  fix a b c assume "quiet a b" and "quiet b c"
  then show "quiet a c" unfolding quiet_def using shaped_evolves outbox_history.R_trans by metis
qed

lemma quiet_announced:
  assumes "announced d" and "quiet d d'" and "db_evolves d d'"
  shows "announced d'"
  unfolding announced_def
proof (intro conjI ballI)
  fix c' assume "c' \<in> set (recovery_cases d')"
  then have "rc_id c' \<in> set (map rc_id (recovery_cases d'))" by simp
  then obtain c where c: "c \<in> set (recovery_cases d)" "rc_id c = rc_id c'"
    using assms(2) unfolding quiet_def by (metis (no_types) imageE list.set_map)
  with assms(1) obtain b where b: "b \<in> set (outbox_events d)" "announces (rc_id c) b"
    by (auto simp: announced_def)
  with assms(3) obtain b' where "b' \<in> set (outbox_events d')" "outbox_evolves b b'"
    unfolding db_evolves_def using outbox_history.rows_mem by blast
  with b(2) c(2) announces_evolves show "\<exists>b \<in> set (outbox_events d'). announces (rc_id c') b" by metis
next
  fix b assume "b \<in> set (outbox_events d')"
  with assms(1,2) shaped_evolves show "shaped b" unfolding quiet_def announced_def by blast
qed


lemma quietI:
  assumes "map rc_id (recovery_cases d') = map rc_id (recovery_cases d)"
    and "set (outbox_events d') \<subseteq> set (outbox_events d) \<union> Collect shaped"
  shows "quiet d d'"
  using assms outbox_history.R_refl unfolding quiet_def by blast

lemma map_key_upd_where: "(\<And>c. c \<in> set xs \<Longrightarrow> p c \<Longrightarrow> k (f c) = k c) \<Longrightarrow> map k (upd_where p f xs) = map k xs"
  by (induction xs) auto

lemma shaped_other:
  "shaped (action_scheduled_event u c a m t)"
  "shaped (new_outbox_event u mid ag ai ev (recovered_key i) pl t)"
  by (auto simp: shaped_def action_scheduled_event_def action_scheduled_key_def eligible_key_def
      new_outbox_event_def recovered_key_def)

lemma quiet_insert:
  "insert_payment p d = Inr d' \<Longrightarrow> quiet d d'" "insert_action a d = Inr d' \<Longrightarrow> quiet d d'"
  "insert_policy mp d = Inr d' \<Longrightarrow> quiet d d'" "insert_webhook w d = Inr d' \<Longrightarrow> quiet d d'"
  "insert_audit_row u d = Inr d' \<Longrightarrow> quiet d d'"
  "insert_outbox b d = Inr d' \<Longrightarrow> shaped b \<Longrightarrow> quiet d d'"
  by (auto intro!: quietI dest!: insert_Inr)

lemma quiet_update:
  "quiet d (snd (new_uuid d))"
  "flush_payment p d = Inr d' \<Longrightarrow> quiet d d'" "flush_action a d = Inr d' \<Longrightarrow> quiet d d'"
  "flush_webhook w d = Inr d' \<Longrightarrow> quiet d d'"
  "quiet d (snd (update_actions q g d))"
  "atomic_transition_recovery_case i s v t d = Inr (n, d') \<Longrightarrow> quiet d d'"
  "atomic_transition_with_next_action_at i s v t m d = Inr (n, d') \<Longrightarrow> quiet d d'"
  "flush_case c d = Inr d' \<Longrightarrow> quiet d d'"
  "flush_case_status c d = Inr d' \<Longrightarrow> quiet d d'"
  by (auto intro!: quietI map_key_upd_where simp: new_uuid_def flush_payment_def flush_action_def flush_webhook_def
      update_actions_def update_cases_def atomic_transition_recovery_case_def atomic_transition_with_next_action_at_def
      flush_case_def flush_case_status_def split: if_splits)

lemmas quiet_trans = quiet_order.state_trans
lemmas quiet_refl = quiet_order.state_refl

subsection \<open>The worker, the executor and the dispatcher are quiet\<close>

lemma quiet_audit: "insert_audit mid et ei ev co pl d = Inr d' \<Longrightarrow> quiet d d'"
  unfolding insert_audit_def Let_def case_prod_beta using quiet_trans [OF quiet_update(1) quiet_insert(5)] by blast

interpretation quiet_frame: worker_frame quiet
  by unfold_locales (auto intro: quiet_update quiet_insert(2,3,5) quiet_insert(6) shaped_other(1))

lemma quiet_dispatch:
  assumes "db_ok d"
  shows "quiet d (snd (fst (dispatch_outbox_events s tx pub locked batch d)))"
proof -
  have "quiet d d'" if "flush_events bs d = Inr d'" "\<And>b. b \<in> set bs \<Longrightarrow> \<exists>b0 \<in> set (outbox_events d). outbox_evolves b0 b" for bs d'
  proof -
    have "recovery_cases d' = recovery_cases d \<and> set (outbox_events d') \<subseteq> set (outbox_events d) \<union> set bs"
      using that(1)
    proof (induction bs arbitrary: d)
      case (Cons b bs)
      then obtain d1 where f: "flush_outbox b d = Inr d1" and r: "flush_events bs d1 = Inr d'" by auto
      have "recovery_cases d1 = recovery_cases d \<and> set (outbox_events d1) \<subseteq> insert b (set (outbox_events d))"
        using f by (auto simp: flush_outbox_def upd_where_def)
      with Cons.IH [OF r] show ?case by auto
    qed simp
    with that(2) outbox_history.R_refl show ?thesis unfolding quiet_def by (metis UnE subsetD)
  qed
  then have "quiet d d'" if "dispatch_transaction s tx pub (select_due locked l d) d = Inr (n, d')" for l n d'
    using that dispatch_event_evolves select_due_mem [of _ locked l d]
    by (fastforce simp: dispatch_transaction_def due_def)
  then show ?thesis
    by (auto simp: dispatch_outbox_events_def Let_def quiet_refl intro!: quiet_frame.transaction keeps_relI)
qed


subsection \<open>A failed payment opens its case and announces it\<close>

lemma announced_new:
  assumes "announced d" and "rc_id ` set (recovery_cases d') \<subseteq> insert u (rc_id ` set (recovery_cases d))"
    and "set (outbox_events d) \<subseteq> set (outbox_events d')" and "\<forall>b \<in> set (outbox_events d'). shaped b"
    and "\<exists>b \<in> set (outbox_events d'). announces u b"
  shows "announced d'"
  unfolding announced_def
proof (intro conjI ballI)
  fix c assume "c \<in> set (recovery_cases d')"
  with assms(2) have "rc_id c = u \<or> rc_id c \<in> rc_id ` set (recovery_cases d)" by auto
  with assms(1,3,5) show "\<exists>b \<in> set (outbox_events d'). announces (rc_id c) b"
    unfolding announced_def by auto (meson subsetD)
qed (use assms(4) in blast)

lemma eligible_outbox_Inr:
  assumes "eligible_outbox m p c d = Inr (b, d')" and "\<forall>b \<in> set (outbox_events d). shaped b"
  shows "recovery_cases d' = recovery_cases d" "set (outbox_events d) \<subseteq> set (outbox_events d')"
    "\<forall>b \<in> set (outbox_events d'). shaped b" "\<exists>b \<in> set (outbox_events d'). announces (rc_id c) b"
proof -
  let ?k = "eligible_key (rc_id c)"
  let ?pl = "[(''merchant_id'', JStr (uuid_str m)), (''payment_id'', JStr (uuid_str (pay_id p))),
        (''recovery_case_id'', JStr (uuid_str (rc_id c))), (''amount_minor'', JInt (rc_amount_minor c)),
        (''currency'', JStr (rc_currency c))]"
  let ?new = "\<lambda>u t. new_outbox_event u m ''recovery_case'' (uuid_str (rc_id c)) ''recovery_case.eligible'' ?k ?pl t"
  have n: "announces (rc_id c) (?new u t)" "shaped (?new u t)" for u t
    by (auto simp: announces_def shaped_def new_outbox_event_def obj_get_def eligible_key_def)
  from assms(1) obtain ex where ex: "one_or_none (filter (\<lambda>b. ob_idempotency_key b = ?k) (outbox_events d)) = Inr ex"
    unfolding eligible_outbox_def insert_outbox_if_missing_def res_bind_Inr by blast
  have "recovery_cases d' = recovery_cases d \<and> set (outbox_events d) \<subseteq> set (outbox_events d')
    \<and> (\<forall>b \<in> set (outbox_events d'). shaped b) \<and> (\<exists>b \<in> set (outbox_events d'). announces (rc_id c) b)"
  proof (cases ex)
    case None
    with assms(1) ex have "insert_outbox (?new (uuid4 d (uuid_drawn d)) (clock d)) (snd (new_uuid d)) = Inr d'"
      by (auto simp: eligible_outbox_def insert_outbox_if_missing_def new_uuid_def Let_def)
    with n assms(2) show ?thesis by (auto simp: new_uuid_def dest!: insert_Inr)
  next
    case (Some b0)
    with ex have "b0 \<in> set (outbox_events d)" "ob_idempotency_key b0 = ?k"
      using one_or_none_filter [of "\<lambda>b. ob_idempotency_key b = ?k" "outbox_events d" b0] by simp_all
    moreover have "d' = d" using assms(1) ex Some by (simp add: eligible_outbox_def insert_outbox_if_missing_def)
    ultimately show ?thesis using assms(2) by (auto simp: shaped_def)
  qed
  then show "recovery_cases d' = recovery_cases d" "set (outbox_events d) \<subseteq> set (outbox_events d')"
    "\<forall>b \<in> set (outbox_events d'). shaped b" "\<exists>b \<in> set (outbox_events d'). announces (rc_id c) b" by blast+
qed

lemma insert_audit_same:
  "insert_audit m et ei ev co pl d = Inr d' \<Longrightarrow> recovery_cases d' = recovery_cases d \<and> outbox_events d' = outbox_events d"
  by (auto simp: insert_audit_def Let_def new_uuid_def dest!: insert_Inr)

lemma flush_case_ids:
  assumes "flush_case c d = Inr d'"
  shows "map rc_id (recovery_cases d') = map rc_id (recovery_cases d)" "outbox_events d' = outbox_events d"
  using assms by (auto simp: flush_case_def intro!: map_key_upd_where)

lemma open_case_announced:
  assumes "open_case m e p co d = Inr (r, d')" and "announced d"
  shows "announced d'"
proof -
  let ?c = "new_failed_case (uuid4 d (uuid_drawn d)) m p (ent_error_code e) (clock d)"
  from assms(1) obtain d2 c' d3 d4 b where i: "insert_case ?c (snd (new_uuid d)) = Inr d2"
    and t: "transition_recovery_case ?c ELIGIBLE = Inr c'" and f: "flush_case c' d2 = Inr d3"
    and a: "\<exists>et ei ev pl. insert_audit m et ei ev co pl d3 = Inr d4" and o: "eligible_outbox m p c' d4 = Inr (b, d')"
    unfolding open_case_def Let_def case_prod_beta new_uuid_def by (auto simp: new_uuid_def) blast
  have c': "rc_id c' = rc_id ?c"
    using t by (auto simp: transition_recovery_case_def split: sum.splits if_splits)
  note d3 = flush_case_ids [OF f]
  have d2: "recovery_cases d2 = recovery_cases d @ [?c]" "outbox_events d2 = outbox_events d"
    using insert_Inr(2) [OF i] by (simp_all add: new_uuid_def)
  have d4: "recovery_cases d4 = recovery_cases d3" "outbox_events d4 = outbox_events d3" using a insert_audit_same by blast+
  have out: "\<forall>b \<in> set (outbox_events d4). shaped b" using assms(2) d2 d3 d4 by (simp add: announced_def)
  note res = eligible_outbox_Inr [OF o out]
  have "rc_id ` set (recovery_cases d') = set (map rc_id (recovery_cases d3))" using res(1) d4 by simp
  also have "\<dots> = insert (rc_id c') (rc_id ` set (recovery_cases d))" unfolding d3(1) d2(1) by (simp add: c')
  finally show ?thesis
    using announced_new [OF assms(2), of d' "rc_id c'"] res d2 d3 d4 by simp
qed


lemma activate_case_announced:
  assumes "activate_case m p c co d = Inr (r, d')" and "announced d" and "c \<in> set (recovery_cases d)"
  shows "announced d'"
proof -
  from assms(1) obtain c' d1 d2 b where t: "transition_recovery_case c ELIGIBLE = Inr c'" and f: "flush_case c' d = Inr d1"
    and a: "\<exists>et ei ev pl. insert_audit m et ei ev co pl d1 = Inr d2" and o: "eligible_outbox m p c' d2 = Inr (b, d')"
    unfolding activate_case_def by auto blast
  have c': "rc_id c' = rc_id c"
    using t by (auto simp: transition_recovery_case_def split: sum.splits if_splits)
  note d1 = flush_case_ids [OF f]
  have d2: "recovery_cases d2 = recovery_cases d1" "outbox_events d2 = outbox_events d1" using a insert_audit_same by blast+
  have out: "\<forall>b \<in> set (outbox_events d2). shaped b" using assms(2) d1 d2 by (simp add: announced_def)
  note res = eligible_outbox_Inr [OF o out]
  have "rc_id ` set (recovery_cases d') = set (map rc_id (recovery_cases d1))" using res(1) d2 by simp
  also have "\<dots> = insert (rc_id c') (rc_id ` set (recovery_cases d))" unfolding d1(1) using assms(3) c' by auto
  finally show ?thesis
    using announced_new [OF assms(2), of d' "rc_id c'"] res d1 d2 by simp
qed

lemma announced_same:
  "recovery_cases d' = recovery_cases d \<Longrightarrow> outbox_events d' = outbox_events d \<Longrightarrow> announced d' = announced d"
  by (simp add: announced_def)

lemma store_payment_same:
  "store_failed_payment (\<lambda>d. d) m e a c ex d = Inr (p, d') \<Longrightarrow>
     recovery_cases d' = recovery_cases d \<and> outbox_events d' = outbox_events d \<and> recovery_actions d' = recovery_actions d"
  "store_captured_payment (\<lambda>d. d) m e a c ex d = Inr (p, d') \<Longrightarrow>
     recovery_cases d' = recovery_cases d \<and> outbox_events d' = outbox_events d \<and> recovery_actions d' = recovery_actions d"
  by (auto simp: store_failed_payment_def store_captured_payment_def Let_def new_uuid_def flush_payment_def
      dest!: insert_Inr split: option.splits if_splits)

lemma payment_failed_announced:
  assumes "handle_payment_failed (\<lambda>d. d) m e a c co d = Inr (r, d')" and "announced d"
  shows "announced d'"
proof -
  have fp: "announced d'" if f: "fail_payment (\<lambda>d. d) m e a c co ex d = Inr (r, d')" for ex
  proof -
    from f obtain p d1 found where st: "store_failed_payment (\<lambda>d. d) m e a c ex d = Inr (p, d1)"
      and g: "get_recovery_case_by_payment (pay_id p) d1 = Inr found"
      and rest: "(case found of None \<Rightarrow> open_case m e p co d1
         | Some rc \<Rightarrow> if rc_status rc = FAILED then activate_case m p rc co d1
             else Inr ([(''outcome'', JStr ''recovery_case_already_exists''), (''recovery_case_id'', JStr (uuid_str (rc_id rc)))], d1))
        = Inr (r, d')"
      unfolding fail_payment_def res_bind_Inr by auto
    have d1: "announced d1" using announced_same store_payment_same(1) [OF st] assms(2) by blast
    show ?thesis
    proof (cases found)
      case None
      with rest d1 show ?thesis using open_case_announced by simp
    next
      case (Some rc)
      then have "rc \<in> set (recovery_cases d1)"
        using g one_or_none_filter [of "\<lambda>c. rc_payment_id c = pay_id p" "recovery_cases d1" rc]
        by (simp add: get_recovery_case_by_payment_def)
      with rest Some d1 show ?thesis using activate_case_announced by (auto split: if_splits)
    qed
  qed
  from assms(1) obtain ex where "get_payment_by_provider m (ent_id e) d = Inr ex"
    and "d' = d \<or> fail_payment (\<lambda>d. d) m e a c co ex d = Inr (r, d')"
    unfolding handle_payment_failed_def res_bind_Inr by (auto split: option.splits if_splits)
  with fp assms(2) show ?thesis by blast
qed

lemma quiet_outbox_if_missing:
  assumes "insert_outbox_if_missing m ag ai ev (recovered_key i) pl d = Inr (b, d')"
  shows "quiet d d'"
proof -
  from assms obtain ex where ex: "one_or_none (filter (\<lambda>b. ob_idempotency_key b = recovered_key i) (outbox_events d)) = Inr ex"
    unfolding insert_outbox_if_missing_def res_bind_Inr by blast
  show ?thesis
  proof (cases ex)
    case None
    with assms ex have "insert_outbox (new_outbox_event (uuid4 d (uuid_drawn d)) m ag ai ev (recovered_key i) pl (clock d))
        (snd (new_uuid d)) = Inr d'"
      by (auto simp: insert_outbox_if_missing_def new_uuid_def Let_def)
    with quiet_trans [OF quiet_update(1) quiet_insert(6)] shaped_other(2) show ?thesis by blast
  next
    case (Some b0)
    with assms ex show ?thesis by (simp add: insert_outbox_if_missing_def quiet_refl)
  qed
qed

lemma quiet_mark_recovered: "keeps_rel quiet d (mark_case_recovered m p c co d)"
proof (cases "\<not> is_terminal (rc_status c) \<and> (\<exists>c'. transition_recovery_case c RECOVERED = Inr c')")
  case True
  then obtain c' where c': "transition_recovery_case c RECOVERED = Inr c'" by blast
  have cancel: "quiet d0 (cancel_open_actions i d0)" for i d0 by (simp add: cancel_open_actions_def quiet_update(5))
  have outbox: "keeps_rel quiet d0 (insert_outbox_if_missing m ag ai ev (recovered_key i) pl d0)" for d0 ag ai ev i pl
    by (rule keeps_relI) (rule quiet_outbox_if_missing)
  show ?thesis
    unfolding mark_case_recovered_def c' sum.case if_not_P [OF conjunct1 [OF True]]
    by (rule quiet_order.bind_db_rule [OF quiet_update(9) quiet_refl], assumption,
        rule quiet_order.bind_db_rule [OF quiet_audit quiet_trans [OF _ cancel]], assumption, assumption,
        rule quiet_order.bind_rule [OF outbox], assumption)
      (simp add: keeps_rel_return)
next
  case False
  then show ?thesis
    by (cases "transition_recovery_case c RECOVERED")
      (auto simp: mark_case_recovered_def keeps_rel_return quiet_refl split: exc.split)
qed


lemma quiet_payment_captured:
  assumes "handle_payment_captured (\<lambda>d. d) m e a c co d = Inr (r, d')"
  shows "quiet d d'"
proof -
  from assms obtain ex p d1 where st: "store_captured_payment (\<lambda>d. d) m e a c ex d = Inr (p, d1)"
    and rest: "(case noted_case m e d1 of
         Some c \<Rightarrow> mark_case_recovered m p c co d1
       | None \<Rightarrow> res_bind (get_recovery_case_by_payment (pay_id p) d1) (\<lambda>found.
             case found of
               None \<Rightarrow> Inr ([(''outcome'', JStr ''payment_captured_no_recovery_case''), (''payment_id'', JStr (uuid_str (pay_id p)))], d1)
             | Some c \<Rightarrow> mark_case_recovered m p c co d1)) = Inr (r, d')"
    unfolding handle_payment_captured_def res_bind_Inr by auto
  have "quiet d d1" using store_payment_same(2) [OF st] by (auto intro!: quietI)
  moreover have "quiet d1 d'"
    using rest keeps_relD [OF quiet_mark_recovered] quiet_refl
    by (cases "get_recovery_case_by_payment (pay_id p) d1") (auto split: option.splits)
  ultimately show ?thesis by (rule quiet_trans)
qed

lemma webhook_announced:
  assumes "db_ok d" and "announced d"
  shows "announced (snd (razorpay_webhook env (\<lambda>d. d) m body sig rid d))"
proof -
  have pr: "announced d'" if "process_razorpay_event env (\<lambda>d. d) m' dto co d0 = Inr ((r, st), d')" "db_ok d0" "announced d0"
    for m' dto co d0 r st d'
  proof -
    from that(1) consider "d' = d0"
      | e a c r' where "handle_payment_failed (\<lambda>d. d) m' e a c co d0 = Inr (r', d')"
      | e a c r' where "handle_payment_captured (\<lambda>d. d) m' e a c co d0 = Inr (r', d')"
      by (auto simp: process_razorpay_event_def split: if_splits)
    then show ?thesis
    proof cases
      case 2
      with that(3) payment_failed_announced show ?thesis by blast
    next
      case 3
      then have "db_step d0 d'" by (rule keepsD [OF handle_payment_captured_step [OF that(2)], rotated]) simp
      with 3 show ?thesis
        using quiet_announced [OF that(3) quiet_payment_captured] db_step_evolves that(2) by blast
    qed (use that in simp)
  qed
  have "announced d'" if "webhook_transaction env (\<lambda>d. d) m pid dto co d = Inr (r, d')" for pid dto co r d'
  proof -
    from that obtain me row d2 res st d3 where i: "insert_webhook row (snd (new_uuid d)) = Inr d2"
      and p: "process_razorpay_event env (\<lambda>d. d) me dto co d2 = Inr ((res, st), d3)"
      and f: "\<exists>w. flush_webhook w d3 = Inr d'"
      by (auto simp: webhook_transaction_def Let_def case_prod_beta split: option.splits if_splits sum.splits) blast
    have "db_step d d2" using new_uuid_step insert_webhook_step [OF i] db_step_trans by blast
    moreover have "announced d2"
      using insert_Inr(5) [OF i] assms(2) announced_same [of d2 d] by (simp add: new_uuid_def)
    ultimately have "announced d3" using pr [OF p] assms(1) db_step_ok by blast
    with f announced_same [of d' d3] show ?thesis by (auto simp: flush_webhook_def)
  qed
  with assms(2) show ?thesis
    by (auto simp: razorpay_webhook_def in_transaction_def split: sum.splits exc.splits prod.splits)
qed

end
