(* ===== verification/Outbox_Task.thy ===== *)
theory Outbox_Task
  imports Eligible_Worker Action_Executor
begin

text \<open>
  The Celery task around the two handlers, \<^verbatim>\<open>process_outbox_event\<close> of
  \<^verbatim>\<open>src/app/tasks/recovery.py\<close>, with its retry delay, \<^verbatim>\<open>src/app/tasks/backoff.py\<close>.
  \<open>Task_Retry\<close> is the \<open>Retry\<close> exception Celery's \<open>self.retry\<close> raises while retries are left (at
  most \<open>max_retries\<close>); afterwards it raises the original exception. The random number of
  \<open>random.uniform\<close> is an argument.
\<close>

subsection \<open>Backoff\<close>

definition exponential_backoff_with_jitter :: "rat \<Rightarrow> int \<Rightarrow> rat \<Rightarrow> rat \<Rightarrow> rat res" where
  "exponential_backoff_with_jitter rnd attempt base cap =
     (let n = nat (max 0 attempt) in
      if 1024 \<le> n then Inl OverflowError
      else
        let max_delay = min cap (base * 2 ^ n);
            min_delay = max_delay / 2
        in Inr (of_int (round_half_even ((min_delay + (max_delay - min_delay) * rnd) * 1000)) / 1000))"

subsection \<open>The task\<close>

record task_env =
  worker_env :: agent_env
  executor_env :: exec_env

record task_rivals =
  worker_interference :: worker_rivals
  executor_interference :: exec_rivals
  between_sessions :: "db \<Rightarrow> db"

definition process_outbox_body :: "task_env \<Rightarrow> task_rivals \<Rightarrow> string \<Rightarrow> db \<Rightarrow> json_obj res \<times> db" where
  "process_outbox_body env rv outbox_event_id d =
     (case uuid_parse outbox_event_id of
        None \<Rightarrow> (Inr [(''status'', JStr ''invalid_outbox_id'')], d)
      | Some outbox_id \<Rightarrow>
          (case get_outbox d outbox_id of
             None \<Rightarrow> (Inr [(''status'', JStr ''missing_outbox_event'')], d)
           | Some outbox \<Rightarrow>
               if ob_event_type outbox = ''recovery_case.eligible''
               then process_eligible_event (worker_env env) (worker_interference rv) outbox_event_id
                      (between_sessions rv d)
               else if ob_event_type outbox = ''recovery_case.action_scheduled''
               then execute_scheduled_action_from_outbox (executor_env env) (executor_interference rv)
                      (ob_payload outbox) (between_sessions rv d)
               else (Inr [(''status'', JStr ''ignored''), (''reason'', JStr ''unsupported_event_type''),
                          (''event_type'', JStr (ob_event_type outbox))], d)))"

datatype task_result = Task_Done json_obj | Task_Retry rat | Task_Raised exc

definition max_retries :: nat where
  "max_retries = 5"

definition is_dbapi_error :: "exc \<Rightarrow> bool" where
  "is_dbapi_error e =
     (case e of IntegrityError \<Rightarrow> True | DataError \<Rightarrow> True | OperationalError _ \<Rightarrow> True
      | OtherException s \<Rightarrow> s = ''ProgrammingError'' | _ \<Rightarrow> False)"

definition process_outbox_event ::
  "task_env \<Rightarrow> task_rivals \<Rightarrow> rat \<Rightarrow> nat \<Rightarrow> string \<Rightarrow> db \<Rightarrow> task_result \<times> db" where
  "process_outbox_event env rv rnd retries outbox_event_id d =
     (case process_outbox_body env rv outbox_event_id d of
        (Inr result, d') \<Rightarrow> (Task_Done result, d')
      | (Inl e, d') \<Rightarrow>
          if is_dbapi_error e
          then (case exponential_backoff_with_jitter rnd (int retries) 2 60 of
                  Inl e' \<Rightarrow> (Task_Raised e', d')
                | Inr delay \<Rightarrow> if retries < max_retries then (Task_Retry delay, d') else (Task_Raised e, d'))
          else (Task_Raised e, d'))"

subsection \<open>Facts\<close>

definition task_rivals_ok :: "task_rivals \<Rightarrow> bool" where
  "task_rivals_ok rv \<longleftrightarrow>
     worker_rivals_ok (worker_interference rv) \<and> exec_rivals_ok (executor_interference rv)
     \<and> (\<forall>d. db_step d (between_sessions rv d))"

lemma process_outbox_body_step:
  assumes ok: "db_ok d" and rv: "task_rivals_ok rv"
  shows "db_step d (snd (process_outbox_body env rv i d))"
proof -
  have b: "db_step d (between_sessions rv d)" using rv by (simp add: task_rivals_ok_def)
  then have "db_ok (between_sessions rv d)" using ok db_step_ok by blast
  then have "db_step d (snd (process_eligible_event (worker_env env) (worker_interference rv) i (between_sessions rv d)))"
    "db_step d (snd (execute_scheduled_action_from_outbox (executor_env env) (executor_interference rv) pl (between_sessions rv d)))"
    for pl
    using process_eligible_event_step execute_scheduled_action_step rv db_step_trans [OF b]
    unfolding task_rivals_ok_def by blast+
  then show ?thesis by (auto simp: process_outbox_body_def split: option.split)
qed

lemma process_outbox_event_step:
  assumes "db_ok d" and "task_rivals_ok rv"
  shows "db_step d (snd (process_outbox_event env rv rnd n i d))"
  using process_outbox_body_step [OF assms, of env i]
  by (auto simp: process_outbox_event_def split: sum.split prod.split)

text \<open>
  With the default base and cap, whatever the random number, the delay before retry \<open>n\<close> is at least
  \<open>2 ^ n\<close> seconds (or half the cap) and at most \<open>2 ^ (n + 1)\<close> seconds (or the cap).
\<close>

lemma backoff_range:
  assumes "0 \<le> rnd" and "rnd \<le> 1" and "n < 1024"
  shows "\<exists>delay. exponential_backoff_with_jitter rnd (int n) 2 60 = Inr delay
    \<and> min 30 (2 ^ n) \<le> delay \<and> delay \<le> min 60 (2 ^ Suc n)"
proof -
  define b :: int where "b = min 60 (2 ^ Suc n)"
  have even: "b = 2 * (min 30 (2 ^ n))" by (simp add: b_def min_def)
  have cmp: "(30 \<le> (2::rat) ^ n) = (30 \<le> (2::int) ^ n)"
    using of_int_le_iff [of 30 "2 ^ n", where 'a = rat] by simp
  have b: "min 60 (2 * 2 ^ n) = (of_int b :: rat)" using cmp by (simp add: b_def min_def)
  have b0: "0 \<le> b" by (simp add: b_def)
  define x :: rat where "x = (of_int b / 2 + (of_int b - of_int b / 2) * rnd) * 1000"
  have "0 \<le> of_int b * rnd" using assms(1) b0 by simp
  then have lo: "of_int (b * 500) \<le> x" by (simp add: x_def field_simps)
  have "of_int b * rnd \<le> of_int b * 1" by (rule mult_left_mono) (use assms(2) b0 in simp_all)
  then have hi: "x \<le> of_int (b * 1000)" by (simp add: x_def field_simps)
  have e: "exponential_backoff_with_jitter rnd (int n) 2 60 = Inr (of_int (round_half_even x) / 1000)"
    using assms(3) by (simp add: exponential_backoff_with_jitter_def Let_def b x_def mult.commute)
  have "b * 500 \<le> round_half_even x" "round_half_even x \<le> b * 1000"
    using round_half_even_mono [OF lo] round_half_even_mono [OF hi] by (simp_all only: round_half_even_int)
  then have r: "of_int (b * 500) \<le> (of_int (round_half_even x) :: rat)"
    "(of_int (round_half_even x) :: rat) \<le> of_int (b * 1000)"
    by (simp_all only: of_int_le_iff)
  have "min 30 (2 ^ n) = (of_int b :: rat) / 2" "min 60 (2 ^ Suc n) = (of_int b :: rat)"
    unfolding b [symmetric] by (simp_all add: min_def)
  with e r show ?thesis by (intro exI [of _ "of_int (round_half_even x) / 1000"]) simp
qed

end
