(* ===== verification/System.thy ===== *)
theory System
  imports Announcements Outbox_Task
begin

text \<open>
  The whole system as a state machine: the database, the messages in the broker, and the external
  calls in progress. A step is one transaction or one message of the parts:

  \<^item> \<open>Webhook\<close>: any request to the webhook endpoint (\<open>razorpay_webhook\<close>);
  \<^item> \<open>Dispatch\<close>: one run of the dispatcher, with any broker, any rows locked by other dispatchers and
    any batch size; the accepted messages are in the broker;
  \<^item> \<open>Analyse\<close>: a worker handles a message of type \<^verbatim>\<open>recovery_case.eligible\<close>;
  \<^item> \<open>Claim\<close>: a worker handles a message of type \<^verbatim>\<open>recovery_case.action_scheduled\<close> up to the end of the
    claiming transaction; if the action was claimed, its external call is started;
  \<^item> \<open>Record\<close>: the call of a claimed action ends and its outcome is recorded;
  \<^item> \<open>Crash\<close>: the worker that made the call dies before it records the outcome;
  \<^item> \<open>Tick\<close>: time passes.

  The broker delivers at least once (\<open>task_acks_late\<close>): a handled message may stay in it, so every
  message may be handled any number of times, in any order, also while other calls are in progress.
\<close>

subsection \<open>The state machine\<close>

record world =
  agent_side :: agent_env
  exec_side :: exec_env
  web_side :: web_env
  dispatch_settings :: settings
  broker_text :: "exc \<Rightarrow> string"

record system =
  store :: db
  broker :: "string list"
  in_flight :: "exec_context list"
  called :: "uuid list"

text \<open>The event a message names.\<close>

definition message_event :: "db \<Rightarrow> string \<Rightarrow> outbox_event option" where
  "message_event d i = (case uuid_parse i of None \<Rightarrow> None | Some u \<Rightarrow> get_outbox d u)"

definition delivered :: "string \<Rightarrow> string list \<Rightarrow> string list \<Rightarrow> bool" where
  "delivered i q q' \<longleftrightarrow> i \<in> set q \<and> (q' = q \<or> q' = remove1 i q)"

fun start_call :: "claim res \<Rightarrow> system \<Rightarrow> system" where
  "start_call (Inr (Claimed cx)) s = s\<lparr>in_flight := cx # in_flight s, called := cx_action_id cx # called s\<rparr>"
| "start_call _ s = s"

inductive sys_step :: "world \<Rightarrow> system \<Rightarrow> system \<Rightarrow> bool" for w where
  Webhook: "sys_step w s (s\<lparr>store := snd (razorpay_webhook (web_side w) (\<lambda>d. d) m body sig rid (store s))\<rparr>)"
| Dispatch: "dispatch_outbox_events (dispatch_settings w) (broker_text w) publish locked batch (store s) = ((r, d'), sent)
    \<Longrightarrow> sys_step w s (s\<lparr>store := d', broker := broker s @ map (\<lambda>b. uuid_str (ob_id b)) sent\<rparr>)"
| Analyse: "delivered i (broker s) q \<Longrightarrow> message_event (store s) i = Some b \<Longrightarrow> ob_event_type b = ''recovery_case.eligible''
    \<Longrightarrow> sys_step w s (s\<lparr>store := snd (process_eligible_event (agent_side w) no_worker_rivals i (store s)), broker := q\<rparr>)"
| Claim: "delivered i (broker s) q \<Longrightarrow> message_event (store s) i = Some b \<Longrightarrow> ob_event_type b = ''recovery_case.action_scheduled''
    \<Longrightarrow> uuid_of_json (obj_get (ob_payload b) ''recovery_action_id'') = Some a
    \<Longrightarrow> in_transaction (claim_action no_exec_rivals a) (store s) = (r, d')
    \<Longrightarrow> sys_step w s (start_call r (s\<lparr>store := d', broker := q\<rparr>))"
| Record: "cx \<in> set (in_flight s)
    \<Longrightarrow> sys_step w s (s\<lparr>store := snd (execute_claimed (exec_side w) no_exec_rivals cx (store s)),
          in_flight := remove1 cx (in_flight s)\<rparr>)"
| Crash: "cx \<in> set (in_flight s) \<Longrightarrow> sys_step w s (s\<lparr>in_flight := remove1 cx (in_flight s)\<rparr>)"
| Tick: "clock (store s) \<le> t \<Longrightarrow> sys_step w s (s\<lparr>store := (store s)\<lparr>clock := t\<rparr>\<rparr>)"

abbreviation sys_run :: "world \<Rightarrow> system \<Rightarrow> system \<Rightarrow> bool" where
  "sys_run w \<equiv> (sys_step w)\<^sup>*\<^sup>*"

definition start_state :: "system \<Rightarrow> bool" where
  "start_state s \<longleftrightarrow> db_ok (store s) \<and> announced (store s) \<and> broker s = [] \<and> in_flight s = [] \<and> called s = []"

declare sys_step.intros [intro]

text \<open>
  \<open>Claim\<close> and \<open>Record\<close> are the two halves of the executor: with the interference \<open>f\<close> during the
  call, its run is the claim, \<open>f\<close>, and the recording.
\<close>

lemma executor_split:
  assumes "uuid_of_json (obj_get payload ''recovery_action_id'') = Some a"
    and "in_transaction (claim_action no_exec_rivals a) d = (Inr (Claimed cx), d1)"
  shows "execute_scheduled_action_from_outbox env (no_exec_rivals\<lparr>during_call := f\<rparr>) payload d
     = execute_claimed env no_exec_rivals cx (f d1)"
proof -
  have eqs: "after_claim_read (no_exec_rivals\<lparr>during_call := f\<rparr>) = after_claim_read no_exec_rivals"
    "before_claim_policy (no_exec_rivals\<lparr>during_call := f\<rparr>) = before_claim_policy no_exec_rivals" by simp_all
  have "claim_action (no_exec_rivals\<lparr>during_call := f\<rparr>) a = claim_action no_exec_rivals a"
    unfolding fun_eq_iff claim_action_def eqs by (rule allI, rule refl)
  moreover have "during_call (no_exec_rivals\<lparr>during_call := f\<rparr>) d1 = during_call no_exec_rivals (f d1)" by simp
  then have "execute_claimed env (no_exec_rivals\<lparr>during_call := f\<rparr>) cx d1 = execute_claimed env no_exec_rivals cx (f d1)"
    unfolding execute_claimed_def by (rule ssubst) (rule refl)
  ultimately show ?thesis using assms by (simp add: execute_scheduled_action_from_outbox_def)
qed

lemma start_call_simps [simp]: "store (start_call r s) = store s" "broker (start_call r s) = broker s"
  by (cases "(r, s)" rule: start_call.cases; simp)+

subsection \<open>The database along a run\<close>

lemma tick_step: "db_step d (d\<lparr>clock := t\<rparr>)"
  by (simp add: db_step_def db_ok_def table_ok_defs db_evolves_def)

lemma sys_step_db:
  assumes "sys_step w s s'" and "db_ok (store s)"
  shows "db_step (store s) (store s')"
  using assms(1)
proof cases
  case (Webhook m body sig rid)
  then show ?thesis using razorpay_webhook_step [OF assms(2)] by simp
next
  case (Dispatch publish locked batch r d' sent)
  then show ?thesis
    using dispatch_outbox_events_step [OF assms(2), of "dispatch_settings w" "broker_text w" publish locked batch] by simp
next
  case (Analyse i q b)
  then show ?thesis using process_eligible_event_step [OF assms(2) no_worker_rivals_ok] by simp
next
  case (Claim i q b a r d')
  have "db_step (store s) (snd (in_transaction (claim_action no_exec_rivals a) (store s)))"
    by (rule in_transaction_step [OF claim_action_step [OF no_exec_rivals_ok]])
  with Claim show ?thesis by simp
next
  case (Record cx)
  then show ?thesis using execute_claimed_step [OF no_exec_rivals_ok] by simp
qed (simp_all add: tick_step)

lemma sys_step_announced:
  assumes "sys_step w s s'" and "db_ok (store s)" and "announced (store s)"
  shows "announced (store s')"
proof -
  have ev: "db_evolves (store s) (store s')" using sys_step_db [OF assms(1,2)] assms(2) db_step_evolves by blast
  from assms(1) show ?thesis
  proof cases
    case (Webhook m body sig rid)
    then show ?thesis using webhook_announced [OF assms(2,3)] by simp
  next
    case (Dispatch publish locked batch r d' sent)
    then have "quiet (store s) (store s')"
      using quiet_dispatch [OF assms(2), of "dispatch_settings w" "broker_text w" publish locked batch] by simp
    then show ?thesis using quiet_announced [OF assms(3) _ ev] by blast
  next
    case (Analyse i q b)
    then have "quiet (store s) (store s')" using quiet_frame.process_eligible by simp
    then show ?thesis using quiet_announced [OF assms(3) _ ev] by blast
  next
    case (Claim i q b a r d')
    have "quiet (store s) (snd (in_transaction (claim_action no_exec_rivals a) (store s)))"
      by (rule quiet_frame.transaction [OF quiet_frame.claim])
    with Claim have "quiet (store s) (store s')" by simp
    then show ?thesis using quiet_announced [OF assms(3) _ ev] by blast
  next
    case (Record cx)
    then have "quiet (store s) (store s')" using quiet_frame.execute by simp
    then show ?thesis using quiet_announced [OF assms(3) _ ev] by blast
  qed (use assms(3) in \<open>simp_all add: announced_def\<close>)
qed

lemma sys_run_db:
  assumes "sys_run w s s'" and "db_ok (store s)"
  shows "db_ok (store s') \<and> db_evolves (store s) (store s')"
  using assms
proof (induction rule: rtranclp_induct)
  case base
  then show ?case using db_evolves_refl by blast
next
  case (step s1 s2)
  then have "db_step (store s1) (store s2)" using sys_step_db by blast
  with step show ?case using db_step_ok db_step_evolves db_evolves_trans by blast
qed



text \<open>
  C9: the transactional outbox. In every state the system reaches, every recovery case has its
  announcement in the outbox, with the case's identifier in its payload: there is no moment at
  which a case exists that no worker will be told about.
\<close>

theorem cases_always_announced:
  assumes "start_state s" and "sys_run w s s'" and "c \<in> set (recovery_cases (store s'))"
  shows "\<exists>b \<in> set (outbox_events (store s')). ob_idempotency_key b = eligible_key (rc_id c)
    \<and> ob_event_type b = ''recovery_case.eligible''
    \<and> uuid_of_json (obj_get (ob_payload b) ''recovery_case_id'') = Some (rc_id c)"
proof -
  have "db_ok (store s') \<and> announced (store s')"
    using assms(2)
  proof (induction rule: rtranclp_induct)
    case base
    then show ?case using assms(1) by (simp add: start_state_def)
  next
    case (step s1 s2)
    then show ?case using sys_step_announced sys_step_db db_step_ok by blast
  qed
  with assms(3) show ?thesis by (fastforce simp: announced_def announces_def)
qed

subsection \<open>External calls\<close>

definition underway :: "recovery_action_status \<Rightarrow> bool" where
  "underway st = (st \<in> {A_EXECUTING, A_EXECUTED, A_FAILED})"

lemma underway_path: "action_step\<^sup>*\<^sup>* st st' \<Longrightarrow> underway st \<Longrightarrow> underway st'"
  by (induction rule: rtranclp_induct) (auto simp: underway_def action_step_def)

definition calls_ok :: "system \<Rightarrow> bool" where
  "calls_ok s \<longleftrightarrow> distinct (called s) \<and> set (map cx_action_id (in_flight s)) \<subseteq> set (called s)
     \<and> (\<forall>i \<in> set (called s). \<exists>a. get_action (store s) i = Some a \<and> underway (ra_status a))"

lemma underway_kept:
  assumes "db_evolves d d'" and "get_action d i = Some a" and "underway (ra_status a)"
  shows "\<exists>a'. get_action d' i = Some a' \<and> underway (ra_status a')"
  using db_evolves_action [OF assms(1,2)] underway_path assms(3) by (auto simp: action_evolves_def)

text \<open>What a claim needs and leaves behind.\<close>

lemma claimed_action:
  assumes "in_transaction (claim_action no_exec_rivals i) d = (Inr (Claimed cx), d')" and "db_ok d"
  shows "cx_action_id cx = i" "\<exists>a. get_action d i = Some a \<and> ra_status a = A_APPROVED"
    "\<exists>a. get_action d' i = Some a \<and> ra_status a = A_EXECUTING"
proof -
  have cl: "claim_action no_exec_rivals i d = Inr (Claimed cx, d')"
    using assms(1) by (auto simp: in_transaction_def split: sum.splits prod.splits)
  then obtain a c policy d1 where g: "get_action d i = Some a"
    and p: "get_or_create_default_policy (before_claim_policy no_exec_rivals) (rc_merchant_id c) (after_claim_read no_exec_rivals d) = Inr (policy, d1)"
    and t: "take_action (get_payment d (rc_payment_id c)) c a d1 = Inr (Claimed cx, d')"
    by (rule claim_action_Claimed)
  have "db_ok d1" using get_or_create_step [OF p] assms(2) db_step_ok by simp
  note res = take_action_claimed [OF t this]
  show "cx_action_id cx = i" "\<exists>a. get_action d i = Some a \<and> ra_status a = A_APPROVED"
    "\<exists>a. get_action d' i = Some a \<and> ra_status a = A_EXECUTING"
    using res g action_table.get_key [OF g] by auto
qed

lemma calls_ok_step:
  assumes step: "sys_step w s s'" and ok: "db_ok (store s)" and inv: "calls_ok s"
  shows "calls_ok s'"
proof -
  have ev: "db_evolves (store s) (store s')" using sys_step_db [OF step ok] ok db_step_evolves by blast
  have old: "\<exists>a. get_action (store s') i = Some a \<and> underway (ra_status a)" if "i \<in> set (called s)" for i
    using that inv underway_kept [OF ev] unfolding calls_ok_def by blast
  have frame: "calls_ok s'" if "called s' = called s" "set (in_flight s') \<subseteq> set (in_flight s)"
    using that inv old unfolding calls_ok_def by auto
  from step show ?thesis
  proof cases
    case (Claim i q b a r d')
    show ?thesis
    proof (cases "\<exists>cx. r = Inr (Claimed cx)")
      case True
      then obtain cx where r: "r = Inr (Claimed cx)" by blast
      note cl = claimed_action [OF Claim(6) [unfolded r] ok]
      have "a \<notin> set (called s)"
        using inv cl(2) unfolding calls_ok_def underway_def by fastforce
      moreover have "\<exists>x. get_action (store s') a = Some x \<and> underway (ra_status x)"
        using cl(3) Claim(1) by (auto simp: underway_def)
      ultimately show ?thesis
        using inv old cl(1) unfolding calls_ok_def Claim(1) r by auto
    next
      case False
      then have "start_call r x = x" for x by (cases "(r, x)" rule: start_call.cases) auto
      with Claim frame show ?thesis by simp
    qed
  qed (use frame in \<open>simp_all add: set_remove1_subset\<close>)
qed

text \<open>
  At most one external call per action, over the whole life of the system: whatever messages
  are delivered again and whatever workers crash, no action is called for twice, and every call
  that was made is that of an action the database shows as executing, executed or failed.
\<close>

theorem external_calls_at_most_once:
  assumes "start_state s" and "sys_run w s s'"
  shows "distinct (called s')
    \<and> list_all (\<lambda>i. case get_action (store s') i of None \<Rightarrow> False
         | Some a \<Rightarrow> ra_status a \<in> {A_EXECUTING, A_EXECUTED, A_FAILED}) (called s')"
proof -
  have "db_ok (store s') \<and> calls_ok s'"
    using assms(2)
  proof (induction rule: rtranclp_induct)
    case base
    then show ?case using assms(1) by (simp add: start_state_def calls_ok_def)
  next
    case (step s1 s2)
    then show ?case using calls_ok_step sys_step_db db_step_ok by blast
  qed
  then show ?thesis by (fastforce simp: calls_ok_def underway_def list_all_iff)
qed



subsection \<open>Progress\<close>

lemma dispatch_one:
  assumes "db_ok d" and "get_outbox d (ob_id b) = Some b" and "due (clock d) b" and "integer_ok (ob_attempts b + 1)"
  shows "\<exists>d'. dispatch_outbox_events st tx (\<lambda>_. Inr ()) (\<lambda>i. i \<noteq> ob_id b) (Some 1) d = ((Inr 1, d'), [b])
     \<and> d' = d\<lparr>outbox_events := outbox_events d'\<rparr> \<and> get_outbox d' (ob_id b) = Some (dispatch_event st tx (\<lambda>_. Inr ()) (clock d) b)
     \<and> map ob_id (outbox_events d') = map ob_id (outbox_events d)
     \<and> map ob_idempotency_key (outbox_events d') = map ob_idempotency_key (outbox_events d)"
proof -
  have b: "b \<in> set (outbox_events d)" using assms(2) by (auto simp: get_defs dest: get_row_SomeD)
  have same: "x = b" if "x \<in> set (outbox_events d)" "ob_id x = ob_id b" for x
    using get_row_distinct [OF db_ok_distinct(7) [OF assms(1)] that(1)] that(2) assms(2) by (simp add: get_defs)
  have "filter (\<lambda>x. due (clock d) x \<and> \<not> ob_id x \<noteq> ob_id b) (outbox_events d) = filter (\<lambda>x. ob_id x = ob_id b) (outbox_events d)"
    using assms(3) by (auto intro!: filter_cong dest: same)
  also have "\<dots> = [b]"
    using filter_key_le_1 [OF db_ok_distinct(7) [OF assms(1)]] assms(2) by (simp add: get_defs)
  finally have sel: "select_due (\<lambda>i. i \<noteq> ob_id b) 1 d = [b]" by (simp add: select_due_def)
  have chk: "outbox_row_check b = Inr ()" using b assms(1) by (auto simp: db_ok_def outbox_ok_def)
  then have "outbox_row_check (dispatch_event st tx (\<lambda>_. Inr ()) (clock d) b) = Inr ()"
    using assms(4) by (auto simp: dispatch_event_def outbox_row_check_def opt_varchar_ok_def split: if_splits)
  then obtain d' where f: "flush_outbox (dispatch_event st tx (\<lambda>_. Inr ()) (clock d) b) d = Inr d'"
    by (simp add: flush_outbox_def)
  have fr: "d' = d\<lparr>outbox_events := outbox_events d'\<rparr>" using f by (auto simp: flush_outbox_def)
  have "get_outbox d' (ob_id b) = Some (dispatch_event st tx (\<lambda>_. Inr ()) (clock d) b)"
    using flush_outbox_get [OF f] assms(2) by simp
  moreover have "map ob_id (outbox_events d') = map ob_id (outbox_events d)
     \<and> map ob_idempotency_key (outbox_events d') = map ob_idempotency_key (outbox_events d)"
    using f same by (auto simp: flush_outbox_def dispatch_event_def intro!: map_key_upd_where) metis
  ultimately show ?thesis using f fr
    by (simp add: dispatch_outbox_events_def dispatch_limit_def sel in_transaction_def dispatch_transaction_def accepted_def)
qed


text \<open>The dispatch of one due event as a step of the system.\<close>

lemma dispatch_step:
  assumes "db_ok (store s)" and "get_outbox (store s) (ob_id b) = Some b" and "due (clock (store s)) b"
    and "integer_ok (ob_attempts b + 1)"
  obtains rows b' where "sys_step w s (s\<lparr>store := (store s)\<lparr>outbox_events := rows\<rparr>, broker := broker s @ [uuid_str (ob_id b)]\<rparr>)"
    and "get_row ob_id (ob_id b) rows = Some b'" and "ob_id b' = ob_id b" "ob_event_type b' = ob_event_type b" "ob_payload b' = ob_payload b"
    and "map ob_id rows = map ob_id (outbox_events (store s))"
    and "map ob_idempotency_key rows = map ob_idempotency_key (outbox_events (store s))"
    and "db_ok ((store s)\<lparr>outbox_events := rows\<rparr>)"
proof -
  define d where "d = store s"
  obtain d1 where d1: "dispatch_outbox_events (dispatch_settings w) (broker_text w) (\<lambda>_. Inr ()) (\<lambda>i. i \<noteq> ob_id b) (Some 1) d = ((Inr 1, d1), [b])"
    "d1 = d\<lparr>outbox_events := outbox_events d1\<rparr>"
    "get_outbox d1 (ob_id b) = Some (dispatch_event (dispatch_settings w) (broker_text w) (\<lambda>_. Inr ()) (clock d) b)"
    "map ob_id (outbox_events d1) = map ob_id (outbox_events d)" "map ob_idempotency_key (outbox_events d1) = map ob_idempotency_key (outbox_events d)"
    using dispatch_one [OF assms] unfolding d_def by blast
  have "db_ok d1"
    using dispatch_outbox_events_step [OF assms(1)] d1(1) assms(1) db_step_ok unfolding d_def by (metis fst_conv snd_conv)
  moreover have "sys_step w s (s\<lparr>store := d1, broker := broker s @ map (\<lambda>b. uuid_str (ob_id b)) [b]\<rparr>)"
    by (rule Dispatch) (use d1(1) in \<open>simp add: d_def\<close>)
  moreover have "d1 = (store s)\<lparr>outbox_events := outbox_events d1\<rparr>" using d1(2) by (simp add: d_def)
  ultimately show thesis
    using d1(3-5) by (intro that [of "outbox_events d1" "dispatch_event (dispatch_settings w) (broker_text w) (\<lambda>_. Inr ()) (clock d) b"])
      (simp_all add: d_def get_defs dispatch_event_def)
qed

lemma decision_reached:
  assumes ok: "db_ok (store s)" and c: "get_case (store s) i = Some c" "rc_status c = ELIGIBLE"
    and b: "get_outbox (store s) (ob_id b) = Some b" "announces i b" "due (clock (store s)) b" "integer_ok (ob_attempts b + 1)"
    and room: "integer_ok (rc_version c + 3)"
    and none: "list_all (\<lambda>a. ra_recovery_case_id a \<noteq> i) (recovery_actions (store s))" and keys: "canonical_keys (store s)"
    and rows: "unused_rows 2 (store s)" and ids: "unused_ids 4 (store s)"
    and events: "list_all (\<lambda>n. list_all (\<lambda>b. ob_idempotency_key b \<noteq> action_scheduled_key i (uuid4 (store s) (uuid_drawn (store s) + n)))
       (outbox_events (store s))) [0..<2]"
  shows "\<exists>s' r. sys_run w s s' \<and> called s' = called s \<and> db_ok (store s')
    \<and> handled (store s) (store s') i c r \<and> follow_up (store s) (store s') c"
proof -
  obtain os b' where st: "sys_step w s (s\<lparr>store := (store s)\<lparr>outbox_events := os\<rparr>, broker := broker s @ [uuid_str (ob_id b)]\<rparr>)"
    and b': "get_row ob_id (ob_id b) os = Some b'" "ob_id b' = ob_id b" "ob_event_type b' = ob_event_type b" "ob_payload b' = ob_payload b"
    and os: "map ob_id os = map ob_id (outbox_events (store s))" "map ob_idempotency_key os = map ob_idempotency_key (outbox_events (store s))"
    and ok1: "db_ok ((store s)\<lparr>outbox_events := os\<rparr>)"
    using dispatch_step [OF ok b(1,3,4)] by metis
  define d1 where "d1 = (store s)\<lparr>outbox_events := os\<rparr>"
  define s1 where "s1 = s\<lparr>store := d1, broker := broker s @ [uuid_str (ob_id b)]\<rparr>"
  have unused: "get_outbox d1 u = None \<longleftrightarrow> get_outbox (store s) u = None" for u
    using arg_cong [OF os(1), of set] by (simp add: d1_def get_defs get_row_None_iff)
  have "set (map ob_idempotency_key os) = set (map ob_idempotency_key (outbox_events (store s)))" using os(2) by simp
  then have keyeq: "list_all (\<lambda>b. ob_idempotency_key b \<noteq> k) os = list_all (\<lambda>b. ob_idempotency_key b \<noteq> k) (outbox_events (store s))" for k
    by (auto simp: list_all_iff) (metis imageE image_eqI)+
  obtain r d2 where h: "handle_recovery_case_eligible (agent_side w) no_worker_rivals b' d1 = Inr (r, d2)"
    "handled d1 d2 i c r" "follow_up d1 d2 c"
  proof -
    have "\<exists>r d'. handle_recovery_case_eligible (agent_side w) no_worker_rivals b' d1 = Inr (r, d') \<and> handled d1 d' i c r \<and> follow_up d1 d' c"
      by (rule eligible_case_handled)
        (use ok1 c b(2) b' room none keys rows ids events unused keyeq in
          \<open>simp_all add: d1_def get_defs announces_def canonical_keys_def unused_rows_def unused_ids_def\<close>)
    with that show ?thesis by blast
  qed
  define s2 where "s2 = s1\<lparr>store := snd (process_eligible_event (agent_side w) no_worker_rivals (uuid_str (ob_id b)) (store s1)), broker := broker s1\<rparr>"
  have "sys_step w s1 s2" unfolding s2_def
    by (rule Analyse [where b = b']) (use b' b(2) in \<open>simp_all add: s1_def d1_def get_defs delivered_def message_event_def announces_def\<close>)
  with st have run: "sys_run w s s2" unfolding s1_def d1_def by (meson rtranclp.rtrancl_into_rtrancl rtranclp.rtrancl_refl)
  have d2: "store s2 = d2" "called s2 = called s"
    using h(1) b'(1) by (simp_all add: s2_def s1_def d1_def process_eligible_event_def in_transaction_def get_defs)
  have "handled (store s) d2 i c r" using h(2) by (simp add: handled_def d1_def)
  moreover have "follow_up (store s) d2 c"
    using h(3) build_policy_input_actions [of d1 "store s"] by (simp add: follow_up_def logged_def d1_def)
  moreover have "db_ok d2" using sys_run_db [OF run ok] d2(1) by simp
  ultimately show ?thesis using run d2 by blast
qed

text \<open>
  An announced case gets its decision. From every state with an eligible case whose event is
  due, the system can reach, in one dispatch and one delivery, a state in which the case is
  scheduled, stopped or escalated, provided the case is untouched and identifiers do not clash.
\<close>

theorem eligible_case_can_progress:
  assumes "db_ok (store s)" and "get_case (store s) i = Some c" "rc_status c = ELIGIBLE"
    and "get_outbox (store s) (ob_id b) = Some b" "announces i b" "due (clock (store s)) b" "integer_ok (ob_attempts b + 1)"
    and "integer_ok (rc_version c + 3)"
    and "list_all (\<lambda>a. ra_recovery_case_id a \<noteq> i) (recovery_actions (store s))" and "canonical_keys (store s)"
    and "unused_rows 2 (store s)" and "unused_ids 4 (store s)"
    and "list_all (\<lambda>n. list_all (\<lambda>b. ob_idempotency_key b \<noteq> action_scheduled_key i (uuid4 (store s) (uuid_drawn (store s) + n)))
       (outbox_events (store s))) [0..<2]"
  shows "\<exists>s' c'. sys_run w s s' \<and> get_case (store s') i = Some c' \<and> rc_version c' = rc_version c + 3
    \<and> rc_status c' \<in> {ACTION_SCHEDULED, STOPPED, ESCALATED}"
proof -
  obtain s' r where "sys_run w s s'" "handled (store s) (store s') i c r" using decision_reached [OF assms] by blast
  then show ?thesis unfolding handled_def final_status_of_def by (metis insertCI)
qed

end
