(* ===== verification/Webhook_Facts.thy ===== *)
theory Webhook_Facts
  imports Webhook_Endpoint
begin

text \<open>
  What the webhook component guarantees: a delivery is processed at most once and in one
  transaction, a capture beats a failure whatever the order of delivery, an event touches only
  the rows of its merchant, a new case always comes with its outbox event.
\<close>

subsection \<open>Tenant isolation\<close>

abbreviation isolates :: "uuid \<Rightarrow> db \<Rightarrow> ('a \<times> db) res \<Rightarrow> bool" where
  "isolates m \<equiv> keeps_rel (same_others m)"

lemmas isolates_bind = tenant_order.bind_rule

lemmas isolates_bind_db = tenant_order.bind_db_rule

lemmas isolates_return = keeps_rel_return [of "same_others m" for m]

lemma insert_audit_isolates: "insert_audit m et ei ev co pl d = Inr d' \<Longrightarrow> same_others m d d'"
  unfolding insert_audit_def Let_def case_prod_beta
  by (rule same_others_trans [OF same_others_uuid same_others_insert(7)], assumption) simp

lemma isolates_insert_audit:
  assumes "same_others m d d1" and "\<And>d2. same_others m d d2 \<Longrightarrow> isolates m d (f d2)"
  shows "isolates m d (res_bind (insert_audit m et ei ev co pl d1) f)"
  by (rule isolates_bind_db [OF insert_audit_isolates assms(1)]) (simp_all add: assms(2))

lemma insert_outbox_if_missing_isolates: "isolates m d (insert_outbox_if_missing m aty ai ev k pl d)"
proof -
  have "isolates m d (res_bind (insert_outbox b (snd (new_uuid d))) (\<lambda>d2. Inr (b, d2)))"
    if "ob_merchant_id b = m" for b
    by (rule isolates_bind_db [OF same_others_insert(6) [OF _ that] same_others_uuid]) (simp_all add: isolates_return)
  then show ?thesis
    unfolding insert_outbox_if_missing_def
    by (cases "one_or_none (filter (\<lambda>b. ob_idempotency_key b = k) (outbox_events d))")
      (simp_all add: isolates_return Let_def case_prod_beta new_outbox_event_def split: option.split)
qed

lemma isolates_outbox:
  assumes "same_others m d d1"
  shows "isolates m d (res_bind (insert_outbox_if_missing m aty ai ev k pl d1) (\<lambda>(b, d2). Inr (r, d2)))"
  by (rule isolates_bind [OF insert_outbox_if_missing_isolates assms]) (simp add: isolates_return)

lemma flush_case_isolates:
  assumes "flush_case c' d = Inr d'" and "db_ok d" and "get_case d (rc_id c') = Some c"
    and "rc_merchant_id c = m" and "rc_merchant_id c' = m"
  shows "same_others m d d'"
proof -
  from assms(1) have d': "d' = d\<lparr>recovery_cases := upd_where (\<lambda>q. rc_id q = rc_id c')
      (\<lambda>_. c'\<lparr>rc_updated_at := clock d\<rparr>) (recovery_cases d)\<rparr>"
    by (auto simp: flush_case_def)
  have "q = c" if "q \<in> set (recovery_cases d)" "rc_id q = rc_id c'" for q
    using get_row_unique [OF db_ok_distinct(3) [OF assms(2)]] assms(3) that by (simp add: get_defs)
  with assms(4,5) show ?thesis unfolding d' by (intro same_others_upd(2)) auto
qed

lemma flush_payment_isolates:
  assumes "flush_payment p d = Inr d'" and "db_ok d" and "get_payment d (pay_id p) = Some q"
    and "pay_merchant_id q = m" and "pay_merchant_id p = m"
  shows "same_others m d d'"
proof -
  from assms(1) have d': "d' = d\<lparr>payments := upd_where (\<lambda>q. pay_id q = pay_id p)
      (\<lambda>_. p\<lparr>pay_updated_at := clock d\<rparr>) (payments d)\<rparr>"
    by (auto simp: flush_payment_def)
  have "r = q" if "r \<in> set (payments d)" "pay_id r = pay_id p" for r
    using get_row_unique [OF db_ok_distinct(2) [OF assms(2)]] assms(3) that by (simp add: get_defs)
  with assms(4,5) show ?thesis unfolding d' by (intro same_others_upd(1)) auto
qed

lemma open_case_isolates:
  assumes ok: "db_ok d" and st: "stored_payment m i p d"
  shows "isolates m d (open_case m e p co d)"
proof -
  obtain u d1 where u: "new_uuid d = (u, d1)" by fastforce
  have d1: "same_others m d d1" "db_step d d1" using same_others_uuid [of m d] new_uuid_step [of d] u by simp_all
  define c where "c = new_failed_case u m p (ent_error_code e) (clock d1)"
  have c: "rc_status c = FAILED" "rc_merchant_id c = m" "rc_payment_id c = pay_id p"
    by (simp_all add: c_def new_failed_case_def)
  obtain q where q: "get_payment d1 (rc_payment_id c) = Some q" "pay_merchant_id q = rc_merchant_id c"
    using st u c by (auto simp: stored_payment_def new_uuid_def get_defs)
  have fl: "same_others m d2 d3"
    if "insert_case c d1 = Inr d2" "flush_case (c\<lparr>rc_status := ELIGIBLE, rc_version := rc_version c + 1\<rparr>) d2 = Inr d3" for d2 d3
  proof -
    have "db_ok d2" using ok d1(2) insert_case_step [OF that(1) q] db_step_ok by blast
    then show ?thesis
      using flush_case_isolates [OF that(2), of c m] case_table.get_added [OF that(1)] c(2) by simp
  qed
  show ?thesis
    unfolding open_case_def u Let_def prod.case c_def [symmetric] transition_to_eligible [OF c(1)] res_bind.simps eligible_outbox_def
    by (rule isolates_bind_db [OF same_others_insert(2) [OF _ c(2)] d1(1)], assumption,
        rule isolates_bind_db [OF fl], assumption+)
      (intro isolates_insert_audit isolates_outbox)
qed

lemma activate_case_isolates:
  assumes "db_ok d" and c: "get_case d (rc_id c) = Some c" "rc_status c = FAILED" "rc_merchant_id c = m"
  shows "isolates m d (activate_case m p c co d)"
proof -
  have fl: "same_others m d d1"
    if "flush_case (c\<lparr>rc_status := ELIGIBLE, rc_version := rc_version c + 1\<rparr>) d = Inr d1" for d1
    using flush_case_isolates [OF that assms(1), of c m] c by simp
  show ?thesis
    unfolding activate_case_def transition_to_eligible [OF c(2)] res_bind.simps eligible_outbox_def
    by (rule isolates_bind_db [OF fl same_others_refl], assumption) (intro isolates_insert_audit isolates_outbox)
qed

lemma case_of_stored_payment:
  assumes "db_ok d" and "stored_payment m i p d" and "get_recovery_case_by_payment (pay_id p) d = Inr (Some c)"
  shows "rc_merchant_id c = m"
proof -
  obtain q where q: "get_payment d (rc_payment_id c) = Some q" "pay_merchant_id q = rc_merchant_id c"
    using case_tenancy [OF assms(1) case_lookup_Some(1) [OF assms(1,3)]] by blast
  with case_lookup_Some(2) [OF assms(1,3)] assms(2) show ?thesis by (auto simp: stored_payment_def)
qed

lemma store_failed_payment_isolates:
  assumes ok: "db_ok d" and ex: "get_payment_by_provider m (ent_id e) d = Inr ex"
    and st: "store_failed_payment (\<lambda>d. d) m e a c ex d = Inr (p, d1)"
  shows "same_others m d d1"
proof (cases ex)
  case None
  with st have "insert_payment p (snd (new_uuid d)) = Inr d1" "pay_merchant_id p = m"
    by (auto simp: store_failed_payment_def Let_def case_prod_beta new_failed_payment_def)
  then show ?thesis using same_others_trans [OF same_others_uuid same_others_insert(1)] by blast
next
  case (Some q)
  note q = payment_lookup_Some [OF ex [unfolded Some]] payment_lookup_get [OF ok ex [unfolded Some]]
  from st Some have "flush_payment p d = Inr d1" "pay_id p = pay_id q" "pay_merchant_id p = pay_merchant_id q"
    by (auto simp: store_failed_payment_def Let_def)
  with flush_payment_isolates [OF _ ok, of p d1 q m] q show ?thesis by simp
qed

lemma store_captured_payment_isolates:
  assumes ok: "db_ok d" and ex: "get_payment_by_provider m (ent_id e) d = Inr ex"
    and st: "store_captured_payment (\<lambda>d. d) m e a c ex d = Inr (p, d1)"
  shows "same_others m d d1"
proof (cases ex)
  case None
  with st have "insert_payment p (snd (new_uuid d)) = Inr d1" "pay_merchant_id p = m"
    by (auto simp: store_captured_payment_def Let_def case_prod_beta new_captured_payment_def)
  then show ?thesis using same_others_trans [OF same_others_uuid same_others_insert(1)] by blast
next
  case (Some q)
  note q = payment_lookup_Some [OF ex [unfolded Some]] payment_lookup_get [OF ok ex [unfolded Some]]
  show ?thesis
  proof (cases "pay_status q = P_CAPTURED")
    case True
    with st Some show ?thesis by (auto simp: store_captured_payment_def)
  next
    case False
    with st Some have "flush_payment p d = Inr d1" "pay_id p = pay_id q" "pay_merchant_id p = pay_merchant_id q"
      by (auto simp: store_captured_payment_def Let_def)
    with flush_payment_isolates [OF _ ok, of p d1 q m] q show ?thesis by simp
  qed
qed

lemma fail_payment_isolates:
  assumes ok: "db_ok d" and ex: "get_payment_by_provider m (ent_id e) d = Inr ex"
    and nc: "\<And>q. ex = Some q \<Longrightarrow> pay_status q \<noteq> P_CAPTURED"
  shows "isolates m d (fail_payment (\<lambda>d. d) m e a c co ex d)"
proof (cases "store_failed_payment (\<lambda>d. d) m e a c ex d")
  case (Inr x)
  obtain p d1 where x: "x = (p, d1)" by (cases x)
  with Inr have st: "store_failed_payment (\<lambda>d. d) m e a c ex d = Inr (p, d1)" by simp
  note s = store_failed_payment_step [OF ok db_step_refl ex nc st]
  have ok1: "db_ok d1" using s(1) ok db_step_ok by blast
  have "isolates m d1 (activate_case m p c' co d1)"
    if "get_recovery_case_by_payment (pay_id p) d1 = Inr (Some c')" "rc_status c' = FAILED" for c'
    using activate_case_isolates [OF ok1 case_lookup_Some(1) [OF ok1 that(1)] that(2)]
      case_of_stored_payment [OF ok1 s(2) that(1)] by blast
  then have "isolates m d1 (fail_payment (\<lambda>d. d) m e a c co ex d)"
    using open_case_isolates [OF ok1 s(2)] case_lookup_eq [OF ok1]
    by (auto simp: fail_payment_def st isolates_return split: option.split)
  with store_failed_payment_isolates [OF ok ex st] show ?thesis by (rule tenant_order.trans_rule)
qed (simp add: fail_payment_def)

lemma handle_payment_failed_isolates:
  assumes "db_ok d"
  shows "isolates m d (handle_payment_failed (\<lambda>d. d) m e a c co d)"
proof (cases "get_payment_by_provider m (ent_id e) d")
  case (Inr ex)
  then show ?thesis
    using fail_payment_isolates [OF assms Inr]
    by (cases ex) (auto simp: handle_payment_failed_def isolates_return)
qed (simp add: handle_payment_failed_def)

lemma mark_case_recovered_isolates:
  assumes ok: "db_ok d" and c: "get_case d (rc_id c) = Some c" "rc_merchant_id c = m"
  shows "isolates m d (mark_case_recovered m p c co d)"
proof (cases "is_terminal (rc_status c)")
  case False
  define c' where "c' = c\<lparr>rc_status := RECOVERED, rc_version := rc_version c + 1\<rparr>"
  have t: "transition_recovery_case c RECOVERED = Inr c'"
    using False by (simp add: transition_recovery_case_Inr recovered_reachable c'_def)
  have fl: "same_others m d d1" and fs: "recovery_actions d1 = recovery_actions d"
    if "flush_case_status c' d = Inr d1" for d1
  proof -
    from that have d1: "d1 = d\<lparr>recovery_cases := upd_where (\<lambda>q. rc_id q = rc_id c')
        (\<lambda>q. q\<lparr>rc_status := rc_status c', rc_version := rc_version c', rc_updated_at := clock d\<rparr>) (recovery_cases d)\<rparr>"
      by (auto simp: flush_case_status_def split: if_splits)
    have "q = c" if "q \<in> set (recovery_cases d)" "rc_id q = rc_id c" for q
      using get_row_unique [OF db_ok_distinct(3) [OF ok]] c(1) that by (simp add: get_defs)
    with c(2) show "same_others m d d1" unfolding d1 by (intro same_others_upd(2)) (auto simp: c'_def)
    show "recovery_actions d1 = recovery_actions d" by (simp add: d1)
  qed
  have "ra_merchant_id a = m" if "a \<in> set (recovery_actions d)" "ra_recovery_case_id a = rc_id c" for a
  proof -
    have "(ra_recovery_case_id a, ra_merchant_id a) \<in> (\<lambda>c. (rc_id c, rc_merchant_id c)) ` set (recovery_cases d)"
      using ok that(1) by (simp add: db_ok_def actions_ok_def)
    then show ?thesis
      using get_row_unique [OF db_ok_distinct(3) [OF ok]] c that(2) by (fastforce simp: get_defs)
  qed
  then have ca: "same_others m d1 (cancel_open_actions (rc_id c') d1)" if "flush_case_status c' d = Inr d1" for d1
    unfolding cancel_open_actions_def update_actions_def snd_conv
    by (intro same_others_upd(3)) (auto simp: fs [OF that] c'_def)
  show ?thesis
    unfolding mark_case_recovered_def t sum.case if_not_P [OF False]
    by (rule isolates_bind_db [OF fl same_others_refl], assumption)
      (auto intro!: isolates_insert_audit isolates_outbox intro: same_others_trans [OF _ ca])
qed (simp add: mark_case_recovered_def isolates_return)

lemma handle_payment_captured_isolates:
  assumes ok: "db_ok d"
  shows "isolates m d (handle_payment_captured (\<lambda>d. d) m e a c co d)"
proof (cases "get_payment_by_provider m (ent_id e) d")
  case ex: (Inr ex)
  show ?thesis
  proof (cases "store_captured_payment (\<lambda>d. d) m e a c ex d")
    case (Inr x)
    obtain p d1 where x: "x = (p, d1)" by (cases x)
    with Inr have st: "store_captured_payment (\<lambda>d. d) m e a c ex d = Inr (p, d1)" by simp
    note s = store_captured_payment_step [OF ok db_step_refl ex st]
    have ok1: "db_ok d1" using s(1) ok db_step_ok by blast
    have "isolates m d1 (mark_case_recovered m p c' co d1)"
      if "noted_case m e d1 = Some c' \<or> get_recovery_case_by_payment (pay_id p) d1 = Inr (Some c')" for c'
      using that mark_case_recovered_isolates [OF ok1] noted_case_Some case_lookup_Some(1) [OF ok1]
        case_of_stored_payment [OF ok1 s(2)] by blast
    then have "isolates m d1 (handle_payment_captured (\<lambda>d. d) m e a c co d)"
      using case_lookup_eq [OF ok1]
      by (auto simp: handle_payment_captured_def ex st isolates_return split: option.split)
    with store_captured_payment_isolates [OF ok ex st] show ?thesis by (rule tenant_order.trans_rule)
  qed (simp add: handle_payment_captured_def ex)
qed (simp add: handle_payment_captured_def)

lemma process_razorpay_event_isolates:
  assumes "db_ok d"
  shows "isolates m d (process_razorpay_event env (\<lambda>d. d) m ev co d)"
  unfolding process_razorpay_event_def keeps_rel_def
  using handle_payment_failed_isolates [OF assms] handle_payment_captured_isolates [OF assms]
  by (auto simp: keeps_rel_def split: if_splits)

lemma flush_webhook_isolates:
  assumes "flush_webhook w d = Inr d'" and "db_ok d" and "get_webhook d (wh_id w) = Some w0"
    and "wh_merchant_id w0 = m" and "wh_merchant_id w = m"
  shows "same_others m d d'"
proof -
  from assms(1) have d': "d' = d\<lparr>webhook_events := upd_where (\<lambda>q. wh_id q = wh_id w) (\<lambda>_. w) (webhook_events d)\<rparr>"
    by (auto simp: flush_webhook_def)
  have "q = w0" if "q \<in> set (webhook_events d)" "wh_id q = wh_id w" for q
    using get_row_unique [OF db_ok_distinct(6) [OF assms(2)]] assms(3) that by (simp add: get_defs)
  with assms(4,5) show ?thesis unfolding d' by (intro same_others_upd(4)) auto
qed

lemma webhook_transaction_Inr:
  assumes "webhook_transaction env rival m pid dto co d = Inr (r, d4)"
  obtains mer row d2 st d3 where "get_merchant d m = Some mer" and "m_id mer = m" and "m_is_active mer"
    and "row = new_webhook_row (fst (new_uuid d)) m pid dto (clock d)"
    and "insert_webhook row (snd (new_uuid d)) = Inr d2"
    and "process_razorpay_event env rival m dto co d2 = Inr ((r, st), d3)"
    and "flush_webhook (row\<lparr>wh_status := st, wh_processed_at := Some (clock d3)\<rparr>) d3 = Inr d4"
proof -
  obtain u d1 where u: "new_uuid d = (u, d1)" by fastforce
  from assms obtain mer where mer: "get_merchant d m = Some mer" "m_is_active mer"
    by (auto simp: webhook_transaction_def split: option.splits if_splits)
  have m: "m_id mer = m" using mer(1) get_row_SomeD by (fastforce simp: get_defs)
  have c: "clock d1 = clock d" using u by (auto simp: new_uuid_def)
  from assms obtain d2 st d3 where "insert_webhook (new_webhook_row u m pid dto (clock d)) d1 = Inr d2"
    and "process_razorpay_event env rival m dto co d2 = Inr ((r, st), d3)"
    and "flush_webhook (new_webhook_row u m pid dto (clock d)\<lparr>wh_status := st, wh_processed_at := Some (clock d3)\<rparr>) d3 = Inr d4"
    by (auto simp: webhook_transaction_def mer m u c Let_def split: sum.splits if_splits)
  with that [OF mer(1) m mer(2) refl] u show ?thesis by simp
qed

lemma webhook_transaction_isolates:
  assumes ok: "db_ok d"
  shows "isolates m d (webhook_transaction env (\<lambda>d. d) m pid dto co d)"
proof (rule keeps_relI)
  fix r d4 assume "webhook_transaction env (\<lambda>d. d) m pid dto co d = Inr (r, d4)"
  then obtain mer row d2 st d3 where row: "row = new_webhook_row (fst (new_uuid d)) m pid dto (clock d)"
    and i: "insert_webhook row (snd (new_uuid d)) = Inr d2"
    and p: "process_razorpay_event env (\<lambda>d. d) m dto co d2 = Inr ((r, st), d3)"
    and f: "flush_webhook (row\<lparr>wh_status := st, wh_processed_at := Some (clock d3)\<rparr>) d3 = Inr d4"
    by (rule webhook_transaction_Inr)
  have wm: "wh_merchant_id row = m" by (simp add: row new_webhook_row_def)
  have "db_step d d2" using new_uuid_step insert_webhook_step [OF i] db_step_trans by blast
  then have ok2: "db_ok d2" using ok db_step_ok by blast
  have d3: "db_step d2 d3" using process_razorpay_event_step [OF ok2 db_step_refl] p by (rule keepsD)
  have ok3: "db_ok d3" using db_step_ok [OF d3 ok2] .
  have "get_webhook d2 (wh_id row) = Some row" using webhook_table.get_added [OF i] .
  then obtain w0 where w0: "get_webhook d3 (wh_id row) = Some w0" "webhook_evolves row w0"
    using webhook_history.rows_get db_step_evolves [OF d3 ok2] unfolding db_evolves_def get_defs by blast
  have "same_others m d3 d4"
    using flush_webhook_isolates [OF f ok3, of w0 m] w0 wm by (simp add: webhook_evolves_def)
  moreover have "same_others m d2 d3" using process_razorpay_event_isolates [OF ok2] p by (rule keeps_relD)
  moreover have "same_others m d d2"
    by (rule same_others_trans [OF same_others_uuid same_others_insert(5) [OF i wm]])
  ultimately show "same_others m d d4" using same_others_trans by blast
qed

text \<open>
  C6: tenant isolation. A request to the endpoint of merchant \<open>m\<close>, whatever it carries and
  whatever case its notes name, leaves every row of every other merchant as it was.
\<close>

theorem webhook_tenant_isolation:
  assumes "db_ok d"
  shows "same_others m d (snd (razorpay_webhook env (\<lambda>d. d) m body sig rid d))"
proof -
  have "same_others m d (snd (in_transaction (webhook_transaction env (\<lambda>d. d) m pid dto rid) d))" for pid dto
    using in_transaction_rel [of "same_others m" d "webhook_transaction env (\<lambda>d. d) m pid dto rid"]
      webhook_transaction_isolates [OF assms] by simp
  then show ?thesis
    by (auto simp: razorpay_webhook_def split: sum.split exc.split prod.split) (metis snd_conv)+
qed

subsection \<open>Authentication and rollback\<close>

text \<open>
  C7: a request changes the database only if it carries the right signature of its body under the
  configured, non-empty secret, and is then answered with status 200. Every other answer, and every
  exception, leaves the database as it was.
\<close>

theorem webhook_effects_authenticated:
  "snd (razorpay_webhook env rival m body sig rid d) = d
   \<or> (\<exists>ans header. fst (razorpay_webhook env rival m body sig rid d) = Inr ans \<and> status_code ans = 200
        \<and> sig = Some header \<and> razorpay_webhook_secret (web_settings env) \<noteq> []
        \<and> py_strip header = hmac_sha256_hex env (razorpay_webhook_secret (web_settings env)) body)"
proof (cases "verify_razorpay_signature env body sig")
  case (Inl e)
  then show ?thesis by (cases e) (simp_all add: razorpay_webhook_def)
next
  case (Inr u)
  then obtain header where h: "sig = Some header" "razorpay_webhook_secret (web_settings env) \<noteq> []"
    "py_strip header = hmac_sha256_hex env (razorpay_webhook_secret (web_settings env)) body"
    by (auto simp: verify_razorpay_signature_def Let_def split: if_splits option.splits list.splits)
  then show ?thesis
    unfolding razorpay_webhook_def Inr sum.case
    by (auto simp: in_transaction_def split: sum.split prod.split)
qed

subsection \<open>Redelivery\<close>

lemma process_razorpay_event_status:
  "process_razorpay_event env rival m dto co d = Inr ((r, st), d') \<Longrightarrow> obj_get r ''status'' \<noteq> JStr ''duplicate''"
  by (auto simp: process_razorpay_event_def obj_get_Cons split: if_splits)

lemma error_answer_200: "status_code (webhook_error_answer e) = 200 \<Longrightarrow> webhook_error_answer e = duplicate_answer"
  by (cases e) (simp_all add: webhook_error_answer_def rejected_def)

text \<open>
  C1: exactly-once ingestion. Once a delivery was accepted (status 200, not \<open>duplicate\<close>), every
  later delivery of the same body with the same header, whatever has happened to the database in
  between, is answered \<open>duplicate\<close> and changes nothing.
\<close>

theorem webhook_redelivery:
  assumes "db_ok d" and "\<And>d. db_step d (rival d)"
    and first: "razorpay_webhook env rival m body sig rid d = (Inr ans, d1)"
    and "status_code ans = 200" and "ans \<noteq> duplicate_answer"
    and later: "db_evolves d1 d2" "db_ok d2"
  shows "razorpay_webhook env rival' m body sig rid' d2 = (Inr duplicate_answer, d2)"
proof -
  from first assms(4) obtain u dto where v: "verify_razorpay_signature env body sig = Inr u"
    and p: "parse_razorpay_webhook env body = Inr dto"
    by (cases "verify_razorpay_signature env body sig"; cases "parse_razorpay_webhook env body")
      (auto simp: razorpay_webhook_def rejected_def split: exc.splits)
  let ?pid = "extract_provider_event_id env dto body"
  have err: "ans \<noteq> webhook_error_answer e" for e using error_answer_200 [of e] assms(4,5) by metis
  from first v p err obtain r where t: "webhook_transaction env rival m ?pid dto rid d = Inr (r, d1)"
    by (auto simp: razorpay_webhook_def in_transaction_def split: sum.splits prod.splits)
  then obtain mer row d0 st d3 where mer: "get_merchant d m = Some mer" "m_id mer = m" "m_is_active mer"
    and row: "row = new_webhook_row (fst (new_uuid d)) m ?pid dto (clock d)"
    and i: "insert_webhook row (snd (new_uuid d)) = Inr d0"
    and pe: "process_razorpay_event env rival m dto rid d0 = Inr ((r, st), d3)"
    and f: "flush_webhook (row\<lparr>wh_status := st, wh_processed_at := Some (clock d3)\<rparr>) d3 = Inr d1"
    by (rule webhook_transaction_Inr)
  have s0: "db_step d d0" using new_uuid_step insert_webhook_step [OF i] db_step_trans by blast
  then have ok0: "db_ok d0" using assms(1) db_step_ok by blast
  have s3: "db_step d0 d3" using process_razorpay_event_step [OF ok0 assms(2)] pe by (rule keepsD)
  have s1: "db_step d3 d1"
    using flush_webhook_own_step [OF i db_step_evolves [OF s3 ok0] db_step_ok [OF s3 ok0] f] .
  have "db_evolves d0 d2"
    using later(1) db_step_evolves [OF db_step_trans [OF s3 s1] ok0] db_evolves_trans by blast
  moreover have "get_webhook d0 (wh_id row) = Some row" using webhook_table.get_added [OF i] .
  ultimately obtain w where w: "get_webhook d2 (wh_id row) = Some w" "webhook_evolves row w"
    using webhook_history.rows_get unfolding db_evolves_def get_defs by blast
  have "w \<in> set (webhook_events d2)" using w(1) get_row_SomeD by (fastforce simp: get_defs)
  then have "list_ex (\<lambda>q. wh_provider q = ''razorpay'' \<and> wh_provider_event_id q = ?pid) (webhook_events d2)"
    using w(2) by (auto simp: list_ex_iff webhook_evolves_def row new_webhook_row_def)
  moreover have "webhook_row_check row = Inr ()" using i by (simp add: insert_webhook_def)
  then have "webhook_row_check (new_webhook_row x m ?pid dto y) = Inr ()" for x y
    by (simp add: row new_webhook_row_def webhook_row_check_def split: if_splits)
  ultimately have "insert_webhook (new_webhook_row x m ?pid dto y) (snd (new_uuid d2)) = Inl IntegrityError" for x y
    by (simp add: insert_webhook_def new_uuid_def) (simp add: new_webhook_row_def)
  moreover have "get_merchant d2 m = Some mer"
    using mer(1) db_step_evolves [OF db_step_trans [OF s0 db_step_trans [OF s3 s1]] assms(1)] later(1)
    by (simp add: db_evolves_def get_defs)
  ultimately have "webhook_transaction env rival' m ?pid dto rid' d2 = Inl DuplicateWebhookError"
    using mer(2,3) by (simp add: webhook_transaction_def Let_def case_prod_beta)
  then show ?thesis
    by (simp add: razorpay_webhook_def v p in_transaction_def webhook_error_answer_def)
qed

subsection \<open>Order of delivery\<close>

lemma payment_by_provider_unique:
  assumes "db_ok d" and "q \<in> set (payments d)" and "pay_provider q = ''razorpay''"
  shows "get_payment_by_provider (pay_merchant_id q) (pay_provider_payment_id q) d = Inr (Some q)"
proof -
  let ?k = "\<lambda>p. (pay_merchant_id p, pay_provider p, pay_provider_payment_id p)"
  have dist: "distinct (map ?k (payments d))" using assms(1) by (simp add: db_ok_def payments_ok_def)
  have "filter (\<lambda>p. ?k p = ?k q) (payments d) = [q]"
    using filter_key_le_1 [OF dist, of "?k q"] get_row_distinct [OF dist assms(2)] by simp
  then show ?thesis using assms(3) by (simp add: get_payment_by_provider_def one_or_none_def)
qed

lemma handle_payment_captured_Inr:
  assumes ok: "db_ok d" and rv: "\<And>d. db_step d (rival d)"
    and run: "handle_payment_captured rival m e a c co d = Inr (r, d')"
  shows "\<exists>q. q \<in> set (payments d') \<and> pay_merchant_id q = m \<and> pay_provider q = ''razorpay''
    \<and> pay_provider_payment_id q = ent_id e \<and> pay_status q = P_CAPTURED"
proof -
  from run obtain ex p d1 where ex: "get_payment_by_provider m (ent_id e) d = Inr ex"
    and st: "store_captured_payment rival m e a c ex d = Inr (p, d1)"
    by (auto simp: handle_payment_captured_def)
  note s = store_captured_payment_step [OF ok rv ex st]
  have ok1: "db_ok d1" using s(1) ok db_step_ok by blast
  have "keeps d1 (handle_payment_captured rival m e a c co d)"
    using mark_case_recovered_step noted_case_Some(1) case_lookup_Some(1) [OF ok1] case_lookup_eq [OF ok1]
    by (auto simp: handle_payment_captured_def ex st keeps_return split: option.split)
  then have "db_step d1 d'" using run by (rule keepsD)
  then have ev: "db_evolves d1 d'" using ok1 db_step_evolves by blast
  from s(2,3) obtain q where q: "get_payment d1 (pay_id p) = Some q" "pay_merchant_id q = m" "pay_provider q = ''razorpay''"
    "pay_provider_payment_id q = ent_id e" "pay_status q = P_CAPTURED"
    by (auto simp: stored_payment_def)
  from db_evolves_payment [OF ev q(1)] q(5) have "get_payment d' (pay_id p) = Some q"
    by (auto simp: payment_evolves_def)
  then have "q \<in> set (payments d')" using get_row_SomeD by (fastforce simp: get_defs)
  with q show ?thesis by blast
qed

text \<open>
  C18: a capture beats a failure, whatever the order of delivery. Once a captured event of a payment
  was handled, a failed event of the same payment that arrives later is ignored: it changes
  nothing, in particular it opens no case.
\<close>

theorem capture_before_failure:
  assumes "db_ok d" and "\<And>d. db_step d (rival d)"
    and "handle_payment_captured rival m e a c co d = Inr (r, d1)"
    and later: "db_evolves d1 d2" "db_ok d2" and same: "ent_id e' = ent_id e"
  shows "\<exists>pid. handle_payment_failed rival' m e' a' c' co' d2
      = Inr ([(''outcome'', JStr ''ignored_already_captured''), (''payment_id'', JStr pid)], d2)"
proof -
  obtain q where q: "q \<in> set (payments d1)" "pay_merchant_id q = m" "pay_provider q = ''razorpay''"
    "pay_provider_payment_id q = ent_id e" "pay_status q = P_CAPTURED"
    using handle_payment_captured_Inr [OF assms(1,2,3)] by blast
  from later(1) q(1,5) have "q \<in> set (payments d2)"
    unfolding db_evolves_def using payment_history.rows_mem by (metis payment_evolves_def)
  from payment_by_provider_unique [OF later(2) this q(3)] q same show ?thesis
    by (simp add: handle_payment_failed_def)
qed

lemma insert_audit_frame:
  "insert_audit m et ei ev co pl d = Inr d' \<Longrightarrow> recovery_cases d' = recovery_cases d
     \<and> recovery_actions d' = recovery_actions d \<and> payments d' = payments d \<and> outbox_events d' = outbox_events d"
  by (auto simp: insert_audit_def Let_def case_prod_beta new_uuid_def dest!: insert_Inr(7))

lemma insert_outbox_if_missing_frame:
  assumes "insert_outbox_if_missing m aty ai ev k pl d = Inr (b, d')"
  shows "recovery_cases d' = recovery_cases d \<and> recovery_actions d' = recovery_actions d \<and> payments d' = payments d"
    and "b \<in> set (outbox_events d') \<and> ob_idempotency_key b = k"
    and "b \<notin> set (outbox_events d) \<Longrightarrow> ob_event_type b = ev \<and> ob_payload b = pl \<and> ob_status b = O_PENDING"
proof -
  from assms obtain x where x: "one_or_none (filter (\<lambda>b. ob_idempotency_key b = k) (outbox_events d)) = Inr x"
    unfolding insert_outbox_if_missing_def res_bind_Inr by blast
  have "recovery_cases d' = recovery_cases d \<and> recovery_actions d' = recovery_actions d \<and> payments d' = payments d
      \<and> b \<in> set (outbox_events d') \<and> ob_idempotency_key b = k
      \<and> (b \<notin> set (outbox_events d) \<longrightarrow> ob_event_type b = ev \<and> ob_payload b = pl \<and> ob_status b = O_PENDING)"
  proof (cases x)
    case None
    with assms x show ?thesis
      by (auto simp: insert_outbox_if_missing_def Let_def case_prod_beta new_uuid_def new_outbox_event_def
          dest!: insert_Inr(6))
  next
    case (Some y)
    then have "y \<in> set (outbox_events d)" "ob_idempotency_key y = k" using x one_or_none_filter by fastforce+
    with assms x Some show ?thesis by (simp add: insert_outbox_if_missing_def)
  qed
  then show "recovery_cases d' = recovery_cases d \<and> recovery_actions d' = recovery_actions d \<and> payments d' = payments d"
    and "b \<in> set (outbox_events d') \<and> ob_idempotency_key b = k"
    and "b \<notin> set (outbox_events d) \<Longrightarrow> ob_event_type b = ev \<and> ob_payload b = pl \<and> ob_status b = O_PENDING"
    by simp_all
qed

lemma mark_case_recovered_Inr:
  assumes nt: "\<not> is_terminal (rc_status c)" and run: "mark_case_recovered m p c co d = Inr (r, d')"
  obtains d1 b where
    "d1 = d\<lparr>recovery_cases := upd_where (\<lambda>q. rc_id q = rc_id c)
      (\<lambda>q. q\<lparr>rc_status := RECOVERED, rc_version := rc_version c + 1, rc_updated_at := clock d\<rparr>) (recovery_cases d)\<rparr>"
    and "recovery_cases d' = recovery_cases d1"
    and "recovery_actions d' = recovery_actions (cancel_open_actions (rc_id c) d1)"
    and "b \<in> set (outbox_events d')" and "ob_idempotency_key b = recovered_key (rc_id c)"
proof -
  define c1 where "c1 = c\<lparr>rc_status := RECOVERED, rc_version := rc_version c + 1\<rparr>"
  have t: "transition_recovery_case c RECOVERED = Inr c1"
    using nt by (simp add: transition_recovery_case_Inr recovered_reachable c1_def)
  have i: "rc_id c1 = rc_id c" by (simp add: c1_def)
  from run obtain d1 d2 b where fl: "flush_case_status c1 d = Inr d1"
    and au: "insert_audit m ''recovery_case'' (uuid_str (rc_id c)) ''recovery_case.recovered'' co
          [(''payment_id'', JStr (uuid_str (pay_id p))), (''provider_payment_id'', JStr (pay_provider_payment_id p)),
           (''to_status'', JStr (recovery_case_status_value RECOVERED))] (cancel_open_actions (rc_id c) d1) = Inr d2"
    and ob: "insert_outbox_if_missing m ''recovery_case'' (uuid_str (rc_id c)) ''recovery_case.recovered''
          (recovered_key (rc_id c)) [(''merchant_id'', JStr (uuid_str m)), (''payment_id'', JStr (uuid_str (pay_id p))),
           (''recovery_case_id'', JStr (uuid_str (rc_id c)))] d2 = Inr (b, d')"
    unfolding mark_case_recovered_def t sum.case if_not_P [OF nt] res_bind_Inr i by auto
  have "d1 = d\<lparr>recovery_cases := upd_where (\<lambda>q. rc_id q = rc_id c)
      (\<lambda>q. q\<lparr>rc_status := RECOVERED, rc_version := rc_version c + 1, rc_updated_at := clock d\<rparr>) (recovery_cases d)\<rparr>"
    using fl by (auto simp: flush_case_status_def c1_def split: if_splits)
  moreover have "recovery_cases (cancel_open_actions (rc_id c) d1) = recovery_cases d1"
    by (simp add: cancel_open_actions_def update_actions_def)
  ultimately show ?thesis
    using that insert_audit_frame [OF au] insert_outbox_if_missing_frame [OF ob] by metis
qed

text \<open>
  What a capture does to the case: it is \<open>RECOVERED\<close>, its open actions are cancelled, so that
  no pending or approved action of the case is left, and the event that announces the recovery is in
  the outbox, all in the same transaction.
\<close>

theorem capture_closes_case:
  assumes "\<not> is_terminal (rc_status c)" and "get_case d (rc_id c) = Some c"
    and "mark_case_recovered m p c co d = Inr (r, d')"
  shows "(\<exists>c'. get_case d' (rc_id c) = Some c' \<and> rc_status c' = RECOVERED \<and> rc_version c' = rc_version c + 1)
    \<and> (\<forall>a \<in> set (recovery_actions d'). ra_recovery_case_id a = rc_id c \<longrightarrow> ra_status a \<notin> {A_PENDING, A_APPROVED})
    \<and> (\<exists>b \<in> set (outbox_events d'). ob_idempotency_key b = recovered_key (rc_id c))"
proof -
  obtain d1 b where d1: "d1 = d\<lparr>recovery_cases := upd_where (\<lambda>q. rc_id q = rc_id c)
      (\<lambda>q. q\<lparr>rc_status := RECOVERED, rc_version := rc_version c + 1, rc_updated_at := clock d\<rparr>) (recovery_cases d)\<rparr>"
    and f: "recovery_cases d' = recovery_cases d1" "recovery_actions d' = recovery_actions (cancel_open_actions (rc_id c) d1)"
    and b: "b \<in> set (outbox_events d')" "ob_idempotency_key b = recovered_key (rc_id c)"
    using mark_case_recovered_Inr [OF assms(1,3)] by blast
  have "get_case d' (rc_id c) = map_option (\<lambda>q. if rc_id q = rc_id c then
      q\<lparr>rc_status := RECOVERED, rc_version := rc_version c + 1, rc_updated_at := clock d\<rparr> else q) (get_case d (rc_id c))"
    by (simp add: get_defs f(1) d1 get_row_upd_where)
  moreover have "\<forall>a \<in> set (recovery_actions d'). ra_recovery_case_id a = rc_id c \<longrightarrow> ra_status a \<notin> {A_PENDING, A_APPROVED}"
    by (auto simp: f(2) cancel_open_actions_def update_actions_def set_upd_where)
  ultimately show ?thesis using assms(2) b by auto
qed

subsection \<open>The unguarded write of the captured path\<close>

text \<open>
  C28: the handler of a captured payment moves the case it read in memory and writes it back without
  comparing status or version. If a worker has moved the case to \<open>STOPPED\<close> or \<open>ESCALATED\<close> since
  the read, the write still succeeds and takes the case out of its terminal state, with a version
  number counted from the stale read.
\<close>

theorem stale_capture_overwrites_terminal:
  assumes "\<not> is_terminal (rc_status c)" and "get_case d (rc_id c) = Some now" and "is_terminal (rc_status now)"
    and "mark_case_recovered m p c co d = Inr (r, d')"
  shows "\<exists>c'. get_case d' (rc_id c) = Some c' \<and> rc_status c' = RECOVERED \<and> rc_version c' = rc_version c + 1"
proof -
  obtain d1 where d1: "d1 = d\<lparr>recovery_cases := upd_where (\<lambda>q. rc_id q = rc_id c)
      (\<lambda>q. q\<lparr>rc_status := RECOVERED, rc_version := rc_version c + 1, rc_updated_at := clock d\<rparr>) (recovery_cases d)\<rparr>"
    and f: "recovery_cases d' = recovery_cases d1"
    using mark_case_recovered_Inr [OF assms(1,4)] by blast
  have "get_case d' (rc_id c) = map_option (\<lambda>q. if rc_id q = rc_id c then
      q\<lparr>rc_status := RECOVERED, rc_version := rc_version c + 1, rc_updated_at := clock d\<rparr> else q) (get_case d (rc_id c))"
    by (simp add: get_defs f d1 get_row_upd_where)
  with assms(2) case_table.get_key [OF assms(2)] show ?thesis by simp
qed

text \<open>
  C29: two first deliveries about the same payment that overlap. If another transaction stores the
  payment between the lookup and the insert of a captured event, the insert violates the unique
  constraint, the whole delivery is rolled back and the provider is told \<open>duplicate\<close> with status
  200, although the event was never processed and is in no table.
\<close>

theorem conflicting_capture_is_dropped:
  assumes "verify_razorpay_signature env body sig = Inr ()" and "parse_razorpay_webhook env body = Inr dto"
    and "rw_event dto = ''payment.captured''" and "extract_payment_entity env dto = Inr e"
    and "normalize_currency (JStr (ent_currency e)) = Inr cur" and "0 \<le> ent_amount e"
    and "get_merchant d m = Some mer" and "m_is_active mer"
    and w: "insert_webhook (new_webhook_row (fst (new_uuid d)) m (extract_provider_event_id env dto body) dto (clock d))
          (snd (new_uuid d)) = Inr d2"
    and "get_payment_by_provider m (ent_id e) d2 = Inr None"
    and rival: "get_payment_by_provider m (ent_id e) (rival d2) = Inr (Some q)"
    and wid: "payment_row_check (new_captured_payment (fst (new_uuid (rival d2))) m e (ent_amount e) cur (clock (rival d2))) = Inr ()"
  shows "razorpay_webhook env rival m body sig rid d = (Inr duplicate_answer, d)"
proof -
  have mid: "m_id mer = m" using assms(7) get_row_SomeD by (fastforce simp: get_defs)
  have clk: "clock (snd (new_uuid x)) = clock x" for x by (simp add: new_uuid_def)
  have "list_ex (\<lambda>x. pay_merchant_id x = m \<and> pay_provider x = ''razorpay'' \<and> pay_provider_payment_id x = ent_id e)
      (payments (snd (new_uuid (rival d2))))"
    using payment_lookup_Some [OF rival] by (auto simp: list_ex_iff new_uuid_def)
  then have "insert_payment (new_captured_payment (fst (new_uuid (rival d2))) m e (ent_amount e) cur (clock (rival d2)))
      (snd (new_uuid (rival d2))) = Inl IntegrityError"
    using wid by (simp add: insert_payment_def) (simp add: new_captured_payment_def)
  then have "handle_payment_captured rival m e (ent_amount e) cur rid d2 = Inl IntegrityError"
    using assms(10) by (simp add: handle_payment_captured_def store_captured_payment_def Let_def case_prod_beta clk)
  then have "process_razorpay_event env rival m dto rid d2 = Inl IntegrityError"
    using assms(3-6) by (simp add: process_razorpay_event_def SUPPORTED_EVENTS_def validate_amount_minor_def)
  then have "webhook_transaction env rival m (extract_provider_event_id env dto body) dto rid d = Inl IntegrityError"
    using assms(7,8) w by (simp add: webhook_transaction_def Let_def case_prod_beta mid clk)
  then show ?thesis
    using assms(1,2) by (simp add: razorpay_webhook_def in_transaction_def webhook_error_answer_def)
qed

end
