(* ===== verification/Simulation.thy ===== *)
theory Simulation
  imports Recovery_Engine Policy
begin

text \<open>
  The offline experiment, \<^verbatim>\<open>src/app/simulation/*.py\<close>: a synthetic population, two strategies, and
  their results under simulated recovery probabilities. Floats are rationals. The pseudo-random
  generator of the standard library is a record of its four operations on an abstract state; what
  its documentation promises is \<open>rng_ok\<close>.
\<close>

subsection \<open>Random numbers\<close>

record 's rng =
  rng_random :: "'s \<Rightarrow> rat \<times> 's"
  rng_randint :: "int \<Rightarrow> int \<Rightarrow> 's \<Rightarrow> int \<times> 's"
  rng_choice :: "string \<Rightarrow> 's \<Rightarrow> char \<times> 's"
  rng_choices :: "string list \<Rightarrow> rat list \<Rightarrow> 's \<Rightarrow> string \<times> 's"

definition rng_ok :: "'s rng \<Rightarrow> bool" where
  "rng_ok g \<longleftrightarrow>
     (\<forall>s. 0 \<le> fst (rng_random g s) \<and> fst (rng_random g s) < 1)
     \<and> (\<forall>a b s. a \<le> b \<longrightarrow> a \<le> fst (rng_randint g a b s) \<and> fst (rng_randint g a b s) \<le> b)
     \<and> (\<forall>cs s. cs \<noteq> [] \<longrightarrow> fst (rng_choice g cs s) \<in> set cs)
     \<and> (\<forall>xs ws s. xs \<noteq> [] \<and> length ws = length xs \<longrightarrow> fst (rng_choices g xs ws s) \<in> set xs)"

subsection \<open>Population\<close>

record simulated_payment =
  sp_payment_id :: string
  sp_merchant_id :: string
  sp_amount_minor :: int
  sp_currency :: string
  sp_failure_category :: string

definition FAILURE_CATEGORY_WEIGHTS :: "(string \<times> rat) list" where
  "FAILURE_CATEGORY_WEIGHTS =
     [(''expired_instrument'', 25 / 100), (''insufficient_funds'', 30 / 100),
      (''temporary_network'', 20 / 100), (''issuer_failure'', 15 / 100), (''unknown'', 10 / 100)]"

definition FAILURE_CATEGORIES :: "string list" where
  "FAILURE_CATEGORIES = map fst FAILURE_CATEGORY_WEIGHTS"

definition CATEGORY_WEIGHTS :: "rat list" where
  "CATEGORY_WEIGHTS = map snd FAILURE_CATEGORY_WEIGHTS"

fun random_hex_id :: "'s rng \<Rightarrow> nat \<Rightarrow> 's \<Rightarrow> string \<times> 's" where
  "random_hex_id g 0 s = ([], s)"
| "random_hex_id g (Suc n) s =
     (let (c, s1) = rng_choice g ''0123456789abcdef'' s; (cs, s2) = random_hex_id g n s1 in (c # cs, s2))"

definition random_amount_minor :: "'s rng \<Rightarrow> 's \<Rightarrow> int \<times> 's" where
  "random_amount_minor g s =
     (let (bucket, s1) = rng_random g s in
      if bucket < 70 / 100 then rng_randint g 10000 500000 s1
      else if bucket < 90 / 100 then rng_randint g 500000 2000000 s1
      else if bucket < 98 / 100 then rng_randint g 2000000 10000000 s1
      else rng_randint g 10000000 50000000 s1)"

text \<open>One round of the loop. The keyword arguments are evaluated in the order they are written.\<close>

definition random_payment :: "'s rng \<Rightarrow> string \<Rightarrow> 's \<Rightarrow> simulated_payment \<times> 's" where
  "random_payment g merchant_id s =
     (let (category, s1) = rng_choices g FAILURE_CATEGORIES CATEGORY_WEIGHTS s;
          (pid, s2) = random_hex_id g 12 s1;
          (amount, s3) = random_amount_minor g s2
      in (\<lparr>sp_payment_id = ''pay_sim_'' @ pid, sp_merchant_id = merchant_id, sp_amount_minor = amount,
           sp_currency = ''INR'', sp_failure_category = category\<rparr>, s3))"

fun random_payments :: "'s rng \<Rightarrow> string \<Rightarrow> nat \<Rightarrow> 's \<Rightarrow> simulated_payment list" where
  "random_payments g merchant_id 0 s = []"
| "random_payments g merchant_id (Suc n) s =
     (let (p, s1) = random_payment g merchant_id s in p # random_payments g merchant_id n s1)"

definition generate_population :: "'s rng \<Rightarrow> int \<Rightarrow> 's \<Rightarrow> string option \<Rightarrow> simulated_payment list" where
  "generate_population g size_n seed merchant_id =
     (case merchant_id of
        None \<Rightarrow> (let (h, s1) = random_hex_id g 12 seed in random_payments g (''merchant_sim_'' @ h) (nat size_n) s1)
      | Some m \<Rightarrow> random_payments g m (nat size_n) seed)"

subsection \<open>Strategies\<close>

definition baseline_decide :: "simulated_payment \<Rightarrow> recovery_action_type" where
  "baseline_decide p = SEND_REMINDER"

definition DEFAULT_SIMULATION_POLICY :: policy_limits where
  "DEFAULT_SIMULATION_POLICY =
     \<lparr>max_actions_per_case = 3, max_reminders_per_case = 2, one_active_payment_link = True,
      high_value_escalation_enabled = True, high_value_threshold_minor = 5000000\<rparr>"

definition recoverai_decide :: "simulated_payment \<Rightarrow> policy_limits option \<Rightarrow> recovery_action_type" where
  "recoverai_decide p policy_limits =
     (let limits = (case policy_limits of None \<Rightarrow> DEFAULT_SIMULATION_POLICY | Some l \<Rightarrow> l);
          engine_decision = evaluate_recovery (sp_amount_minor p) (Some (sp_failure_category p));
          policy_input = \<lparr>pi_case_status = ANALYSING, pi_amount_minor = sp_amount_minor p,
            pi_candidate_action = rd_action engine_decision, pi_total_action_count = 0,
            pi_reminder_count = 0, pi_active_payment_link_count = 0\<rparr>
      in pd_final_action (evaluate_policy limits policy_input (rd_delay_hours engine_decision)))"

subsection \<open>Outcomes\<close>

text \<open>
  The table of probabilities is a global of its module, which a lab changes between two runs. So the
  functions that read it take it as an argument; \<open>SIMULATED_RECOVERY_PROBABILITIES\<close> is its initial value.
\<close>

type_synonym probability_table = "(string \<times> (string \<times> rat) list) list"

definition SIMULATED_RECOVERY_PROBABILITIES :: probability_table where
  "SIMULATED_RECOVERY_PROBABILITIES =
     [(''expired_instrument'',
        [(''CREATE_PAYMENT_LINK'', 45 / 100), (''SEND_REMINDER'', 25 / 100), (''WAIT'', 15 / 100),
         (''ESCALATE'', 50 / 100), (''STOP'', 0)]),
      (''insufficient_funds'',
        [(''WAIT'', 35 / 100), (''SEND_REMINDER'', 20 / 100), (''CREATE_PAYMENT_LINK'', 15 / 100),
         (''ESCALATE'', 45 / 100), (''STOP'', 0)]),
      (''temporary_network'',
        [(''SEND_REMINDER'', 40 / 100), (''WAIT'', 30 / 100), (''CREATE_PAYMENT_LINK'', 20 / 100),
         (''ESCALATE'', 40 / 100), (''STOP'', 0)]),
      (''issuer_failure'',
        [(''ESCALATE'', 55 / 100), (''WAIT'', 10 / 100), (''SEND_REMINDER'', 5 / 100),
         (''CREATE_PAYMENT_LINK'', 5 / 100), (''STOP'', 0)]),
      (''unknown'',
        [(''WAIT'', 10 / 100), (''SEND_REMINDER'', 8 / 100), (''CREATE_PAYMENT_LINK'', 5 / 100),
         (''ESCALATE'', 35 / 100), (''STOP'', 0)])]"

definition SIMULATED_TIME_TO_RECOVERY_HOURS :: "(string \<times> rat) list" where
  "SIMULATED_TIME_TO_RECOVERY_HOURS =
     [(''SEND_REMINDER'', 1), (''CREATE_PAYMENT_LINK'', 2), (''WAIT'', 24), (''ESCALATE'', 48), (''STOP'', 0)]"

definition SIMULATED_CONTACT_COUNT :: "(string \<times> int) list" where
  "SIMULATED_CONTACT_COUNT =
     [(''SEND_REMINDER'', 1), (''CREATE_PAYMENT_LINK'', 1), (''WAIT'', 0), (''ESCALATE'', 0), (''STOP'', 0)]"

definition get_recovery_probability :: "probability_table \<Rightarrow> string \<Rightarrow> string \<Rightarrow> rat" where
  "get_recovery_probability table failure_category action_type =
     (case map_of table failure_category of
        None \<Rightarrow> 0
      | Some probs \<Rightarrow> (case map_of probs action_type of None \<Rightarrow> 0 | Some x \<Rightarrow> x))"

definition simulate_outcome :: "'s rng \<Rightarrow> probability_table \<Rightarrow> string \<Rightarrow> string \<Rightarrow> 's \<Rightarrow> bool \<times> 's" where
  "simulate_outcome g table failure_category action_type s =
     (let (x, s1) = rng_random g s in (x < get_recovery_probability table failure_category action_type, s1))"

definition get_time_to_recovery_hours :: "string \<Rightarrow> rat" where
  "get_time_to_recovery_hours action_type =
     (case map_of SIMULATED_TIME_TO_RECOVERY_HOURS action_type of None \<Rightarrow> 0 | Some x \<Rightarrow> x)"

definition get_contact_count :: "string \<Rightarrow> int" where
  "get_contact_count action_type =
     (case map_of SIMULATED_CONTACT_COUNT action_type of None \<Rightarrow> 0 | Some n \<Rightarrow> n)"

subsection \<open>The experiment\<close>

record strategy_result =
  strategy_name :: string
  total_cases :: int
  recovered_cases :: int
  total_amount_at_risk_minor :: int
  recovered_amount_minor :: int
  total_contacts :: int
  total_time_to_recovery_hours :: rat
  action_counts :: "(string \<times> int) list"

definition new_strategy_result :: "string \<Rightarrow> strategy_result" where
  "new_strategy_result name =
     \<lparr>strategy_name = name, total_cases = 0, recovered_cases = 0, total_amount_at_risk_minor = 0,
      recovered_amount_minor = 0, total_contacts = 0, total_time_to_recovery_hours = 0, action_counts = []\<rparr>"

definition recovery_rate :: "strategy_result \<Rightarrow> rat" where
  "recovery_rate r = (if total_cases r = 0 then 0 else of_int (recovered_cases r) / of_int (total_cases r))"

definition avg_time_to_recovery_hours :: "strategy_result \<Rightarrow> rat" where
  "avg_time_to_recovery_hours r =
     (if recovered_cases r = 0 then 0 else total_time_to_recovery_hours r / of_int (recovered_cases r))"

definition contacts_per_case :: "strategy_result \<Rightarrow> rat" where
  "contacts_per_case r = (if total_cases r = 0 then 0 else of_int (total_contacts r) / of_int (total_cases r))"

text \<open>\<open>counts[k] = counts.get(k, 0) + 1\<close>\<close>

fun incr_count :: "string \<Rightarrow> (string \<times> int) list \<Rightarrow> (string \<times> int) list" where
  "incr_count k [] = [(k, 1)]"
| "incr_count k ((k', n) # rest) = (if k' = k then (k', n + 1) # rest else (k', n) # incr_count k rest)"

text \<open>One payment under one strategy; the code does this twice per round of its loop.\<close>

definition run_case ::
  "'s rng \<Rightarrow> probability_table \<Rightarrow> recovery_action_type \<Rightarrow> simulated_payment \<Rightarrow> strategy_result \<times> 's
     \<Rightarrow> strategy_result \<times> 's" where
  "run_case g table action p acc =
     (let (r, s) = acc;
          value = recovery_action_type_value action;
          r1 = r\<lparr>total_cases := total_cases r + 1,
                 total_amount_at_risk_minor := total_amount_at_risk_minor r + sp_amount_minor p,
                 action_counts := incr_count value (action_counts r)\<rparr>;
          (recovered, s1) = simulate_outcome g table (sp_failure_category p) value s;
          r2 = r1\<lparr>total_contacts := total_contacts r1 + get_contact_count value\<rparr>
      in (if recovered
          then r2\<lparr>recovered_cases := recovered_cases r2 + 1,
                  recovered_amount_minor := recovered_amount_minor r2 + sp_amount_minor p,
                  total_time_to_recovery_hours :=
                    total_time_to_recovery_hours r2 + get_time_to_recovery_hours value\<rparr>
          else r2, s1))"

definition run_experiment ::
  "'s rng \<Rightarrow> probability_table \<Rightarrow> simulated_payment list \<Rightarrow> 's \<Rightarrow> strategy_result \<times> strategy_result" where
  "run_experiment g table population seed =
     (let (b, r) = fold (\<lambda>p (b, r).
                (run_case g table (baseline_decide p) p b, run_case g table (recoverai_decide p None) p r))
            population ((new_strategy_result ''Baseline'', seed), (new_strategy_result ''RecoverAI'', seed))
      in (fst b, fst r))"

definition calculate_incremental_recovered_revenue :: "strategy_result \<Rightarrow> strategy_result \<Rightarrow> int" where
  "calculate_incremental_recovered_revenue baseline recoverai =
     recovered_amount_minor recoverai - recovered_amount_minor baseline"

subsection \<open>Facts\<close>

lemma random_amount_ok:
  assumes "rng_ok g"
  shows "10000 \<le> fst (random_amount_minor g s) \<and> fst (random_amount_minor g s) \<le> 50000000"
proof -
  have r: "a \<le> b \<Longrightarrow> a \<le> fst (rng_randint g a b t) \<and> fst (rng_randint g a b t) \<le> b" for a b t
    using assms by (simp add: rng_ok_def)
  obtain x s1 where x: "rng_random g s = (x, s1)" by fastforce
  have "10000 \<le> fst (rng_randint g a b s1) \<and> fst (rng_randint g a b s1) \<le> 50000000"
    if "10000 \<le> a" "a \<le> b" "b \<le> 50000000" for a b
    using r [OF that(2), of s1] that by linarith
  then show ?thesis by (simp add: random_amount_minor_def x)
qed

lemma random_payment_ok:
  assumes "rng_ok g"
  shows "10000 \<le> sp_amount_minor (fst (random_payment g m s)) \<and> sp_amount_minor (fst (random_payment g m s)) \<le> 50000000
    \<and> sp_failure_category (fst (random_payment g m s)) \<in> set FAILURE_CATEGORIES"
proof -
  have "fst (rng_choices g FAILURE_CATEGORIES CATEGORY_WEIGHTS t) \<in> set FAILURE_CATEGORIES" for t
  proof -
    have "FAILURE_CATEGORIES \<noteq> []" "length CATEGORY_WEIGHTS = length FAILURE_CATEGORIES"
      by (simp_all add: FAILURE_CATEGORIES_def CATEGORY_WEIGHTS_def FAILURE_CATEGORY_WEIGHTS_def)
    with assms show ?thesis by (simp add: rng_ok_def)
  qed
  then show ?thesis
    using random_amount_ok [OF assms] by (simp add: random_payment_def Let_def case_prod_beta)
qed

lemma random_payments_ok:
  assumes "rng_ok g"
  shows "length (random_payments g m n s) = n
    \<and> (\<forall>p \<in> set (random_payments g m n s). 10000 \<le> sp_amount_minor p \<and> sp_amount_minor p \<le> 50000000
         \<and> sp_failure_category p \<in> set FAILURE_CATEGORIES)"
  using random_payment_ok [OF assms]
  by (induction n arbitrary: s) (auto simp: Let_def case_prod_beta)

text \<open>
  The generated population has the requested size, every amount is between 100 and 500000 major
  units, so above the engine's minimum, and every category is one of the five known ones.
\<close>

theorem generate_population_ok:
  assumes "rng_ok g"
  shows "length (generate_population g size_n seed m) = nat size_n
    \<and> (\<forall>p \<in> set (generate_population g size_n seed m). MIN_RECOVERABLE_AMOUNT_MINOR < sp_amount_minor p
         \<and> sp_amount_minor p \<le> 50000000 \<and> sp_failure_category p \<in> set FAILURE_CATEGORIES)"
proof -
  have "length (random_payments g m n s) = n
      \<and> (\<forall>p \<in> set (random_payments g m n s). MIN_RECOVERABLE_AMOUNT_MINOR < sp_amount_minor p
         \<and> sp_amount_minor p \<le> 50000000 \<and> sp_failure_category p \<in> set FAILURE_CATEGORIES)" for m n s
    using random_payments_ok [OF assms, of m n s] by (fastforce simp: MIN_RECOVERABLE_AMOUNT_MINOR_def)
  then show ?thesis by (cases m) (simp_all add: generate_population_def case_prod_beta)
qed

text \<open>The categories the engine has a strategy for.\<close>

definition known_category :: "string \<Rightarrow> bool" where
  "known_category c =
     (c \<in> {''expired_instrument'', ''insufficient_funds'', ''temporary_network'', ''issuer_failure''})"

lemma normalize_known:
  "known_category c \<Longrightarrow> normalize_category (Some c) = c"
  by (auto simp: known_category_def normalize_category_def) code_simp+

lemma recoverai_action:
  assumes "known_category (sp_failure_category p)" and "1000 \<le> sp_amount_minor p"
  shows "recoverai_decide p None =
    (if sp_failure_category p = ''issuer_failure'' \<or> 5000000 \<le> sp_amount_minor p then ESCALATE
     else if sp_failure_category p = ''expired_instrument'' then CREATE_PAYMENT_LINK
     else if sp_failure_category p = ''insufficient_funds'' then WAIT else SEND_REMINDER)"
  using assms normalize_known [OF assms(1)]
  by (auto simp: recoverai_decide_def evaluate_recovery_def evaluate_policy_def Let_def known_category_def
      MIN_RECOVERABLE_AMOUNT_MINOR_def DEFAULT_SIMULATION_POLICY_def)

lemma recoverai_at_least_baseline:
  assumes "known_category (sp_failure_category p)" and "1000 \<le> sp_amount_minor p"
  shows "get_recovery_probability SIMULATED_RECOVERY_PROBABILITIES (sp_failure_category p)
      (recovery_action_type_value (baseline_decide p))
    \<le> get_recovery_probability SIMULATED_RECOVERY_PROBABILITIES (sp_failure_category p)
      (recovery_action_type_value (recoverai_decide p None))"
  using assms
  by (auto simp: recoverai_action [OF assms] baseline_decide_def get_recovery_probability_def
      SIMULATED_RECOVERY_PROBABILITIES_def known_category_def)

text \<open>
  The generators start from the same seed and draw one number per payment, whatever the decision and
  the table, so two runs see the same draws: their results are compared payment by payment.
\<close>

definition dominated :: "strategy_result \<times> 's \<Rightarrow> strategy_result \<times> 's \<Rightarrow> bool" where
  "dominated b r \<longleftrightarrow> snd b = snd r \<and> recovered_cases (fst b) \<le> recovered_cases (fst r)
     \<and> recovered_amount_minor (fst b) \<le> recovered_amount_minor (fst r)
     \<and> total_cases (fst b) = total_cases (fst r)
     \<and> total_amount_at_risk_minor (fst b) = total_amount_at_risk_minor (fst r)"

definition strategy_run ::
  "'s rng \<Rightarrow> probability_table \<Rightarrow> (simulated_payment \<Rightarrow> recovery_action_type) \<Rightarrow> simulated_payment list
     \<Rightarrow> strategy_result \<times> 's \<Rightarrow> strategy_result \<times> 's" where
  "strategy_run g table decide = fold (\<lambda>p. run_case g table (decide p) p)"

lemma run_experiment_runs:
  "run_experiment g table population seed =
    (fst (strategy_run g table baseline_decide population (new_strategy_result ''Baseline'', seed)),
     fst (strategy_run g table (\<lambda>p. recoverai_decide p None) population (new_strategy_result ''RecoverAI'', seed)))"
proof -
  have "fold (\<lambda>p (b, r). (run_case g table (baseline_decide p) p b, run_case g table (recoverai_decide p None) p r)) ps x
    = (strategy_run g table baseline_decide ps (fst x), strategy_run g table (\<lambda>p. recoverai_decide p None) ps (snd x))" for ps x
    by (induction ps arbitrary: x) (auto simp: strategy_run_def case_prod_beta)
  then show ?thesis by (simp add: run_experiment_def)
qed

lemma run_case_dominated:
  assumes "dominated b r" and "0 \<le> sp_amount_minor p"
    and "get_recovery_probability table (sp_failure_category p) (recovery_action_type_value a)
      \<le> get_recovery_probability table' (sp_failure_category p) (recovery_action_type_value a')"
  shows "dominated (run_case g table a p b) (run_case g table' a' p r)"
proof -
  obtain rb s rr where b: "b = (rb, s)" and r: "r = (rr, s)" using assms(1) by (cases b; cases r) (auto simp: dominated_def)
  obtain x s1 where x: "rng_random g s = (x, s1)" by fastforce
  have "x < get_recovery_probability table (sp_failure_category p) (recovery_action_type_value a) \<Longrightarrow>
      x < get_recovery_probability table' (sp_failure_category p) (recovery_action_type_value a')"
    using assms(3) by linarith
  with assms(1,2) show ?thesis
    by (auto simp: dominated_def run_case_def b r simulate_outcome_def x Let_def)
qed

lemma strategy_run_dominated:
  assumes "dominated b r"
    and "\<And>p. p \<in> set ps \<Longrightarrow> 0 \<le> sp_amount_minor p
      \<and> get_recovery_probability table (sp_failure_category p) (recovery_action_type_value (decide p))
        \<le> get_recovery_probability table' (sp_failure_category p) (recovery_action_type_value (decide' p))"
  shows "dominated (strategy_run g table decide ps b) (strategy_run g table' decide' ps r)"
  using assms
  by (induction ps arbitrary: b r) (simp_all add: strategy_run_def run_case_dominated)

lemma strategy_run_total:
  "total_cases (fst (strategy_run g table decide ps x)) = total_cases (fst x) + int (length ps)"
  by (induction ps arbitrary: x) (auto simp: strategy_run_def run_case_def Let_def case_prod_beta)

lemma dominated_start: "dominated (new_strategy_result n, s) (new_strategy_result n', s)"
  by (simp add: dominated_def new_strategy_result_def)


end
