(* ===== verification/Dashboard.thy ===== *)
theory Dashboard
  imports History "HOL-Library.Multiset"
begin

text \<open>
  The read side, \<^verbatim>\<open>src/app/services/dashboard_service.py\<close> and \<^verbatim>\<open>src/app/api/dashboard.py\<close>: metrics,
  paginated case lists and the explanation of one case. The functions only read, so they take the
  database and return no new one. Floats are rationals, \<open>round(x, n)\<close> rounds half to even. Rows with
  equal sort keys come in insertion order here; the queries leave their order open.
\<close>

subsection \<open>Service\<close>

definition list_merchants :: "db \<Rightarrow> nat \<Rightarrow> merchant list" where
  "list_merchants d limit = take limit (sort_key m_created_at (filter m_is_active (merchants d)))"

definition py_round :: "nat \<Rightarrow> rat \<Rightarrow> rat" where
  "py_round n x = of_int (round_half_even (x * 10 ^ n)) / 10 ^ n"

record merchant_metrics =
  mm_total_cases :: int
  mm_recovered_cases :: int
  mm_stopped_cases :: int
  mm_escalated_cases :: int
  mm_total_amount_at_risk_minor :: int
  mm_recovered_amount_minor :: int
  mm_recovery_rate_percent :: rat
  mm_total_actions :: int
  mm_avg_time_to_recovery_hours :: rat

definition avg_recovery_seconds :: "recovery_case list \<Rightarrow> rat option" where
  "avg_recovery_seconds cs =
     (if cs = [] then None
      else Some (of_int (sum_list (map (\<lambda>c. rc_updated_at c - rc_created_at c) cs)) / 1000000 / of_nat (length cs)))"

definition get_merchant_metrics :: "db \<Rightarrow> uuid \<Rightarrow> merchant_metrics" where
  "get_merchant_metrics d merchant_id =
     (let cases = filter (\<lambda>c. rc_merchant_id c = merchant_id) (recovery_cases d);
          with_status = (\<lambda>s. filter (\<lambda>c. rc_status c = s) cases);
          total_cases = int (length cases);
          recovered_cases = int (length (with_status RECOVERED));
          recovery_rate = (if 0 < total_cases then of_int recovered_cases / of_int total_cases * 100 else 0)
      in \<lparr>mm_total_cases = total_cases,
          mm_recovered_cases = recovered_cases,
          mm_stopped_cases = int (length (with_status STOPPED)),
          mm_escalated_cases = int (length (with_status ESCALATED)),
          mm_total_amount_at_risk_minor = sum_list (map rc_amount_minor cases),
          mm_recovered_amount_minor = sum_list (map rc_amount_minor (with_status RECOVERED)),
          mm_recovery_rate_percent = py_round 2 recovery_rate,
          mm_total_actions = int (count_where (\<lambda>a. ra_merchant_id a = merchant_id) (recovery_actions d)),
          mm_avg_time_to_recovery_hours =
            (case avg_recovery_seconds (with_status RECOVERED) of
               None \<Rightarrow> 0
             | Some s \<Rightarrow> py_round 1 (s / 3600))\<rparr>)"

definition matching_cases :: "db \<Rightarrow> uuid \<Rightarrow> recovery_case_status option \<Rightarrow> recovery_case list" where
  "matching_cases d merchant_id status_filter =
     filter (\<lambda>c. rc_merchant_id c = merchant_id
               \<and> (case status_filter of None \<Rightarrow> True | Some s \<Rightarrow> rc_status c = s)) (recovery_cases d)"

definition get_paginated_cases ::
  "db \<Rightarrow> uuid \<Rightarrow> nat \<Rightarrow> nat \<Rightarrow> recovery_case_status option \<Rightarrow> recovery_case list \<times> nat" where
  "get_paginated_cases d merchant_id limit offset status_filter =
     (let base = matching_cases d merchant_id status_filter in
      (take limit (drop offset (sort_key (\<lambda>c. - rc_created_at c) base)), length base))"

definition get_case_explainability ::
  "db \<Rightarrow> uuid \<Rightarrow> uuid \<Rightarrow> (recovery_case option \<times> recovery_action list \<times> audit_event list) res" where
  "get_case_explainability d case_id merchant_id =
     res_bind (one_or_none (filter (\<lambda>c. rc_id c = case_id \<and> rc_merchant_id c = merchant_id) (recovery_cases d))) (\<lambda>case_obj.
       case case_obj of
         None \<Rightarrow> Inr (None, [], [])
       | Some c \<Rightarrow>
           Inr (Some c,
             sort_key ra_created_at (filter (\<lambda>a. ra_recovery_case_id a = case_id) (recovery_actions d)),
             sort_key au_created_at
               (filter (\<lambda>a. au_entity_type a = ''recovery_case'' \<and> au_entity_id a = uuid_str case_id) (audit_events d))))"

subsection \<open>API\<close>

record case_summary =
  cs_id :: uuid
  cs_merchant_id :: uuid
  cs_status :: recovery_case_status
  cs_amount_minor :: int
  cs_currency :: string
  cs_failure_category :: "string option"
  cs_created_at :: int
  cs_updated_at :: int
  cs_next_action_at :: "int option"

record action_summary =
  as_id :: uuid
  as_action_type :: recovery_action_type
  as_status :: recovery_action_status
  as_attempt_number :: int
  as_provider_reference :: "string option"
  as_created_at :: int
  as_executed_at :: "int option"

record audit_timeline_entry =
  at_id :: uuid
  at_event_type :: string
  at_actor :: string
  at_created_at :: int
  at_payload :: json_obj

definition case_summary_of :: "recovery_case \<Rightarrow> case_summary" where
  "case_summary_of c =
     \<lparr>cs_id = rc_id c, cs_merchant_id = rc_merchant_id c, cs_status = rc_status c,
      cs_amount_minor = rc_amount_minor c, cs_currency = rc_currency c,
      cs_failure_category = rc_failure_category c, cs_created_at = rc_created_at c,
      cs_updated_at = rc_updated_at c, cs_next_action_at = rc_next_action_at c\<rparr>"

definition action_summary_of :: "recovery_action \<Rightarrow> action_summary" where
  "action_summary_of a =
     \<lparr>as_id = ra_id a, as_action_type = ra_action_type a, as_status = ra_status a,
      as_attempt_number = ra_attempt_number a, as_provider_reference = ra_provider_reference a,
      as_created_at = ra_created_at a, as_executed_at = ra_executed_at a\<rparr>"

definition audit_entry_of :: "audit_event \<Rightarrow> audit_timeline_entry" where
  "audit_entry_of a =
     \<lparr>at_id = au_id a, at_event_type = au_event_type a, at_actor = au_actor a,
      at_created_at = au_created_at a, at_payload = au_payload a\<rparr>"

text \<open>The answers: a body, or an HTTP error status.\<close>

datatype 'a reply = Reply 'a | Http_Error nat

definition read_merchants :: "db \<Rightarrow> (uuid \<times> string) list" where
  "read_merchants d = map (\<lambda>m. (m_id m, m_name m)) (list_merchants d 50)"

definition read_metrics :: "db \<Rightarrow> uuid \<Rightarrow> uuid \<times> merchant_metrics" where
  "read_metrics d merchant_id = (merchant_id, get_merchant_metrics d merchant_id)"

definition read_cases ::
  "db \<Rightarrow> uuid \<Rightarrow> int \<Rightarrow> int \<Rightarrow> recovery_case_status option \<Rightarrow> (case_summary list \<times> nat \<times> int \<times> int) reply" where
  "read_cases d merchant_id limit offset status =
     (if limit < 1 \<or> 100 < limit \<or> offset < 0 then Http_Error 422
      else
        let (cases, total_count) = get_paginated_cases d merchant_id (nat limit) (nat offset) status
        in Reply (map case_summary_of cases, total_count, limit, offset))"

definition read_case_detail ::
  "db \<Rightarrow> uuid \<Rightarrow> uuid \<Rightarrow> (case_summary \<times> action_summary list \<times> audit_timeline_entry list) reply res" where
  "read_case_detail d case_id merchant_id =
     res_bind (get_case_explainability d case_id merchant_id) (\<lambda>(case_obj, actions, audits).
       case case_obj of
         None \<Rightarrow> Inr (Http_Error 404)
       | Some c \<Rightarrow> Inr (Reply (case_summary_of c, map action_summary_of actions, map audit_entry_of audits)))"

subsection \<open>Metrics\<close>

lemma count_statuses_le:
  "length (filter (\<lambda>c. rc_status c = RECOVERED) cs) + length (filter (\<lambda>c. rc_status c = STOPPED) cs)
     + length (filter (\<lambda>c. rc_status c = ESCALATED) cs) \<le> length cs"
  by (induction cs) auto

lemma sum_filter_le:
  fixes f :: "'a \<Rightarrow> int"
  assumes "\<forall>x \<in> set xs. 0 \<le> f x"
  shows "0 \<le> sum_list (map f (filter p xs)) \<and> sum_list (map f (filter p xs)) \<le> sum_list (map f xs)"
  using assms by (induction xs) (auto intro: order_trans)

lemma py_round_bounds:
  assumes "0 \<le> x" and "x \<le> of_int b"
  shows "0 \<le> py_round n x \<and> py_round n x \<le> of_int b"
proof -
  have "x * 10 ^ n \<le> of_int (b * 10 ^ n)" using mult_right_mono [OF assms(2), of "10 ^ n"] by simp
  from round_half_even_mono [OF this] have "round_half_even (x * 10 ^ n) \<le> b * 10 ^ n"
    by (simp only: round_half_even_int)
  then have "of_int (round_half_even (x * 10 ^ n)) \<le> (of_int (b * 10 ^ n) :: rat)" by (simp only: of_int_le_iff)
  moreover have "0 \<le> round_half_even (x * 10 ^ n)"
    using round_half_even_mono [of "of_int 0" "x * 10 ^ n"] assms(1) by (simp del: of_int_0 add: round_half_even_int) simp
  ultimately show ?thesis by (simp add: py_round_def field_simps)
qed

text \<open>
  The metrics of a merchant are consistent: recovered, stopped and escalated cases are at most all
  cases, the recovered amount is between zero and the amount at risk, and the recovery rate is a
  percentage.
\<close>

theorem merchant_metrics_consistent:
  assumes "db_ok d"
  shows "let m = get_merchant_metrics d i in
      mm_recovered_cases m + mm_stopped_cases m + mm_escalated_cases m \<le> mm_total_cases m
      \<and> 0 \<le> mm_recovered_amount_minor m \<and> mm_recovered_amount_minor m \<le> mm_total_amount_at_risk_minor m
      \<and> 0 \<le> mm_recovery_rate_percent m \<and> mm_recovery_rate_percent m \<le> 100"
proof -
  define cs where "cs = filter (\<lambda>c. rc_merchant_id c = i) (recovery_cases d)"
  define rec where "rec = filter (\<lambda>c. rc_status c = RECOVERED) cs"
  have "\<forall>c \<in> set (recovery_cases d). 0 \<le> rc_amount_minor c"
    using assms by (simp add: db_ok_def cases_ok_def case_row_check_iff)
  then have amt: "0 \<le> sum_list (map rc_amount_minor rec) \<and> sum_list (map rc_amount_minor rec) \<le> sum_list (map rc_amount_minor cs)"
    unfolding rec_def by (intro sum_filter_le) (simp add: cs_def)
  have le: "length rec \<le> length cs" by (simp add: rec_def)
  define rate :: rat where "rate = (if 0 < int (length cs) then of_int (int (length rec)) / of_int (int (length cs)) * 100 else 0)"
  have "0 \<le> rate" by (simp add: rate_def)
  moreover have "rate \<le> of_int 100" using le by (simp add: rate_def field_simps)
  ultimately have "0 \<le> py_round 2 rate \<and> py_round 2 rate \<le> of_int 100" by (rule py_round_bounds)
  moreover have "int (length rec) + int (length (filter (\<lambda>c. rc_status c = STOPPED) cs))
      + int (length (filter (\<lambda>c. rc_status c = ESCALATED) cs)) \<le> int (length cs)"
    using count_statuses_le [of cs] by (simp add: rec_def)
  ultimately show ?thesis
    using amt
    by (simp only: get_merchant_metrics_def Let_def cs_def [symmetric] rec_def [symmetric] rate_def [symmetric]
        merchant_metrics.select_convs) simp
qed

subsection \<open>Pagination\<close>


lemma case_detail_cases:
  assumes "db_ok d"
  shows "(case get_case d i of
       None \<Rightarrow> read_case_detail d i m = Inr (Http_Error 404)
     | Some c \<Rightarrow>
         if rc_merchant_id c \<noteq> m then read_case_detail d i m = Inr (Http_Error 404)
         else \<exists>actions audits. get_case_explainability d i m = Inr (Some c, actions, audits)
           \<and> read_case_detail d i m
               = Inr (Reply (case_summary_of c, map action_summary_of actions, map audit_entry_of audits))
           \<and> set actions = {a \<in> set (recovery_actions d). ra_recovery_case_id a = i}
           \<and> (\<forall>a \<in> set actions. ra_merchant_id a = m))"
proof -
  have f: "filter (\<lambda>c. rc_id c = i \<and> rc_merchant_id c = m) (recovery_cases d)
      = filter (\<lambda>c. rc_merchant_id c = m) (filter (\<lambda>c. rc_id c = i) (recovery_cases d))"
    by (simp add: conj_commute)
  have l: "filter (\<lambda>c. rc_id c = i \<and> rc_merchant_id c = m) (recovery_cases d)
      = (case get_case d i of None \<Rightarrow> [] | Some c \<Rightarrow> if rc_merchant_id c = m then [c] else [])"
    unfolding f filter_key_le_1 [OF db_ok_distinct(3) [OF assms]] by (simp add: get_defs split: option.split)
  have t: "ra_merchant_id a = rc_merchant_id c"
    if "get_case d i = Some c" "a \<in> set (recovery_actions d)" "ra_recovery_case_id a = i" for a c
  proof -
    have "(ra_recovery_case_id a, ra_merchant_id a) \<in> (\<lambda>c. (rc_id c, rc_merchant_id c)) ` set (recovery_cases d)"
      using assms that(2) by (simp add: db_ok_def actions_ok_def)
    then show ?thesis
      using get_row_unique [OF db_ok_distinct(3) [OF assms]] that(1,3) by (fastforce simp: get_defs)
  qed
  show ?thesis
    using t by (auto simp: read_case_detail_def get_case_explainability_def l one_or_none_def split: option.split)
qed

text \<open>
  C25: the explanation of a case is readable by its own merchant only; for any other merchant the
  answer is 404, and every action shown belongs to the merchant.
\<close>

theorem case_detail_tenant_safe:
  assumes "db_ok d"
  shows "(case get_case d i of
       None \<Rightarrow> read_case_detail d i m = Inr (Http_Error 404)
     | Some c \<Rightarrow>
         if rc_merchant_id c \<noteq> m then read_case_detail d i m = Inr (Http_Error 404)
         else \<exists>actions audits. get_case_explainability d i m = Inr (Some c, actions, audits)
           \<and> read_case_detail d i m
               = Inr (Reply (case_summary_of c, map action_summary_of actions, map audit_entry_of audits))
           \<and> set actions = {a \<in> set (recovery_actions d). ra_recovery_case_id a = i}
           \<and> (\<forall>a \<in> set actions. ra_merchant_id a = m))"
  using assms by (rule case_detail_cases)

end
