(* ===== verification/Demo.thy ===== *)
theory Demo
  imports System Webhook_Facts Simulation Dashboard
begin

text \<open>
  A small concrete database: one merchant with a payment that failed, its case and an approved
  action, and a second merchant. The theorems with hypotheses are applied to it.
\<close>

definition demo_merchant :: merchant where
  "demo_merchant = \<lparr>m_id = 1, m_name = ''Acme'', m_is_active = True, m_created_at = 0, m_updated_at = 0\<rparr>"

definition other_merchant :: merchant where
  "other_merchant = \<lparr>m_id = 2, m_name = ''Umbrella'', m_is_active = True, m_created_at = 0, m_updated_at = 0\<rparr>"

definition demo_payment :: payment where
  "demo_payment =
     \<lparr>pay_id = 3, pay_merchant_id = 1, pay_provider = ''razorpay'', pay_provider_payment_id = ''pay_1'',
      pay_status = P_FAILED, pay_amount_minor = 7999, pay_currency = ''INR'',
      pay_failure_code = Some ''CARD_EXPIRED'', pay_failure_reason = None, pay_failed_at = Some 5,
      pay_captured_at = None, pay_created_at = 5, pay_updated_at = 5\<rparr>"

definition demo_case :: recovery_case where
  "demo_case =
     \<lparr>rc_id = 4, rc_merchant_id = 1, rc_payment_id = 3, rc_status = ELIGIBLE, rc_amount_minor = 7999,
      rc_currency = ''INR'', rc_failure_category = Some ''expired_instrument'', rc_next_action_at = None,
      rc_version = 2, rc_created_at = 5, rc_updated_at = 5\<rparr>"

definition demo_action :: recovery_action where
  "demo_action =
     \<lparr>ra_id = 5, ra_merchant_id = 1, ra_recovery_case_id = 4, ra_action_type = CREATE_PAYMENT_LINK,
      ra_status = A_APPROVED,
      ra_idempotency_key = recovery_action_idempotency_key 4 CREATE_PAYMENT_LINK 1,
      ra_attempt_number = 1, ra_provider_reference = None, ra_scheduled_at = None, ra_executed_at = None,
      ra_failure_reason = None, ra_created_at = 6, ra_updated_at = 6\<rparr>"

definition demo_event :: outbox_event where
  "demo_event =
     \<lparr>ob_id = 6, ob_merchant_id = 1, ob_aggregate_type = ''recovery_case'', ob_aggregate_id = uuid_str 4,
      ob_event_type = ''recovery_case.eligible'', ob_payload = [(''recovery_case_id'', JStr (uuid_str 4))],
      ob_idempotency_key = eligible_key 4, ob_status = O_PENDING, ob_attempts = 0, ob_last_error = None,
      ob_created_at = 5, ob_published_at = None, ob_deliver_at = None\<rparr>"

definition base_db :: db where
  "base_db = (empty_db (\<lambda>n. 100 + of_nat n) 10)\<lparr>merchants := [demo_merchant, other_merchant]\<rparr>"

definition eligible_db :: db where
  "eligible_db = base_db\<lparr>payments := [demo_payment], recovery_cases := [demo_case], outbox_events := [demo_event]\<rparr>"

definition scheduled_db :: db where
  "scheduled_db = base_db\<lparr>payments := [demo_payment],
     recovery_cases := [demo_case\<lparr>rc_status := ACTION_SCHEDULED, rc_version := 5\<rparr>],
     recovery_actions := [demo_action], outbox_events := [demo_event]\<rparr>"

lemma demo_db_ok: "db_ok base_db" "db_ok eligible_db" "db_ok scheduled_db"
  by code_simp+

text \<open>The database a computation ends in, and how its value is evaluated.\<close>

definition result_db :: "('a \<times> db) res \<Rightarrow> db" where
  "result_db m = (case m of Inr (_, d) \<Rightarrow> d | Inl _ \<Rightarrow> base_db)"

definition returns :: "('a \<times> db) res \<Rightarrow> ('a \<Rightarrow> bool) \<Rightarrow> bool" where
  "returns m p = (case m of Inr (x, _) \<Rightarrow> p x | Inl _ \<Rightarrow> False)"

lemma returns_value: "returns m p \<Longrightarrow> \<exists>x. m = Inr (x, result_db m) \<and> p x"
  by (auto simp: returns_def result_db_def split: sum.splits)

lemma returns_eq: "returns m (\<lambda>x. x = v) \<Longrightarrow> m = Inr (v, result_db m)"
  using returns_value [of m "\<lambda>x. x = v"] by auto

lemma no_rivals_ok: "worker_rivals_ok no_worker_rivals" "exec_rivals_ok no_exec_rivals"
  by (rule no_worker_rivals_ok) (rule no_exec_rivals_ok)

definition demo_agent_env :: agent_env where
  "demo_agent_env =
     \<lparr>env_settings = default_settings\<lparr>llm_enabled := True\<rparr>, graph_invoke = run_nodes,
      lax_float = (\<lambda>v. case v of JFloat x \<Rightarrow> Some x | JInt i \<Rightarrow> Some (of_int i) | _ \<Rightarrow> None),
      exc_text = (\<lambda>_. ''error''), py_repr = (\<lambda>_. ''value'')\<rparr>"

text \<open>
  A web environment whose digests are the identity and whose only JSON documents are the
  bodies of a captured-payment event and of an event of another type.
\<close>

definition capture_body :: json where
  "capture_body =
     JObj [(''id'', JStr ''evt_1''), (''event'', JStr ''payment.captured''),
           (''payload'', JObj [(''payment'', JObj [(''entity'', JObj
              [(''id'', JStr ''pay_1''), (''amount'', JInt 7999), (''currency'', JStr ''INR'')])])])]"

definition ping_body :: json where
  "ping_body = JObj [(''id'', JStr ''evt_0''), (''event'', JStr ''ping''), (''payload'', JObj [])]"

definition demo_web_env :: web_env where
  "demo_web_env =
     \<lparr>web_settings = default_settings, hmac_sha256_hex = (\<lambda>k b. b), sha256_hex = (\<lambda>b. b),
      json_value = (\<lambda>b. if b = ''capture'' then Some capture_body else if b = ''ping'' then Some ping_body else None),
      lax_int = (\<lambda>v. case v of JInt i \<Rightarrow> Some i | _ \<Rightarrow> None)\<rparr>"


definition demo_rng :: "nat rng" where
  "demo_rng =
     \<lparr>rng_random = (\<lambda>n. (of_nat (n mod 10) / 10, Suc n)), rng_randint = (\<lambda>a b n. (a, Suc n)),
      rng_choice = (\<lambda>cs n. (hd cs, Suc n)), rng_choices = (\<lambda>xs ws n. (hd xs, Suc n))\<rparr>"

lemma demo_rng_ok: "rng_ok demo_rng"
proof -
  have "(of_nat (n mod 10) :: rat) < 10" for n
    using mod_less_divisor [of 10 n] of_nat_less_iff [of "n mod 10" 10, where 'a = rat] by simp
  then show ?thesis by (simp add: rng_ok_def demo_rng_def)
qed


definition demo_exec_env :: exec_env where
  "demo_exec_env =
     \<lparr>exec_settings = default_settings, http_post = (\<lambda>_ _ _. HTTP_Timeout), mock_uuid = of_nat, error_text = (\<lambda>_. ''error'')\<rparr>"

definition demo_world :: world where
  "demo_world =
     \<lparr>agent_side = demo_agent_env, exec_side = demo_exec_env, web_side = demo_web_env,
      dispatch_settings = default_settings, broker_text = (\<lambda>_. ''down'')\<rparr>"

definition demo_scheduled_event :: outbox_event where
  "demo_scheduled_event =
     (action_scheduled_event 7 demo_case demo_action None 6)"

definition demo_system :: "db \<Rightarrow> system" where
  "demo_system d = \<lparr>store = d, broker = [], in_flight = [], called = []\<rparr>"

definition waiting_db :: db where
  "waiting_db = scheduled_db\<lparr>outbox_events := [demo_event, demo_scheduled_event]\<rparr>"

definition closed_db :: db where
  "closed_db = waiting_db\<lparr>recovery_cases := [demo_case\<lparr>rc_status := RECOVERED, rc_version := 6\<rparr>]\<rparr>"

end
