(* ===== verification/Witnesses.thy ===== *)
theory Witnesses
  imports Demo
begin

text \<open>
  The theorems with hypotheses, applied to the concrete databases of \<open>Demo\<close>.
\<close>

subsection \<open>Domain and services\<close>

theorem evaluate_policy_fallback_safe_witness:
  "(let limits = policy_limits_from (default_policy 9 1 0);
        pin = build_policy_input scheduled_db demo_case CREATE_PAYMENT_LINK ANALYSING None;
        a = pd_final_action (evaluate_policy limits pin None) in
      a \<in> {STOP, ESCALATE, WAIT}
      \<and> (a = ESCALATE \<longrightarrow> high_value limits pin \<and> \<not> is_terminal (pi_case_status pin))
      \<and> (a = WAIT \<longrightarrow> pd_delay_hours (evaluate_policy limits pin None) = Some 1
            \<and> pi_candidate_action pin = CREATE_PAYMENT_LINK \<and> 0 < pi_active_payment_link_count pin)
      \<and> (is_terminal (pi_case_status pin) \<longrightarrow> a = STOP))"
  unfolding Let_def
  by (rule evaluate_policy_fallback_safe [unfolded Let_def]) code_simp

abbreviation moved_db :: db where
  "moved_db \<equiv> result_db (atomic_transition_recovery_case 4 ELIGIBLE 2 ANALYSING eligible_db)"

theorem atomic_transition_single_winner_witness:
  "atomic_transition_recovery_case 4 ELIGIBLE 2 STOPPED moved_db = Inr (0, moved_db)"
proof -
  have win: "atomic_transition_recovery_case 4 ELIGIBLE 2 ANALYSING eligible_db = Inr (1, moved_db)"
    by (rule returns_eq) code_simp
  have ok: "db_ok moved_db" by code_simp
  obtain n d3 where again: "atomic_transition_recovery_case 4 ELIGIBLE 2 STOPPED moved_db = Inr (n, d3)"
    using atomic_transition_total [of ELIGIBLE STOPPED 2 4 moved_db] by (auto simp: can_transition_def integer_ok_def)
  from atomic_transition_single_winner [OF demo_db_ok(2) _ win ok db_evolves_refl again] again show ?thesis by simp
qed

abbreviation first_creation :: "((recovery_action \<times> bool) \<times> db) res" where
  "first_creation \<equiv> create_recovery_action_idempotent (\<lambda>d. d) 1 4 SEND_REMINDER
     (recovery_action_idempotency_key 4 SEND_REMINDER 1) 1 A_APPROVED None eligible_db"

theorem create_action_idempotent_witness:
  "\<exists>a'. create_recovery_action_idempotent (\<lambda>d. d) 1 4 SEND_REMINDER
        (recovery_action_idempotency_key 4 SEND_REMINDER 1) 1 A_PENDING None (result_db first_creation)
      = Inr ((a', False), result_db first_creation)
    \<and> ra_id a' = 100 \<and> ra_recovery_case_id a' = 4 \<and> ra_action_type a' = SEND_REMINDER \<and> ra_attempt_number a' = 1"
proof -
  have "returns first_creation (\<lambda>(a, created). ra_id a = 100 \<and> created)" by code_simp
  then obtain a where a: "first_creation = Inr ((a, True), result_db first_creation)" "ra_id a = 100"
    using returns_value by fastforce
  have ok: "canonical_keys eligible_db" "db_ok (result_db first_creation)" by code_simp+
  from create_action_idempotent [OF a(1) ok(1) ok(1) db_evolves_refl ok(2)] a(2) show ?thesis by auto
qed

abbreviation first_policy :: "(merchant_policy \<times> db) res" where
  "first_policy \<equiv> get_or_create_default_policy (\<lambda>d. d) 1 eligible_db"

theorem get_or_create_policy_stable_witness:
  "\<exists>p. first_policy = Inr (p, result_db first_policy) \<and> mp_merchant_id p = 1
     \<and> p \<in> set (merchant_policies (result_db first_policy))
     \<and> get_or_create_default_policy (\<lambda>d. d) 1 (result_db first_policy) = Inr (p, result_db first_policy)"
proof -
  have "returns first_policy (\<lambda>_. True)" by code_simp
  then obtain p where p: "first_policy = Inr (p, result_db first_policy)" using returns_value by blast
  have "db_ok (result_db first_policy)" by code_simp
  from get_or_create_policy_stable [OF p db_evolves_refl this] p show ?thesis by blast
qed

theorem run_recovery_agent_spec_witness:
  "let d = run_recovery_agent demo_agent_env
       \<lparr>req_merchant_id = ''m'', req_recovery_case_id = ''c'', req_amount_minor = 7999, req_currency = ''INR'',
        req_failure_category = None, req_engine_candidate_action = SEND_REMINDER,
        req_deterministic_final_action = STOP, req_total_action_count = 0, req_reminder_count = 0,
        req_active_payment_link_count = 0\<rparr>
   in ad_selected_action d = SEND_REMINDER \<and> ad_source d = ''llm''"
proof -
  have env: "langgraph_sequential demo_agent_env" "lax_float_ok demo_agent_env" "llm_usable (env_settings demo_agent_env)"
    by (simp_all add: langgraph_sequential_def lax_float_ok_def demo_agent_env_def llm_usable_def default_settings_def)
  from run_recovery_agent_spec [OF env(1,2), of "\<lparr>req_merchant_id = ''m'', req_recovery_case_id = ''c'', req_amount_minor = 7999, req_currency = ''INR'',
        req_failure_category = None, req_engine_candidate_action = SEND_REMINDER,
        req_deterministic_final_action = STOP, req_total_action_count = 0, req_reminder_count = 0,
        req_active_payment_link_count = 0\<rparr>"] env(3)
  show ?thesis by (simp add: Let_def)
qed

subsection \<open>Executor\<close>

abbreviation first_claim :: "(claim \<times> db) res" where
  "first_claim \<equiv> claim_action no_exec_rivals 5 scheduled_db"

lemma first_claim_result: "\<exists>cx. first_claim = Inr (Claimed cx, result_db first_claim)"
proof -
  have "returns first_claim (\<lambda>c. case c of Claimed _ \<Rightarrow> True | Not_claimed _ \<Rightarrow> False)" by code_simp
  then show ?thesis using returns_value by (fastforce split: claim.splits)
qed

theorem claim_requires_permission_witness:
  "\<exists>a c policy d1. get_action scheduled_db 5 = Some a \<and> ra_status a = A_APPROVED
      \<and> get_case scheduled_db (ra_recovery_case_id a) = Some c \<and> \<not> is_terminal (rc_status c)
      \<and> mp_merchant_id policy = rc_merchant_id c \<and> policy \<in> set (merchant_policies d1)
      \<and> permitted (policy_limits_from policy)
          (build_policy_input d1 c (ra_action_type a) (rc_status c) (Some 5))
      \<and> (\<exists>b. get_action (result_db first_claim) 5 = Some b \<and> ra_status b = A_EXECUTING)"
proof -
  obtain cx where "first_claim = Inr (Claimed cx, result_db first_claim)" using first_claim_result by blast
  from claim_requires_permission [OF this demo_db_ok(3) no_rivals_ok(2)] show ?thesis by blast
qed


subsection \<open>Dispatcher\<close>

abbreviation demo_dispatch :: "(nat res \<times> db) \<times> outbox_event list" where
  "demo_dispatch \<equiv> dispatch_outbox_events default_settings (\<lambda>_. ''down'') (\<lambda>_. Inr ()) (\<lambda>_. False) None eligible_db"

theorem dispatch_outbox_events_spec_witness:
  "\<exists>n. fst (fst demo_dispatch) = Inr n \<and> n = length (snd demo_dispatch)
    \<and> (\<forall>b \<in> set (snd demo_dispatch). b \<in> set (outbox_events eligible_db) \<and> due (clock eligible_db) b)
    \<and> snd demo_dispatch = [demo_event]"
proof -
  have "fst (fst demo_dispatch) = Inr 1" "snd demo_dispatch = [demo_event]" by code_simp+
  then have "demo_dispatch = ((Inr 1, snd (fst demo_dispatch)), snd demo_dispatch)" by (metis prod.collapse)
  from dispatch_outbox_events_spec [OF demo_db_ok(2) this] \<open>fst (fst demo_dispatch) = Inr 1\<close>
    \<open>snd demo_dispatch = [demo_event]\<close> show ?thesis by auto
qed

theorem dispatch_gives_up_witness:
  "ob_attempts ((dispatch_event default_settings (\<lambda>_. ''down'') (\<lambda>_. Inl DataError) 0 ^^ 10) demo_event) = int 10
   \<and> ob_status ((dispatch_event default_settings (\<lambda>_. ''down'') (\<lambda>_. Inl DataError) 0 ^^ 10) demo_event) = O_FAILED"
proof -
  have d: "ob_status demo_event = O_PENDING" "ob_attempts demo_event = 0"
    "0 < outbox_max_dispatch_attempts default_settings" "int 10 \<le> outbox_max_dispatch_attempts default_settings"
    by (simp_all add: demo_event_def default_settings_def)
  have pub: "\<exists>e. (\<lambda>_. Inl DataError :: unit res) b = Inl e" for b :: outbox_event by simp
  from dispatch_gives_up [of "\<lambda>_. Inl DataError", OF pub d, where tx = "\<lambda>_. ''down''" and t = 0] show ?thesis by (simp add: default_settings_def)
qed

subsection \<open>Webhooks\<close>

abbreviation first_delivery :: "http_answer res \<times> db" where
  "first_delivery \<equiv> razorpay_webhook demo_web_env (\<lambda>d. d) 1 ''ping'' (Some ''ping'') None base_db"

theorem webhook_tenant_isolation_witness:
  "same_others 1 eligible_db (snd (razorpay_webhook demo_web_env (\<lambda>d. d) 1 ''capture'' (Some ''capture'') None eligible_db))"
  by (rule webhook_tenant_isolation [OF demo_db_ok(2)])

theorem webhook_redelivery_witness:
  "razorpay_webhook demo_web_env (\<lambda>d. d) 1 ''ping'' (Some ''ping'') (Some ''r2'') (snd first_delivery)
     = (Inr duplicate_answer, snd first_delivery)"
proof -
  have "case fst first_delivery of Inr ans \<Rightarrow> status_code ans = 200 \<and> ans \<noteq> duplicate_answer | Inl _ \<Rightarrow> False" by code_simp
  then obtain ans where ans: "fst first_delivery = Inr ans" "status_code ans = 200" "ans \<noteq> duplicate_answer"
    by (auto split: sum.splits)
  then have first: "first_delivery = (Inr ans, snd first_delivery)" by (metis prod.collapse)
  have ok: "db_ok (snd first_delivery)" by code_simp
  show ?thesis by (rule webhook_redelivery [OF demo_db_ok(1) db_step_refl first ans(2,3) db_evolves_refl ok])
qed


subsection \<open>Worker\<close>

abbreviation demo_run :: "(json_obj \<times> db) res" where
  "demo_run \<equiv> handle_recovery_case_eligible demo_agent_env no_worker_rivals demo_event eligible_db"

lemma demo_run_case:
  "get_case eligible_db 4 = Some demo_case" "rc_status demo_case = ELIGIBLE"
  "obj_get (ob_payload demo_event) ''recovery_case_id'' = JStr (uuid_str 4)"
  "integer_ok (rc_version demo_case + 3)"
  "list_all (\<lambda>a. ra_recovery_case_id a \<noteq> 4) (recovery_actions eligible_db)" "canonical_keys eligible_db"
  by (simp_all add: eligible_db_def base_db_def empty_db_def get_defs demo_case_def demo_event_def obj_get_def
      integer_ok_def canonical_keys_def)

lemma demo_run_ids: "unused_rows 2 eligible_db" "unused_ids 4 eligible_db"
  by code_simp+

lemma demo_run_keys:
  "list_all (\<lambda>n. list_all (\<lambda>b. ob_idempotency_key b \<noteq> action_scheduled_key 4 (uuid4 eligible_db (uuid_drawn eligible_db + n)))
       (outbox_events eligible_db)) [0..<2]"
  by (simp add: eligible_db_def demo_event_def eligible_key_def action_scheduled_key_def list_all_iff)

theorem eligible_case_processed_witness:
  "\<exists>r d'. process_eligible_event demo_agent_env no_worker_rivals (uuid_str (ob_id demo_event)) eligible_db = (Inr r, d')
     \<and> handled eligible_db d' 4 demo_case r"
proof -
  have "get_outbox eligible_db (ob_id demo_event) = Some demo_event" by (simp add: eligible_db_def get_defs)
  from eligible_case_processed [OF demo_db_ok(2) demo_run_case(1,2) this demo_run_case(3-) demo_run_ids demo_run_keys]
  show ?thesis .
qed

theorem worker_actions_permitted_witness:
  "\<exists>a \<in> set (recovery_actions (result_db demo_run)).
     permitted (policy_limits_from (default_policy 100 1 10)) (build_policy_input eligible_db demo_case (ra_action_type a) ANALYSING None)
     \<or> ra_action_type a \<in> {STOP, ESCALATE, WAIT}"
proof -
  have "case demo_run of Inl _ \<Rightarrow> False | Inr (_, d') \<Rightarrow>
      map ra_recovery_case_id (recovery_actions d') = [4] \<and> merchant_policies d' = [default_policy 100 1 10]"
    by code_simp
  then obtain r d' a where r: "demo_run = Inr (r, d')" "recovery_actions d' = [a]"
    and a: "ra_recovery_case_id a = 4" "merchant_policies d' = [default_policy 100 1 10]"
    by (auto split: sum.splits)
  then have d': "result_db demo_run = d'" by (simp add: result_db_def)
  have "a \<in> set (recovery_actions d')" "a \<notin> set (recovery_actions eligible_db)"
    using r(2) by (simp_all add: eligible_db_def base_db_def empty_db_def)
  from worker_actions_permitted [OF r(1) this] a r(2) demo_run_case(1) show ?thesis
    unfolding d' by auto
qed


subsection \<open>Simulation\<close>

theorem generate_population_ok_witness:
  "length (generate_population demo_rng 3 0 None) = nat 3
    \<and> list_all (\<lambda>p. MIN_RECOVERABLE_AMOUNT_MINOR < sp_amount_minor p
         \<and> sp_amount_minor p \<le> 50000000 \<and> sp_failure_category p \<in> set FAILURE_CATEGORIES)
       (generate_population demo_rng 3 0 None)"
  unfolding list_all_iff by (rule generate_population_ok [OF demo_rng_ok])

definition demo_population :: "simulated_payment list" where
  "demo_population =
     [\<lparr>sp_payment_id = ''pay_1'', sp_merchant_id = ''m'', sp_amount_minor = 7999, sp_currency = ''INR'',
       sp_failure_category = ''expired_instrument''\<rparr>,
      \<lparr>sp_payment_id = ''pay_2'', sp_merchant_id = ''m'', sp_amount_minor = 6000000, sp_currency = ''INR'',
       sp_failure_category = ''issuer_failure''\<rparr>]"


subsection \<open>Dashboard\<close>

theorem merchant_metrics_consistent_witness:
  "let m = get_merchant_metrics scheduled_db 1 in
      mm_recovered_cases m + mm_stopped_cases m + mm_escalated_cases m \<le> mm_total_cases m
      \<and> 0 \<le> mm_recovered_amount_minor m \<and> mm_recovered_amount_minor m \<le> mm_total_amount_at_risk_minor m
      \<and> 0 \<le> mm_recovery_rate_percent m \<and> mm_recovery_rate_percent m \<le> 100"
  by (rule merchant_metrics_consistent [OF demo_db_ok(3)])


theorem case_detail_tenant_safe_witness:
  "read_case_detail scheduled_db 4 2 = Inr (Http_Error 404)"
proof -
  have "get_case scheduled_db 4 = Some (demo_case\<lparr>rc_status := ACTION_SCHEDULED, rc_version := 5\<rparr>)" by code_simp
  then show ?thesis
    using case_detail_tenant_safe [OF demo_db_ok(3), of 4 2] by (simp add: demo_case_def)
qed

subsection \<open>Captured payments\<close>

definition demo_entity :: payment_entity where
  "demo_entity = \<lparr>ent_id = ''pay_1'', ent_amount = 7999, ent_currency = ''INR'', ent_status = None,
     ent_error_code = None, ent_error_description = None, ent_notes = None\<rparr>"

abbreviation demo_capture :: "(json_obj \<times> db) res" where
  "demo_capture \<equiv> handle_payment_captured (\<lambda>d. d) 1 demo_entity 7999 ''INR'' None base_db"

theorem capture_before_failure_witness:
  "\<exists>pid. handle_payment_failed (\<lambda>d. d) 1 demo_entity 7999 ''INR'' None (result_db demo_capture)
      = Inr ([(''outcome'', JStr ''ignored_already_captured''), (''payment_id'', JStr pid)], result_db demo_capture)"
proof -
  have "returns demo_capture (\<lambda>_. True)"
    by (simp add: returns_def handle_payment_captured_def get_payment_by_provider_def one_or_none_def
      store_captured_payment_def new_captured_payment_def insert_payment_def payment_row_check_def noted_case_def
      get_recovery_case_by_payment_def demo_entity_def obj_get_def Let_def
      base_db_def empty_db_def new_uuid_def get_defs demo_merchant_def varchar_ok_def opt_varchar_ok_def bigint_ok_def currency_ok_def)
  then obtain r where r: "demo_capture = Inr (r, result_db demo_capture)" using returns_value by blast
  have ok: "db_ok (result_db demo_capture)"
    using keepsD [OF handle_payment_captured_step [OF demo_db_ok(1) db_step_refl] r] demo_db_ok(1) db_step_ok by blast
  show ?thesis
    by (rule capture_before_failure [OF demo_db_ok(1) db_step_refl r db_evolves_refl ok refl])
qed

abbreviation demo_recovered :: "(json_obj \<times> db) res" where
  "demo_recovered \<equiv> mark_case_recovered 1 demo_payment (demo_case\<lparr>rc_status := ACTION_SCHEDULED, rc_version := 5\<rparr>) None scheduled_db"

theorem capture_closes_case_witness:
  "\<exists>d'. (\<exists>c'. get_case d' 4 = Some c' \<and> rc_status c' = RECOVERED)
    \<and> list_all (\<lambda>a. ra_recovery_case_id a \<noteq> 4 \<or> ra_status a \<notin> {A_PENDING, A_APPROVED}) (recovery_actions d')
    \<and> (\<exists>b \<in> set (outbox_events d'). ob_idempotency_key b = recovered_key 4)"
proof -
  let ?c = "demo_case\<lparr>rc_status := ACTION_SCHEDULED, rc_version := 5\<rparr>"
  have "returns demo_recovered (\<lambda>_. True)" by code_simp
  then obtain r where r: "demo_recovered = Inr (r, result_db demo_recovered)" using returns_value by blast
  have c: "\<not> is_terminal (rc_status ?c)" "get_case scheduled_db (rc_id ?c) = Some ?c" "rc_id ?c = 4" by code_simp+
  from capture_closes_case [OF c(1,2) r] c(3) show ?thesis
    by (intro exI [of _ "result_db demo_recovered"]) (auto simp: list_all_iff)
qed

definition stopped_db :: db where
  "stopped_db = eligible_db\<lparr>recovery_cases := [demo_case\<lparr>rc_status := STOPPED, rc_version := 5\<rparr>]\<rparr>"

theorem stale_capture_overwrites_terminal_witness:
  "\<exists>d' c'. get_case d' 4 = Some c' \<and> rc_status c' = RECOVERED \<and> rc_version c' = 3"
proof -
  have "returns (mark_case_recovered 1 demo_payment demo_case None stopped_db) (\<lambda>_. True)" by code_simp
  then obtain r d' where r: "mark_case_recovered 1 demo_payment demo_case None stopped_db = Inr (r, d')" using returns_value by blast
  have c: "\<not> is_terminal (rc_status demo_case)" "rc_id demo_case = 4" "rc_version demo_case = 2"
    "get_case stopped_db (rc_id demo_case) = Some (demo_case\<lparr>rc_status := STOPPED, rc_version := 5\<rparr>)"
    "is_terminal (rc_status (demo_case\<lparr>rc_status := STOPPED, rc_version := 5\<rparr>))"
    by code_simp+
  from stale_capture_overwrites_terminal [OF c(1,4,5) r] c(2,3) show ?thesis by auto
qed

theorem conflicting_capture_is_dropped_witness:
  "razorpay_webhook demo_web_env (\<lambda>d. d\<lparr>payments := [demo_payment]\<rparr>) 1 ''capture'' (Some ''capture'') None base_db
     = (Inr duplicate_answer, base_db)"
proof -
  let ?dto = "\<lparr>rw_id = Some ''evt_1'', rw_event = ''payment.captured'',
     rw_payload = [(''payment'', JObj [(''entity'', JObj
              [(''id'', JStr ''pay_1''), (''amount'', JInt 7999), (''currency'', JStr ''INR'')])])]\<rparr>"
  let ?row = "new_webhook_row (fst (new_uuid base_db)) 1 (extract_provider_event_id demo_web_env ?dto ''capture'') ?dto (clock base_db)"
  let ?d2 = "(snd (new_uuid base_db))\<lparr>webhook_events := [?row]\<rparr>"
  have "verify_razorpay_signature demo_web_env ''capture'' (Some ''capture'') = Inr ()" by code_simp
  moreover have "parse_razorpay_webhook demo_web_env ''capture'' = Inr ?dto" by code_simp
  moreover have "extract_payment_entity demo_web_env ?dto = Inr demo_entity" by code_simp
  moreover have "normalize_currency (JStr (ent_currency demo_entity)) = Inr ''INR''" by code_simp
  moreover have "get_merchant base_db 1 = Some demo_merchant" "m_is_active demo_merchant" by code_simp+
  moreover have "insert_webhook ?row (snd (new_uuid base_db)) = Inr ?d2"
    by (simp add: insert_webhook_def webhook_row_check_def new_webhook_row_def extract_provider_event_id_def
      varchar_ok_def opt_varchar_ok_def base_db_def empty_db_def new_uuid_def get_defs demo_merchant_def)
  moreover have "get_payment_by_provider 1 (ent_id demo_entity) ?d2 = Inr None"
    "get_payment_by_provider 1 (ent_id demo_entity) (?d2\<lparr>payments := [demo_payment]\<rparr>) = Inr (Some demo_payment)"
    by (simp_all add: get_payment_by_provider_def one_or_none_def base_db_def empty_db_def new_uuid_def demo_entity_def demo_payment_def)
  moreover have "payment_row_check (new_captured_payment u 1 demo_entity (ent_amount demo_entity) ''INR'' t) = Inr ()" for u t
    by (simp add: payment_row_check_def new_captured_payment_def demo_entity_def varchar_ok_def opt_varchar_ok_def
      bigint_ok_def currency_ok_def)
  ultimately show ?thesis
    by (intro conflicting_capture_is_dropped [where dto = ?dto and e = demo_entity and cur = "''INR''" and mer = demo_merchant and q = demo_payment])
      (simp_all add: demo_entity_def)
qed

end
