(* ===== verification/Action_Protocol.thy ===== *)
theory Action_Protocol
  imports System Webhook_Facts
begin

text \<open>
  The life of the recovery actions as a protocol on an abstract board, and the proof that the system
  follows it. The board shows for every action its case and its status, which cases are closed, which
  are recovered, and the external calls made so far. It knows nothing of webhooks, outbox, messages
  or tables.
\<close>

subsection \<open>The protocol\<close>

record board =
  jobs :: "uuid \<Rightarrow> (uuid \<times> recovery_action_status) option"
  shut :: "uuid set"
  recovered :: "uuid set"
  calls :: "uuid list"

definition open_status :: "recovery_action_status \<Rightarrow> bool" where
  "open_status st = (st \<in> {A_PENDING, A_APPROVED})"

type_synonym job_map = "uuid \<Rightarrow> (uuid \<times> recovery_action_status) option"

definition cancel_jobs :: "uuid \<Rightarrow> job_map \<Rightarrow> job_map" where
  "cancel_jobs k js j = map_option (\<lambda>(k', st). (k', if k' = k \<and> open_status st then A_CANCELLED else st)) (js j)"

text \<open>
  An action is proposed as approved, for a case that is not closed. It is called for at most once,
  while its case is not closed, and then executed or failed; or it is withdrawn. A case that is
  recovered is closed and loses its open actions at the same moment. Cases may be closed at any time.
\<close>

inductive board_step :: "board \<Rightarrow> board \<Rightarrow> bool" where
  Propose: "jobs b j = None \<Longrightarrow> k \<notin> shut b \<Longrightarrow> board_step b (b\<lparr>jobs := (jobs b)(j \<mapsto> (k, A_APPROVED))\<rparr>)"
| Call: "jobs b j = Some (k, A_APPROVED) \<Longrightarrow> k \<notin> shut b
    \<Longrightarrow> board_step b (b\<lparr>jobs := (jobs b)(j \<mapsto> (k, A_EXECUTING)), calls := j # calls b\<rparr>)"
| Finish: "jobs b j = Some (k, A_EXECUTING) \<Longrightarrow> st \<in> {A_EXECUTED, A_FAILED}
    \<Longrightarrow> board_step b (b\<lparr>jobs := (jobs b)(j \<mapsto> (k, st))\<rparr>)"
| Withdraw: "jobs b j = Some (k, A_APPROVED) \<Longrightarrow> board_step b (b\<lparr>jobs := (jobs b)(j \<mapsto> (k, A_CANCELLED))\<rparr>)"
| Recover: "k \<notin> shut b \<Longrightarrow> board_step b (b\<lparr>jobs := cancel_jobs k (jobs b), shut := insert k (shut b),
      recovered := insert k (recovered b)\<rparr>)"
| Close: "shut b \<subseteq> ks \<Longrightarrow> board_step b (b\<lparr>shut := ks\<rparr>)"

text \<open>What the protocol guarantees.\<close>

definition board_ok :: "board \<Rightarrow> bool" where
  "board_ok b \<longleftrightarrow> distinct (calls b) \<and> recovered b \<subseteq> shut b
     \<and> (\<forall>j. j \<in> set (calls b) \<longleftrightarrow> (\<exists>k st. jobs b j = Some (k, st) \<and> underway st))
     \<and> (\<forall>j k st. jobs b j = Some (k, st) \<and> open_status st \<longrightarrow> k \<notin> recovered b)"

lemma board_step_ok:
  assumes "board_step b b'" and "board_ok b"
  shows "board_ok b'"
  using assms
proof cases
  case (Call j k)
  then have "j \<notin> set (calls b)" using assms(2) by (auto simp: board_ok_def underway_def)
  then show ?thesis using Call assms(2) by (auto simp: board_ok_def underway_def open_status_def)
next
  case (Recover k)
  have "(\<exists>k' st. cancel_jobs k (jobs b) j = Some (k', st) \<and> underway st) \<longleftrightarrow> (\<exists>k' st. jobs b j = Some (k', st) \<and> underway st)" for j
    by (cases "jobs b j") (auto simp: cancel_jobs_def underway_def open_status_def split: if_splits)
  moreover have "cancel_jobs k (jobs b) j = Some (k', st) \<Longrightarrow> open_status st \<Longrightarrow> jobs b j = Some (k', st) \<and> k' \<noteq> k" for j k' st
    by (auto simp: cancel_jobs_def open_status_def split: if_splits)
  ultimately show ?thesis using assms(2) unfolding Recover(1) board_ok_def by simp blast
qed (auto simp: board_ok_def underway_def open_status_def)

lemma board_run_ok: "board_step\<^sup>*\<^sup>* b b' \<Longrightarrow> board_ok b \<Longrightarrow> board_ok b'"
  by (induction rule: rtranclp_induct) (auto intro: board_step_ok)

subsection \<open>The board of a database\<close>

definition jobs_of :: "db \<Rightarrow> uuid \<Rightarrow> (uuid \<times> recovery_action_status) option" where
  "jobs_of d j = map_option (\<lambda>a. (ra_recovery_case_id a, ra_status a)) (get_action d j)"

definition cases_with :: "(recovery_case_status \<Rightarrow> bool) \<Rightarrow> db \<Rightarrow> uuid set" where
  "cases_with p d = set (map rc_id (filter (\<lambda>c. p (rc_status c)) (recovery_cases d)))"

abbreviation recovered_cases :: "db \<Rightarrow> uuid set" where
  "recovered_cases \<equiv> cases_with (\<lambda>st. st = RECOVERED)"

definition board_of :: "system \<Rightarrow> board" where
  "board_of s = \<lparr>jobs = jobs_of (store s), shut = cases_with is_terminal (store s),
     recovered = recovered_cases (store s), calls = called s\<rparr>"

lemma jobs_of_same: "recovery_actions d' = recovery_actions d \<Longrightarrow> jobs_of d' = jobs_of d"
  by (simp add: fun_eq_iff jobs_of_def get_defs)

lemma jobs_of_upd:
  assumes "recovery_actions d' = upd_where (\<lambda>b. ra_id b = j \<and> p b) f (recovery_actions d)"
    and "get_action d j = Some a" and "\<And>b. ra_id (f b) = ra_id b" "\<And>b. ra_recovery_case_id (f b) = ra_recovery_case_id b"
    and "p a" "ra_status (f a) = st"
  shows "jobs_of d' = (jobs_of d)(j \<mapsto> (ra_recovery_case_id a, st))"
proof
  fix i
  show "jobs_of d' i = ((jobs_of d)(j \<mapsto> (ra_recovery_case_id a, st))) i"
  proof (cases "get_action d i")
    case None
    then show ?thesis using assms by (auto simp: jobs_of_def get_defs get_row_upd_where)
  next
    case (Some b)
    then have "ra_id b = i" by (rule action_table.get_key)
    with Some show ?thesis using assms by (auto simp: jobs_of_def get_defs get_row_upd_where)
  qed
qed

lemma jobs_of_append:
  assumes "recovery_actions d' = recovery_actions d @ [a]" and "db_ok d'"
  shows "jobs_of d (ra_id a) = None" "jobs_of d' = (jobs_of d)(ra_id a \<mapsto> (ra_recovery_case_id a, ra_status a))"
proof -
  have "distinct (map ra_id (recovery_actions d'))" using db_ok_distinct [OF assms(2)] by blast
  then have "ra_id a \<notin> ra_id ` set (recovery_actions d)" by (simp add: assms(1))
  then have n: "get_action d (ra_id a) = None" by (auto simp: get_defs get_row_None_iff)
  then show "jobs_of d (ra_id a) = None" by (simp add: jobs_of_def)
  with n show "jobs_of d' = (jobs_of d)(ra_id a \<mapsto> (ra_recovery_case_id a, ra_status a))"
    by (auto simp: fun_eq_iff jobs_of_def get_defs assms(1) get_row_append split: option.split)
qed

lemma cases_with_mono:
  assumes "db_evolves d d'" and "\<And>st. p st \<Longrightarrow> is_terminal st"
  shows "cases_with p d \<subseteq> cases_with p d'"
proof
  fix i assume "i \<in> cases_with p d"
  then obtain c where c: "c \<in> set (recovery_cases d)" "rc_id c = i" "p (rc_status c)" by (auto simp: cases_with_def)
  with assms(1) obtain c' where "c' \<in> set (recovery_cases d')" "case_evolves c c'"
    unfolding db_evolves_def using case_history.rows_mem by blast
  with c assms(2) show "i \<in> cases_with p d'" by (auto simp: cases_with_def case_evolves_def)
qed

lemma closed_mono: "db_evolves d d' \<Longrightarrow> cases_with is_terminal d \<subseteq> cases_with is_terminal d'"
  by (rule cases_with_mono)

lemma recovered_mono: "db_evolves d d' \<Longrightarrow> recovered_cases d \<subseteq> recovered_cases d'"
  by (erule cases_with_mono) (simp add: is_terminal_def TERMINAL_STATES_def)

lemma not_in_cases_with:
  "db_ok d \<Longrightarrow> get_case d i = Some c \<Longrightarrow> \<not> p (rc_status c) \<Longrightarrow> i \<notin> cases_with p d"
  using get_row_unique [OF db_ok_distinct(3)] by (fastforce simp: cases_with_def get_defs)



subsection \<open>The worker and the executor\<close>

text \<open>Only the handler of captured payments recovers a case.\<close>

definition no_recovery :: "db \<Rightarrow> db \<Rightarrow> bool" where
  "no_recovery d d' \<longleftrightarrow> recovered_cases d' \<subseteq> recovered_cases d"

lemma no_recovery_same: "recovery_cases d' = recovery_cases d \<Longrightarrow> no_recovery d d'"
  by (simp add: no_recovery_def cases_with_def)

interpretation recovery_frame: worker_frame no_recovery
proof
  show "no_recovery d d'" if "atomic_transition_recovery_case i s v st d = Inr (n, d')" "st \<noteq> RECOVERED" for d d' i s v st n
    using that by (auto simp: atomic_transition_recovery_case_def update_cases_def no_recovery_def cases_with_def
        set_upd_where split: if_splits)
  show "no_recovery d d'" if "atomic_transition_with_next_action_at i s v st m d = Inr (n, d')" "st \<noteq> RECOVERED" for d d' i s v st m n
    using that by (auto simp: atomic_transition_with_next_action_at_def update_cases_def no_recovery_def cases_with_def
        set_upd_where split: if_splits)
qed (auto simp: no_recovery_def cases_with_def new_uuid_def update_actions_def flush_action_def dest!: insert_Inr split: if_splits)

lemma executor_audit_actions: "executor_audit c a ev p d = Inr d' \<Longrightarrow> recovery_actions d' = recovery_actions d"
  by (auto simp: executor_audit_def Let_def new_uuid_def dest!: insert_Inr)

lemma try_transition_actions: "try_transition i s v t d = Inr d' \<Longrightarrow> recovery_actions d' = recovery_actions d"
  by (auto simp: try_transition_def same_actions_def dest!: transition_same_actions(1) split: sum.splits exc.splits)

lemma action_transition_jobs:
  assumes "atomic_action_transition i s t d = (n, d1)" and "get_action d i = Some a"
  shows "jobs_of d1 = (if ra_status a = s then (jobs_of d)(i \<mapsto> (ra_recovery_case_id a, t)) else jobs_of d)"
proof (cases "ra_status a = s")
  case True
  with assms show ?thesis
    by (auto simp: atomic_action_transition_def update_actions_def intro!: jobs_of_upd)
next
  case False
  have d1: "recovery_actions d1 = upd_where (\<lambda>a. ra_id a = i \<and> ra_status a = s)
       (\<lambda>a. a\<lparr>ra_status := t, ra_updated_at := clock d\<rparr>) (recovery_actions d)"
    using assms(1) by (auto simp: atomic_action_transition_def update_actions_def)
  have "jobs_of d1 j = jobs_of d j" for j
    using False assms(2) action_table.get_key [of d j]
    by (cases "get_action d j") (auto simp: jobs_of_def get_defs d1 get_row_upd_where)
  then show ?thesis using False by (simp add: fun_eq_iff)
qed

lemma get_or_create_actions:
  "get_or_create_default_policy (\<lambda>d. d) m d = Inr (p, d') \<Longrightarrow> recovery_actions d' = recovery_actions d"
  by (drule arg_cong [where f = recovery_actions, OF get_or_create_frame]) simp

lemma cancel_action_jobs:
  assumes "cancel_action c a p d = Inr (cl, d')" and "get_action d (ra_id a) = Some a"
  shows "(\<exists>x. cl = Not_claimed x) \<and> (jobs_of d' = jobs_of d
     \<or> ra_status a = A_APPROVED \<and> jobs_of d' = (jobs_of d)(ra_id a \<mapsto> (ra_recovery_case_id a, A_CANCELLED)))"
proof -
  obtain n d1 where t: "atomic_action_transition (ra_id a) A_APPROVED A_CANCELLED d = (n, d1)" by fastforce
  have "recovery_actions d' = recovery_actions d1 \<and> (\<exists>x. cl = Not_claimed x)"
    using assms(1) by (auto simp: cancel_action_def t Let_def dest!: executor_audit_actions try_transition_actions split: if_splits)
  then show ?thesis using action_transition_jobs [OF t assms(2)] jobs_of_same by metis
qed

lemma take_action_jobs:
  assumes "take_action pay c a d = Inr (cl, d')" and "get_action d (ra_id a) = Some a"
  shows "case cl of Not_claimed x \<Rightarrow> jobs_of d' = jobs_of d
     | Claimed cx \<Rightarrow> cx_action_id cx = ra_id a \<and> ra_status a = A_APPROVED
         \<and> jobs_of d' = (jobs_of d)(ra_id a \<mapsto> (ra_recovery_case_id a, A_EXECUTING))"
proof -
  obtain n d1 where t: "atomic_action_transition (ra_id a) A_APPROVED A_EXECUTING d = (n, d1)" by fastforce
  have n: "n = count_where (\<lambda>b. ra_id b = ra_id a \<and> ra_status b = A_APPROVED) (recovery_actions d)"
    using t by (auto simp: atomic_action_transition_def update_actions_def)
  have "ra_status a = A_APPROVED \<Longrightarrow> n \<noteq> 0"
    using get_row_SomeD [OF assms(2) [unfolded get_defs]] by (auto simp: n count_where_0_iff)
  then show ?thesis
    using assms(1) action_transition_jobs [OF t assms(2)]
    by (auto simp: take_action_def t Let_def dest!: executor_audit_actions jobs_of_same split: if_splits)
qed

lemma claim_action_jobs:
  assumes "claim_action no_exec_rivals i d = Inr (cl, d')"
  shows "case cl of
       Not_claimed x \<Rightarrow> jobs_of d' = jobs_of d
         \<or> (\<exists>k. jobs_of d i = Some (k, A_APPROVED) \<and> jobs_of d' = (jobs_of d)(i \<mapsto> (k, A_CANCELLED)))
     | Claimed cx \<Rightarrow> cx_action_id cx = i \<and> (\<exists>k c. get_case d k = Some c \<and> \<not> is_terminal (rc_status c)
         \<and> jobs_of d i = Some (k, A_APPROVED) \<and> jobs_of d' = (jobs_of d)(i \<mapsto> (k, A_EXECUTING)))"
proof (cases "get_action d i")
  case None
  with assms show ?thesis by (auto simp: claim_action_def)
next
  case a: (Some a)
  have i: "ra_id a = i" using action_table.get_key [OF a] .
  show ?thesis
  proof (cases "get_case d (ra_recovery_case_id a)")
    case None
    with a assms show ?thesis by (auto simp: claim_action_def)
  next
    case c: (Some c)
    from assms obtain p d1 where p: "get_or_create_default_policy (\<lambda>d. d) (rc_merchant_id c) d = Inr (p, d1)"
      and rest: "(if \<not> claim_allowed c a (claim_decision p c a d1) then cancel_action c a (claim_decision p c a d1) d1
          else take_action (get_payment d (rc_payment_id c)) c a d1) = Inr (cl, d')"
      by (auto simp: claim_action_def a c Let_def)
    have same: "jobs_of d1 = jobs_of d" and a1: "get_action d1 (ra_id a) = Some a"
      using get_or_create_actions [OF p] a i by (auto intro: jobs_of_same simp: get_defs)
    have ji: "jobs_of d i = Some (ra_recovery_case_id a, ra_status a)" by (simp add: jobs_of_def a)
    show ?thesis
    proof (cases "claim_allowed c a (claim_decision p c a d1)")
      case True
      then show ?thesis
        using take_action_jobs [OF _ a1, of _ c cl d'] rest c ji
        by (cases cl) (auto simp: same i claim_allowed_def)
    next
      case False
      then show ?thesis using cancel_action_jobs [OF _ a1, of c "claim_decision p c a d1" cl d'] rest ji by (auto simp: same i)
    qed
  qed
qed

lemma flush_action_jobs:
  assumes "flush_action b d = Inr d'" and "get_action d (ra_id b) = Some a"
    and "ra_recovery_case_id b = ra_recovery_case_id a"
  shows "jobs_of d' = (jobs_of d)(ra_id b \<mapsto> (ra_recovery_case_id a, ra_status b))"
proof -
  have d': "d' = d\<lparr>recovery_actions := upd_where (\<lambda>q. ra_id q = ra_id b) (\<lambda>_. b\<lparr>ra_updated_at := clock d\<rparr>) (recovery_actions d)\<rparr>"
    using assms(1) by (auto simp: flush_action_def)
  have "get_row ra_id j (upd_where (\<lambda>q. ra_id q = ra_id b) (\<lambda>_. b\<lparr>ra_updated_at := clock d\<rparr>) xs)
      = (if j = ra_id b then map_option (\<lambda>_. b\<lparr>ra_updated_at := clock d\<rparr>) (get_row ra_id j xs) else get_row ra_id j xs)" for j xs
    by (induction xs) auto
  then have "get_action d' j = (if j = ra_id b then Some (b\<lparr>ra_updated_at := clock d\<rparr>) else get_action d j)" for j
    using assms(2) by (simp add: get_defs d')
  then show ?thesis using assms(3) by (auto simp: fun_eq_iff jobs_of_def)
qed

lemma execute_claimed_jobs:
  fixes cx d
  defines "i \<equiv> cx_action_id cx"
  shows "jobs_of (snd (execute_claimed env no_exec_rivals cx d)) = jobs_of d
    \<or> (\<exists>k st. st \<in> {A_EXECUTED, A_FAILED} \<and> jobs_of d i = Some (k, A_EXECUTING)
        \<and> jobs_of (snd (execute_claimed env no_exec_rivals cx d)) = (jobs_of d)(i \<mapsto> (k, st)))"
proof -
  define ok where "ok d' \<longleftrightarrow> jobs_of d' = jobs_of d
    \<or> (\<exists>k st. st \<in> {A_EXECUTED, A_FAILED} \<and> jobs_of d i = Some (k, A_EXECUTING) \<and> jobs_of d' = (jobs_of d)(i \<mapsto> (k, st)))" for d'
  have same: "ok d'" if "recovery_actions d' = recovery_actions d" for d' using jobs_of_same [OF that] by (simp add: ok_def)
  have fl: "ok d'" if "flush_action b d = Inr d1" "recovery_actions d' = recovery_actions d1" "get_action d i = Some a"
    "ra_status a = A_EXECUTING" "ra_status b \<in> {A_EXECUTED, A_FAILED}" "ra_id b = i"
    "ra_recovery_case_id b = ra_recovery_case_id a" for a b d1 d'
    using flush_action_jobs [OF that(1)] jobs_of_same [OF that(2)] that(3-) unfolding ok_def
    by (intro disjI2 exI [of _ "ra_recovery_case_id a"] exI [of _ "ra_status b"]) (simp add: jobs_of_def)
  have s: "ok d'" if "finalize_success_body cx ref details d = Inr ((), d')" for ref details d'
    using that action_table.get_key [of d i]
    by (auto simp: finalize_success_body_def i_def [symmetric] Let_def
        dest!: executor_audit_actions try_transition_actions intro: fl same split: option.splits if_splits)
  have f: "ok d'" if "finalize_failure_body cx err d = Inr ((), d')" for err d'
    using that action_table.get_key [of d i]
    by (auto simp: finalize_failure_body_def i_def [symmetric] Let_def
        dest!: executor_audit_actions intro: fl same split: option.splits if_splits)
  have "ok (snd (finalize_success cx ref details d))" "ok (snd (finalize_failure cx err d))" for ref details err
    using s f same by (auto simp: finalize_success_def finalize_failure_def in_transaction_def split: sum.splits)
  then have "ok (snd (execute_claimed env no_exec_rivals cx d))" unfolding execute_claimed_def no_exec_rivals_simps
    by (auto split: sum.splits prod.splits) (metis snd_conv)+
  then show ?thesis by (simp add: ok_def)
qed

subsection \<open>The webhooks\<close>

text \<open>A webhook leaves actions and recovered cases alone, or it recovers one case.\<close>

definition calm :: "db \<Rightarrow> db \<Rightarrow> bool" where
  "calm d d' \<longleftrightarrow> recovery_actions d' = recovery_actions d \<and> recovered_cases d' \<subseteq> recovered_cases d"

interpretation calm_order: state_preorder calm
  by unfold_locales (auto simp: calm_def)

lemma calm_same: "recovery_actions d' = recovery_actions d \<Longrightarrow> recovery_cases d' = recovery_cases d \<Longrightarrow> calm d d'"
  by (simp add: calm_def cases_with_def)

lemma calm_inserts:
  "insert_audit m et ei ev co pl d = Inr d' \<Longrightarrow> calm d d'"
  "insert_outbox_if_missing m aty ai ev k pl d = Inr (b, d') \<Longrightarrow> calm d d'"
  "insert_case c d = Inr d' \<Longrightarrow> rc_status c \<noteq> RECOVERED \<Longrightarrow> calm d d'"
  "flush_case c d = Inr d' \<Longrightarrow> rc_status c \<noteq> RECOVERED \<Longrightarrow> calm d d'"
  "calm d (snd (new_uuid d))"
  using insert_audit_frame insert_outbox_if_missing_frame(1)
  by (blast intro: calm_same, blast intro: calm_same,
      auto simp: calm_def cases_with_def flush_case_def set_upd_where new_uuid_def dest!: insert_Inr split: if_splits)

lemma eligible_transition: "transition_recovery_case c ELIGIBLE = Inr c' \<Longrightarrow> rc_status c' \<noteq> RECOVERED"
  by (auto simp: transition_recovery_case_def split: sum.splits if_splits)

lemma announcement_calm:
  assumes "transition_recovery_case c ELIGIBLE = Inr c'" and "flush_case c' d = Inr d1"
    and "insert_audit m et ei ev co pl d1 = Inr d2" and "insert_outbox_if_missing m' aty ai ev' k pl' d2 = Inr (b, d')"
  shows "calm d d'"
  using calm_inserts(4) [OF assms(2) eligible_transition [OF assms(1)]] calm_inserts(1) [OF assms(3)]
    calm_inserts(2) [OF assms(4)] calm_order.state_trans by blast

lemma open_case_calm: "keeps_rel calm d (open_case m e p co d)"
  unfolding open_case_def Let_def case_prod_beta eligible_outbox_def
  by (rule calm_order.bind_db_rule [OF calm_inserts(3) calm_inserts(5)], assumption, simp add: new_failed_case_def)
    (rule calm_order.trans_rule, assumption, auto intro!: keeps_relI intro: announcement_calm)

lemma activate_case_calm: "keeps_rel calm d (activate_case m p c co d)"
  unfolding activate_case_def eligible_outbox_def by (auto intro!: keeps_relI intro: announcement_calm)

lemma payment_failed_calm:
  assumes "handle_payment_failed (\<lambda>d. d) m e a c co d = Inr (r, d')"
  shows "calm d d'"
proof -
  have fp: "calm d d'" if "fail_payment (\<lambda>d. d) m e a c co ex d = Inr (r, d')" for ex
  proof -
    from that obtain p d1 found where st: "store_failed_payment (\<lambda>d. d) m e a c ex d = Inr (p, d1)"
      and rest: "(case found of None \<Rightarrow> open_case m e p co d1
         | Some rc \<Rightarrow> if rc_status rc = FAILED then activate_case m p rc co d1
             else Inr ([(''outcome'', JStr ''recovery_case_already_exists''), (''recovery_case_id'', JStr (uuid_str (rc_id rc)))], d1))
        = Inr (r, d')"
      unfolding fail_payment_def res_bind_Inr by auto
    have "calm d d1" using store_payment_same(1) [OF st] calm_same by blast
    moreover have "calm d1 d'"
      using rest keeps_relD [OF open_case_calm] keeps_relD [OF activate_case_calm] calm_order.state_refl
      by (auto split: option.splits if_splits)
    ultimately show ?thesis by (rule calm_order.state_trans)
  qed
  from assms have "d' = d \<or> (\<exists>ex. fail_payment (\<lambda>d. d) m e a c co ex d = Inr (r, d'))"
    unfolding handle_payment_failed_def res_bind_Inr by (auto split: option.splits if_splits)
  with fp calm_order.state_refl show ?thesis by blast
qed

text \<open>Case \<open>k\<close> is recovered.\<close>

definition recovers :: "uuid \<Rightarrow> db \<Rightarrow> db \<Rightarrow> bool" where
  "recovers k d d' \<longleftrightarrow> (\<exists>c v t. c \<in> set (recovery_cases d) \<and> rc_id c = k \<and> \<not> is_terminal (rc_status c)
     \<and> recovery_cases d' = upd_where (\<lambda>q. rc_id q = k)
         (\<lambda>q. q\<lparr>rc_status := RECOVERED, rc_version := v, rc_updated_at := t\<rparr>) (recovery_cases d)
     \<and> recovery_actions d' = recovery_actions (cancel_open_actions k d))"

definition webhook_effect :: "db \<Rightarrow> db \<Rightarrow> bool" where
  "webhook_effect d d' \<longleftrightarrow> calm d d' \<or> (\<exists>k. recovers k d d')"

lemma mark_case_recovered_effect:
  assumes "mark_case_recovered m p c co d = Inr (r, d')" and "c \<in> set (recovery_cases d)"
  shows "webhook_effect d d'"
proof (cases "is_terminal (rc_status c)")
  case True
  with assms(1) show ?thesis using calm_order.state_refl by (simp add: mark_case_recovered_def webhook_effect_def)
next
  case False
  from mark_case_recovered_Inr [OF this assms(1)] obtain d1 where d1: "d1 = d\<lparr>recovery_cases := upd_where (\<lambda>q. rc_id q = rc_id c)
      (\<lambda>q. q\<lparr>rc_status := RECOVERED, rc_version := rc_version c + 1, rc_updated_at := clock d\<rparr>) (recovery_cases d)\<rparr>"
    and "recovery_cases d' = recovery_cases d1" "recovery_actions d' = recovery_actions (cancel_open_actions (rc_id c) d1)"
    by metis
  then have "recovers (rc_id c) d d'"
    using assms(2) False unfolding recovers_def
    by (intro exI [of _ c] exI [of _ "rc_version c + 1"] exI [of _ "clock d"]) (simp add: cancel_open_actions_def update_actions_def)
  then show ?thesis by (auto simp: webhook_effect_def)
qed

lemma payment_captured_effect:
  assumes "handle_payment_captured (\<lambda>d. d) m e a c co d = Inr (r, d')"
  shows "webhook_effect d d'"
proof -
  from assms obtain ex p d1 where st: "store_captured_payment (\<lambda>d. d) m e a c ex d = Inr (p, d1)"
    and rest: "(case noted_case m e d1 of
         Some c \<Rightarrow> mark_case_recovered m p c co d1
       | None \<Rightarrow> res_bind (get_recovery_case_by_payment (pay_id p) d1) (\<lambda>found.
             case found of
               None \<Rightarrow> Inr ([(''outcome'', JStr ''payment_captured_no_recovery_case''), (''payment_id'', JStr (uuid_str (pay_id p)))], d1)
             | Some c \<Rightarrow> mark_case_recovered m p c co d1)) = Inr (r, d')"
    unfolding handle_payment_captured_def res_bind_Inr by auto
  have stored: "c \<in> set (recovery_cases d1)" if "get_recovery_case_by_payment (pay_id p) d1 = Inr (Some c)" for c
    using that by (auto simp: get_recovery_case_by_payment_def dest: one_or_none_filter)
  have noted: "c \<in> set (recovery_cases d1)" if "noted_case m e d1 = Some c" for c
    using get_row_SomeD [OF noted_case_Some(1) [OF that, unfolded get_defs]] by simp
  have "webhook_effect d1 d'"
  proof (cases "noted_case m e d1")
    case None
    with rest obtain found where "get_recovery_case_by_payment (pay_id p) d1 = Inr found" by auto
    with None rest show ?thesis
      using mark_case_recovered_effect [OF _ stored] calm_order.state_refl [of d1]
      by (cases found) (auto simp: webhook_effect_def)
  next
    case (Some c')
    with rest show ?thesis using mark_case_recovered_effect [OF _ noted] by simp
  qed
  moreover have "recovery_actions d1 = recovery_actions d" "recovery_cases d1 = recovery_cases d" "clock d1 = clock d"
    using store_payment_same(2) [OF st] st
    by (auto simp: store_captured_payment_def Let_def new_uuid_def flush_payment_def dest!: insert_Inr split: option.splits if_splits)
  ultimately show ?thesis
    by (auto simp: webhook_effect_def calm_def recovers_def cases_with_def cancel_open_actions_def update_actions_def)
qed

lemma razorpay_webhook_effect: "webhook_effect d (snd (razorpay_webhook env (\<lambda>d. d) m body sig rid d))"
proof -
  have refl: "webhook_effect d d" using calm_order.state_refl by (simp add: webhook_effect_def)
  have pr: "webhook_effect d0 d'" if "process_razorpay_event env (\<lambda>d. d) m' dto co d0 = Inr ((r, st), d')" for m' dto co d0 r st d'
    using that payment_failed_calm payment_captured_effect calm_order.state_refl
    by (auto simp: process_razorpay_event_def webhook_effect_def split: if_splits) blast+
  have "webhook_effect d d'" if "webhook_transaction env (\<lambda>d. d) m pid dto co d = Inr (r, d')" for pid dto co r d'
  proof -
    from that obtain row d2 st d3 w where i: "insert_webhook row (snd (new_uuid d)) = Inr d2"
      and p: "process_razorpay_event env (\<lambda>d. d) m dto co d2 = Inr ((r, st), d3)" and f: "flush_webhook w d3 = Inr d'"
      by (rule webhook_transaction_Inr)
    have "recovery_actions d2 = recovery_actions d \<and> recovery_cases d2 = recovery_cases d \<and> clock d2 = clock d"
      "recovery_actions d' = recovery_actions d3 \<and> recovery_cases d' = recovery_cases d3"
      using insert_Inr(5) [OF i] f by (auto simp: new_uuid_def flush_webhook_def)
    with pr [OF p] show ?thesis
      by (auto simp: webhook_effect_def calm_def recovers_def cases_with_def cancel_open_actions_def update_actions_def)
  qed
  with refl show ?thesis
    by (auto simp: razorpay_webhook_def in_transaction_def split: sum.splits exc.splits prod.splits)
qed

subsection \<open>The system follows the protocol\<close>

text \<open>A step that recovers no case is at most one step of its action, and then closes cases.\<close>

lemma then_close:
  assumes ok: "db_ok (store s)" and ev: "db_step (store s) (store s')" and rec: "no_recovery (store s) (store s')"
    and act: "jobs_of (store s') = jobs_of (store s) \<and> called s' = called s
      \<or> board_step (board_of s) ((board_of s)\<lparr>jobs := jobs_of (store s'), calls := called s'\<rparr>)"
  shows "board_step\<^sup>*\<^sup>* (board_of s) (board_of s')"
proof -
  define b where "b = (board_of s)\<lparr>jobs := jobs_of (store s'), calls := called s'\<rparr>"
  have e: "db_evolves (store s) (store s')" using db_step_evolves [OF ev ok] .
  have "board_step\<^sup>*\<^sup>* (board_of s) b" using act by (auto simp: b_def board_of_def)
  moreover have "board_step b (b\<lparr>shut := cases_with is_terminal (store s')\<rparr>)"
    by (rule Close) (simp add: b_def board_of_def closed_mono [OF e])
  moreover have "b\<lparr>shut := cases_with is_terminal (store s')\<rparr> = board_of s'"
    using recovered_mono [OF e] rec by (auto simp: b_def board_of_def no_recovery_def)
  ultimately show ?thesis by (metis rtranclp.rtrancl_into_rtrancl)
qed

lemma calm_board:
  assumes "db_ok (store s)" and "db_step (store s) (store s')" and "calm (store s) (store s')" and "called s' = called s"
  shows "board_step\<^sup>*\<^sup>* (board_of s) (board_of s')"
  by (rule then_close [OF assms(1,2)])
    (use assms(3,4) jobs_of_same [of "store s'" "store s"] in \<open>simp_all add: calm_def no_recovery_def\<close>)

lemma recovers_board:
  assumes "recovers k (store s) (store s')" and "db_ok (store s)" and "called s' = called s"
  shows "board_step (board_of s) (board_of s')"
proof -
  let ?d = "store s" and ?d' = "store s'"
  from assms(1) obtain c v t where c: "c \<in> set (recovery_cases ?d)" "rc_id c = k" "\<not> is_terminal (rc_status c)"
    and rows: "recovery_cases ?d' = upd_where (\<lambda>q. rc_id q = k)
         (\<lambda>q. q\<lparr>rc_status := RECOVERED, rc_version := v, rc_updated_at := t\<rparr>) (recovery_cases ?d)"
    and acts: "recovery_actions ?d' = recovery_actions (cancel_open_actions k ?d)"
    unfolding recovers_def by blast
  have g: "get_case ?d k = Some c"
    using get_row_distinct [OF db_ok_distinct(3) [OF assms(2)] c(1)] c(2) by (simp add: get_defs)
  have js: "jobs_of ?d' = cancel_jobs k (jobs_of ?d)"
    by (auto simp: fun_eq_iff jobs_of_def cancel_jobs_def get_defs acts cancel_open_actions_def update_actions_def
        get_row_upd_where option.map_comp open_status_def intro!: option.map_cong)
  have cs: "cases_with p ?d' = insert k (cases_with p ?d)" if "p RECOVERED" for p
  proof
    show "cases_with p ?d' \<subseteq> insert k (cases_with p ?d)" by (auto simp: cases_with_def rows set_upd_where split: if_splits)
    have "k \<in> cases_with p ?d'" using c(1,2) that by (auto simp: cases_with_def rows set_upd_where image_iff)
    then show "insert k (cases_with p ?d) \<subseteq> cases_with p ?d'"
      using that by (auto simp: cases_with_def rows set_upd_where image_iff)
  qed
  have "is_terminal RECOVERED" by (simp add: is_terminal_def TERMINAL_STATES_def)
  then have "board_of s' = (board_of s)\<lparr>jobs := cancel_jobs k (jobs (board_of s)), shut := insert k (shut (board_of s)),
      recovered := insert k (recovered (board_of s))\<rparr>"
    using cs [of is_terminal] cs [of "\<lambda>st. st = RECOVERED"] js assms(3) by (simp add: board_of_def)
  moreover have "k \<notin> shut (board_of s)"
    using not_in_cases_with [of "store s" k c is_terminal] assms(2) g c(3) by (simp add: board_of_def)
  ultimately show ?thesis by (metis Recover)
qed

lemma process_eligible_board:
  assumes "db_ok d" and "d' = snd (process_eligible_event env no_worker_rivals i d)"
  shows "jobs_of d' = jobs_of d
    \<or> (\<exists>j k. jobs_of d j = None \<and> k \<notin> cases_with is_terminal d \<and> jobs_of d' = (jobs_of d)(j \<mapsto> (k, A_APPROVED)))"
proof -
  have ok: "db_ok d'" using process_eligible_event_step [OF assms(1) no_worker_rivals_ok] assms db_step_ok by blast
  have "recovery_actions d' = recovery_actions d
    \<or> (\<exists>a c. recovery_actions d' = recovery_actions d @ [a] \<and> ra_status a = A_APPROVED
         \<and> get_case d (ra_recovery_case_id a) = Some c \<and> rc_status c = ELIGIBLE)"
    using assms(2) worker_actions
    by (auto simp: process_eligible_event_def in_transaction_def split: option.splits sum.splits prod.splits) blast
  then show ?thesis
  proof
    assume "\<exists>a c. recovery_actions d' = recovery_actions d @ [a] \<and> ra_status a = A_APPROVED
         \<and> get_case d (ra_recovery_case_id a) = Some c \<and> rc_status c = ELIGIBLE"
    then obtain a c where a: "recovery_actions d' = recovery_actions d @ [a]" "ra_status a = A_APPROVED"
      and c: "get_case d (ra_recovery_case_id a) = Some c" "rc_status c = ELIGIBLE" by blast
    have "ra_recovery_case_id a \<notin> cases_with is_terminal d"
      by (rule not_in_cases_with [OF assms(1) c(1)]) (simp add: c(2) is_terminal_def TERMINAL_STATES_def)
    with jobs_of_append [OF a(1) ok] a(2) show ?thesis by metis
  qed (rule disjI1, rule jobs_of_same)
qed

lemma sys_step_board:
  assumes step: "sys_step w s s'" and ok: "db_ok (store s)"
  shows "board_step\<^sup>*\<^sup>* (board_of s) (board_of s')"
proof -
  have ev: "db_step (store s) (store s')" using sys_step_db [OF step ok] .
  note close = then_close [OF ok ev]
  from step show ?thesis
  proof cases
    case (Webhook m body sig rid)
    then have called: "called s' = called s" and "webhook_effect (store s) (store s')"
      using razorpay_webhook_effect [of "store s"] by simp_all
    then show ?thesis
      using calm_board [OF ok ev _ called] recovers_board [OF _ ok called] unfolding webhook_effect_def by blast
  next
    case (Dispatch publish locked batch r d' sent)
    have fl: "recovery_actions d2 = recovery_actions d1 \<and> recovery_cases d2 = recovery_cases d1"
      if "flush_events bs d1 = Inr d2" for bs d1 d2
      using that by (induction bs arbitrary: d1) (auto simp: flush_outbox_def)
    have "recovery_actions d' = recovery_actions (store s) \<and> recovery_cases d' = recovery_cases (store s)"
      using Dispatch(2) fl
      by (auto simp: dispatch_outbox_events_def dispatch_transaction_def in_transaction_def Let_def split: sum.splits if_splits prod.splits)
    then show ?thesis using calm_same Dispatch by (intro calm_board [OF ok ev]) simp_all
  next
    case (Analyse i q b)
    then have d': "store s' = snd (process_eligible_event (agent_side w) no_worker_rivals i (store s))" "called s' = called s" by simp_all
    have "no_recovery (store s) (store s')" unfolding d'(1) by (rule recovery_frame.process_eligible)
    moreover have "jobs_of (store s') = jobs_of (store s) \<or> board_step (board_of s) ((board_of s)\<lparr>jobs := jobs_of (store s')\<rparr>)"
      using process_eligible_board [OF ok d'(1)] Propose [of "board_of s"] by (auto simp: board_of_def)
    ultimately show ?thesis using close d'(2) by (simp add: board_of_def)
  next
    case (Claim i q b a r d')
    have "no_recovery (store s) (snd (in_transaction (claim_action no_exec_rivals a) (store s)))"
      by (rule recovery_frame.transaction [OF recovery_frame.claim])
    with Claim have "no_recovery (store s) (store s')" by simp
    moreover have "jobs_of (store s') = jobs_of (store s) \<and> called s' = called s
      \<or> board_step (board_of s) ((board_of s)\<lparr>jobs := jobs_of (store s'), calls := called s'\<rparr>)"
    proof (cases "claim_action no_exec_rivals a (store s)")
      case (Inl e)
      with Claim show ?thesis by (auto simp: in_transaction_def)
    next
      case (Inr x)
      obtain cl where x: "x = (cl, d')" and r: "r = Inr cl" using Claim(6) Inr by (cases x) (auto simp: in_transaction_def)
      note jobs = claim_action_jobs [OF Inr [unfolded x]]
      show ?thesis
      proof (cases cl)
        case (Claimed cx)
        with jobs obtain k c where "cx_action_id cx = a" "get_case (store s) k = Some c" "\<not> is_terminal (rc_status c)"
          "jobs_of (store s) a = Some (k, A_APPROVED)" "jobs_of d' = (jobs_of (store s))(a \<mapsto> (k, A_EXECUTING))" by auto
        then show ?thesis
          using Call [of "board_of s" a k] not_in_cases_with [OF ok, of k c is_terminal] Claim(1) r Claimed
          by (simp add: board_of_def)
      next
        case (Not_claimed y)
        then show ?thesis using jobs Withdraw [of "board_of s" a] Claim(1) r by (auto simp: board_of_def)
      qed
    qed
    ultimately show ?thesis by (rule close)
  next
    case (Record cx)
    then have d': "store s' = snd (execute_claimed (exec_side w) no_exec_rivals cx (store s))" "called s' = called s" by simp_all
    have "no_recovery (store s) (store s')" unfolding d'(1) by (rule recovery_frame.execute)
    moreover have "jobs_of (store s') = jobs_of (store s) \<or> board_step (board_of s) ((board_of s)\<lparr>jobs := jobs_of (store s')\<rparr>)"
      using execute_claimed_jobs [of "exec_side w" cx "store s"] Finish [of "board_of s" "cx_action_id cx"]
      unfolding d'(1) by (auto simp: board_of_def)
    ultimately show ?thesis using close d'(2) by (simp add: board_of_def)
  qed (use calm_board [OF ok ev calm_same] in simp_all)
qed

lemma sys_run_board:
  assumes "sys_run w s s'" and "db_ok (store s)"
  shows "board_step\<^sup>*\<^sup>* (board_of s) (board_of s')"
  using assms
proof (induction rule: rtranclp_induct)
  case (step s1 s2)
  then have "board_step\<^sup>*\<^sup>* (board_of s1) (board_of s2)" using sys_run_db sys_step_board by blast
  with step show ?case by auto
qed blast


subsection \<open>Every call is accounted for\<close>

text \<open>
  No action was called for twice; the actions called for are exactly those the database shows as
  executing, executed or failed; and no pending or approved action belongs to a recovered case.
\<close>

definition accounted :: "system \<Rightarrow> bool" where
  "accounted s \<longleftrightarrow> distinct (called s)
     \<and> set (called s) = set (map ra_id (filter (\<lambda>a. ra_status a \<in> {A_EXECUTING, A_EXECUTED, A_FAILED}) (recovery_actions (store s))))
     \<and> list_all (\<lambda>a. ra_status a \<in> {A_PENDING, A_APPROVED} \<longrightarrow> ra_recovery_case_id a \<notin> recovered_cases (store s))
         (recovery_actions (store s))"

lemma jobs_of_iff:
  "db_ok d \<Longrightarrow> jobs_of d j = Some (k, st) \<longleftrightarrow>
     (\<exists>a \<in> set (recovery_actions d). ra_id a = j \<and> ra_recovery_case_id a = k \<and> ra_status a = st)"
  using get_row_SomeD [of ra_id j "recovery_actions d"] get_row_distinct [OF db_ok_distinct(4)]
  by (auto simp: jobs_of_def get_defs)

lemma board_ok_iff_accounted:
  assumes "db_ok (store s)"
  shows "board_ok (board_of s) \<longleftrightarrow> accounted s"
proof -
  have "recovered_cases (store s) \<subseteq> cases_with is_terminal (store s)"
    by (auto simp: cases_with_def is_terminal_def TERMINAL_STATES_def)
  moreover have "(\<exists>k st. jobs_of (store s) j = Some (k, st) \<and> underway st)
      \<longleftrightarrow> j \<in> set (map ra_id (filter (\<lambda>a. ra_status a \<in> {A_EXECUTING, A_EXECUTED, A_FAILED}) (recovery_actions (store s))))" for j
    unfolding jobs_of_iff [OF assms] underway_def by fastforce
  moreover have "(\<forall>j k st. jobs_of (store s) j = Some (k, st) \<and> open_status st \<longrightarrow> k \<notin> recovered_cases (store s))
      \<longleftrightarrow> list_all (\<lambda>a. ra_status a \<in> {A_PENDING, A_APPROVED} \<longrightarrow> ra_recovery_case_id a \<notin> recovered_cases (store s))
           (recovery_actions (store s))"
    unfolding jobs_of_iff [OF assms] open_status_def list_all_iff by blast
  ultimately show ?thesis by (simp add: board_ok_def accounted_def board_of_def set_eq_iff)
qed


end
