(* ===== verification/Witnesses_System.thy ===== *)
theory Witnesses_System
  imports Witnesses Action_Protocol
begin

text \<open>
  The theorems on the executor's outcome and on the whole system, applied to concrete runs.
\<close>

subsection \<open>Executor outcome\<close>

lemma demo_executing:
  "executing cx (demo_action\<lparr>ra_status := A_EXECUTING\<rparr>) (demo_case\<lparr>rc_status := ACTION_SCHEDULED, rc_version := 5\<rparr>)
     (scheduled_db\<lparr>recovery_actions := [demo_action\<lparr>ra_status := A_EXECUTING\<rparr>]\<rparr>)"
  if "cx_action_id cx = 5" "cx_case_id cx = 4" for cx
proof -
  have "db_ok (scheduled_db\<lparr>recovery_actions := [demo_action\<lparr>ra_status := A_EXECUTING\<rparr>]\<rparr>)" by code_simp
  then show ?thesis using that
    by (simp add: executing_def get_defs scheduled_db_def base_db_def empty_db_def demo_action_def demo_case_def integer_ok_def)
qed

definition demo_context :: exec_context where
  "demo_context = \<lparr>cx_action_id = 5, cx_case_id = 4, cx_merchant_id = 1, cx_action_type = WAIT, cx_idempotency_key = ''k'',
     cx_amount_minor = 7999, cx_currency = ''INR'', cx_original_provider_payment_id = None\<rparr>"

theorem execution_recorded_witness:
  "\<exists>d' b. execute_claimed demo_exec_env no_exec_rivals demo_context
         (scheduled_db\<lparr>recovery_actions := [demo_action\<lparr>ra_status := A_EXECUTING\<rparr>]\<rparr>)
       = (Inr [(''status'', JStr ''executed''), (''action_type'', JStr ''WAIT''), (''provider_reference'', JNull)], d')
     \<and> get_action d' 5 = Some b \<and> ra_status b = A_EXECUTED"
proof -
  let ?d = "scheduled_db\<lparr>recovery_actions := [demo_action\<lparr>ra_status := A_EXECUTING\<rparr>]\<rparr>"
  have "execute_external demo_exec_env demo_context = Inr (JNull, [(''wait'', JStr ''completed'')])"
    by (simp add: execute_external_def demo_context_def)
  moreover have "executing demo_context (demo_action\<lparr>ra_status := A_EXECUTING\<rparr>)
     (demo_case\<lparr>rc_status := ACTION_SCHEDULED, rc_version := 5\<rparr>) (during_call no_exec_rivals ?d)"
    using demo_executing by (simp add: demo_context_def)
  ultimately show ?thesis
    using execution_recorded [where cx = demo_context and rv = no_exec_rivals and d = ?d and env = demo_exec_env]
    by (simp add: storable_reference_def demo_context_def) blast
qed

lemma demo_closed:
  "get_action closed_db 5 = Some demo_action" "get_case closed_db (ra_recovery_case_id demo_action) = Some (demo_case\<lparr>rc_status := RECOVERED, rc_version := 6\<rparr>)"
  "is_terminal (rc_status (demo_case\<lparr>rc_status := RECOVERED, rc_version := 6\<rparr>))" "db_ok closed_db"
  by code_simp+

subsection \<open>System\<close>

lemma demo_announced: "announced eligible_db" "announced waiting_db"
proof -
  have d: "announces 4 demo_event" "shaped demo_event" "shaped demo_scheduled_event"
    using shaped_other(1) by (simp_all add: announces_def shaped_def demo_event_def eligible_key_def obj_get_def demo_scheduled_event_def)
  show "announced eligible_db" "announced waiting_db"
    using d by (simp_all add: announced_def eligible_db_def waiting_db_def scheduled_db_def demo_case_def)
qed

lemma demo_start: "start_state (demo_system eligible_db)" "start_state (demo_system waiting_db)"
proof -
  have "db_ok waiting_db" by code_simp
  then show "start_state (demo_system eligible_db)" "start_state (demo_system waiting_db)"
    using demo_announced demo_db_ok(2) by (simp_all add: start_state_def demo_system_def)
qed

text \<open>A request and a tick from the eligible case.\<close>

definition after_capture :: system where
  "after_capture = (demo_system eligible_db)\<lparr>store :=
     snd (razorpay_webhook (web_side demo_world) (\<lambda>d. d) 1 ''capture'' (Some ''capture'') None (store (demo_system eligible_db)))\<rparr>"

lemma capture_run: "sys_run demo_world (demo_system eligible_db) after_capture"
  unfolding after_capture_def by (rule r_into_rtranclp) (rule Webhook)


definition after_tick :: system where
  "after_tick = (demo_system eligible_db)\<lparr>store := (store (demo_system eligible_db))\<lparr>clock := 99\<rparr>\<rparr>"

lemma tick_run: "sys_run demo_world (demo_system eligible_db) after_tick"
  unfolding after_tick_def
  by (rule r_into_rtranclp, rule Tick) (simp add: demo_system_def eligible_db_def base_db_def empty_db_def)

theorem cases_always_announced_witness:
  "\<exists>b \<in> set (outbox_events (store after_tick)). ob_idempotency_key b = eligible_key 4"
proof -
  have "demo_case \<in> set (recovery_cases (store after_tick))" "rc_id demo_case = 4"
    by (simp_all add: after_tick_def demo_system_def eligible_db_def demo_case_def)
  with cases_always_announced [OF demo_start(1) tick_run] show ?thesis by fastforce
qed

theorem eligible_case_can_progress_witness:
  "\<exists>s' c'. sys_run demo_world (demo_system eligible_db) s' \<and> get_case (store s') 4 = Some c' \<and> rc_version c' = rc_version demo_case + 3
    \<and> rc_status c' \<in> {ACTION_SCHEDULED, STOPPED, ESCALATED}"
proof -
  let ?s = "demo_system eligible_db"
  have s: "store ?s = eligible_db" by (simp add: demo_system_def)
  have b: "get_outbox eligible_db (ob_id demo_event) = Some demo_event" "announces 4 demo_event" "due (clock eligible_db) demo_event"
    "integer_ok (ob_attempts demo_event + 1)"
    by (simp_all add: eligible_db_def get_defs announces_def demo_event_def eligible_key_def obj_get_def due_def integer_ok_def)
  show ?thesis
    by (rule eligible_case_can_progress [where s = ?s and b = demo_event, unfolded s,
          OF demo_db_ok(2) demo_run_case(1,2) b demo_run_case(4-) demo_run_ids demo_run_keys])
qed

text \<open>The dispatch of the scheduled action's event, and its delivery to a worker that claims the action.\<close>

abbreviation scheduled_dispatch :: "(nat res \<times> db) \<times> outbox_event list" where
  "scheduled_dispatch \<equiv> dispatch_outbox_events (dispatch_settings demo_world) (broker_text demo_world) (\<lambda>_. Inr ())
     (\<lambda>i. i \<noteq> 7) (Some 1) waiting_db"


definition dispatched_db :: db where
  "dispatched_db = snd (fst scheduled_dispatch)"

lemma dispatched:
  "scheduled_dispatch = ((Inr 1, dispatched_db), [demo_scheduled_event])"
  "get_outbox dispatched_db 7 = Some (demo_scheduled_event\<lparr>ob_status := O_PUBLISHED, ob_published_at := Some 10, ob_attempts := 1\<rparr>)"
proof -
  have "fst (fst scheduled_dispatch) = Inr 1" "snd scheduled_dispatch = [demo_scheduled_event]" by code_simp+
  then show "scheduled_dispatch = ((Inr 1, dispatched_db), [demo_scheduled_event])"
    unfolding dispatched_db_def by (metis prod.collapse)
  show "get_outbox dispatched_db 7 = Some (demo_scheduled_event\<lparr>ob_status := O_PUBLISHED, ob_published_at := Some 10, ob_attempts := 1\<rparr>)"
    by code_simp
qed

abbreviation demo_claim :: "claim res \<times> db" where
  "demo_claim \<equiv> in_transaction (claim_action no_exec_rivals 5) dispatched_db"

definition after_claim :: system where
  "after_claim = start_call (fst demo_claim)
     \<lparr>store = snd demo_claim, broker = [uuid_str 7], in_flight = [], called = []\<rparr>"

lemma claim_run: "sys_run demo_world (demo_system waiting_db) after_claim"
proof -
  define s1 where "s1 = (demo_system waiting_db)\<lparr>store := dispatched_db,
     broker := broker (demo_system waiting_db) @ map (\<lambda>b. uuid_str (ob_id b)) [demo_scheduled_event]\<rparr>"
  have "sys_step demo_world (demo_system waiting_db) s1"
    unfolding s1_def by (rule Dispatch) (use dispatched(1) in \<open>simp add: demo_system_def\<close>)
  moreover have ev: "ob_event_type demo_scheduled_event = ''recovery_case.action_scheduled''" "ob_id demo_scheduled_event = 7"
    "uuid_of_json (obj_get (ob_payload demo_scheduled_event) ''recovery_action_id'') = Some 5"
    by (simp_all add: demo_scheduled_event_def action_scheduled_event_def obj_get_def demo_action_def)
  have "sys_step demo_world s1 (start_call (fst demo_claim) (s1\<lparr>store := snd demo_claim, broker := broker s1\<rparr>))"
    by (rule Claim [where i = "uuid_str 7" and a = 5
          and b = "demo_scheduled_event\<lparr>ob_status := O_PUBLISHED, ob_published_at := Some 10, ob_attempts := 1\<rparr>"])
      (use dispatched(2) ev in \<open>simp_all add: delivered_def s1_def message_event_def demo_system_def\<close>)
  moreover have "s1\<lparr>store := snd demo_claim, broker := broker s1\<rparr>
      = \<lparr>store = snd demo_claim, broker = [uuid_str 7], in_flight = [], called = []\<rparr>"
    using ev(2) by (simp add: s1_def demo_system_def)
  ultimately show ?thesis
    unfolding after_claim_def by (metis (no_types, lifting) r_into_rtranclp rtranclp.rtrancl_into_rtrancl)
qed

theorem external_calls_at_most_once_witness:
  "distinct (called after_claim) \<and> called after_claim = [5]
    \<and> (\<exists>a. get_action (store after_claim) 5 = Some a \<and> ra_status a \<in> {A_EXECUTING, A_EXECUTED, A_FAILED})"
proof -
  have "case fst demo_claim of Inr (Claimed cx) \<Rightarrow> cx_action_id cx = 5 | _ \<Rightarrow> False" by code_simp
  then have "called after_claim = [5]"
    by (auto simp: after_claim_def split: sum.splits claim.splits)
  with external_calls_at_most_once [OF demo_start(2) claim_run] show ?thesis
    by (auto split: option.splits)
qed




end
