(* ===== verification/App.thy ===== *)
theory App
  imports Webhook_Endpoint
begin

text \<open>
  The application around the endpoints, \<^verbatim>\<open>src/app/main.py\<close>: the request-context middleware, the
  health and readiness endpoints. An endpoint is a function of the request identifier the
  middleware puts into \<open>request.state\<close>; \<open>u\<close> is the value of \<open>uuid.uuid4()\<close>. \<open>check_database\<close> and
  \<open>check_redis\<close> reach outside the program: their results are arguments.

  \<open>traced\<close> relates the database before and after a request whose audit entries carry its identifier
  and which touches cases, actions and outbox only together with an audit entry.
\<close>

subsection \<open>Definitions\<close>

record http_response =
  response_answer :: http_answer
  response_headers :: "(string \<times> string) list"

text \<open>What the middleware logs: the name of the event and, once there is an answer, its status.\<close>

datatype request_log = request_started | request_failed | request_completed nat

definition request_id_of :: "uuid \<Rightarrow> string option \<Rightarrow> string" where
  "request_id_of u header =
     (case header of None \<Rightarrow> uuid_str u | Some h \<Rightarrow> if h = [] then uuid_str u else h)"

definition add_request_context ::
  "uuid \<Rightarrow> string option \<Rightarrow> (string \<Rightarrow> db \<Rightarrow> http_answer res \<times> db) \<Rightarrow> db
   \<Rightarrow> (http_response res \<times> db) \<times> request_log list" where
  "add_request_context u header call_next d =
     (let request_id = request_id_of u header in
      case call_next request_id d of
        (Inl e, d') \<Rightarrow> ((Inl e, d'), [request_started, request_failed])
      | (Inr response, d') \<Rightarrow>
          ((Inr \<lparr>response_answer = response, response_headers = [(''X-Request-ID'', request_id)]\<rparr>, d'),
           [request_started, request_completed (status_code response)]))"

definition health :: "settings \<Rightarrow> http_answer" where
  "health s =
     \<lparr>status_code = 200,
      content = [(''status'', JStr ''ok''), (''service'', JStr (app_name s)), (''environment'', JStr (environment s))]\<rparr>"

definition ready :: "unit res \<Rightarrow> unit res \<Rightarrow> http_answer" where
  "ready check_database check_redis =
     (let verdict = (\<lambda>r. case r of Inr _ \<Rightarrow> ''ok'' | Inl _ \<Rightarrow> ''error'');
          checks = [(''database'', JStr (verdict check_database)), (''redis'', JStr (verdict check_redis))];
          is_ready = (check_database = Inr () \<and> check_redis = Inr ())
      in \<lparr>status_code = (if is_ready then 200 else 503),
          content = [(''status'', JStr (if is_ready then ''ready'' else ''not_ready'')), (''checks'', JObj checks)]\<rparr>)"

text \<open>A request to the webhook endpoint, through the middleware.\<close>

definition webhook_request ::
  "web_env \<Rightarrow> (db \<Rightarrow> db) \<Rightarrow> uuid \<Rightarrow> uuid \<Rightarrow> string \<Rightarrow> string option \<Rightarrow> string option \<Rightarrow> db
   \<Rightarrow> (http_response res \<times> db) \<times> request_log list" where
  "webhook_request env rival u merchant_id raw_body signature_header id_header d =
     add_request_context u id_header
       (\<lambda>request_id. razorpay_webhook env rival merchant_id raw_body signature_header (Some request_id)) d"

subsection \<open>Tracing\<close>

definition same_work :: "db \<Rightarrow> db \<Rightarrow> bool" where
  "same_work d d' \<longleftrightarrow> recovery_cases d' = recovery_cases d \<and> recovery_actions d' = recovery_actions d
     \<and> outbox_events d' = outbox_events d"

definition traced :: "string option \<Rightarrow> db \<Rightarrow> db \<Rightarrow> bool" where
  "traced co d d' \<longleftrightarrow>
     (\<exists>new. audit_events d' = audit_events d @ new
        \<and> list_all (\<lambda>a. au_correlation_id a = co \<and> audit_row_check a = Inr ()) new
        \<and> (new = [] \<longrightarrow> same_work d d'))"

interpretation traced_order: state_preorder "traced co"
proof
  show "traced co d d" for d by (simp add: traced_def same_work_def)
next
  fix a b c assume "traced co a b" and "traced co b c"
  then show "traced co a c" unfolding traced_def by (auto simp: same_work_def)
qed

lemmas traced_trans = traced_order.state_trans

lemma traced_same: "audit_events d' = audit_events d \<Longrightarrow> same_work d d' \<Longrightarrow> traced co d d'"
  by (simp add: traced_def)

lemma traced_audit:
  assumes "audit_events d1 = audit_events d" and "insert_audit m et ei ev co pl d1 = Inr d2"
    and "audit_events d3 = audit_events d2"
  shows "traced co d d3"
proof -
  from assms(2) obtain a where "au_correlation_id a = co" "audit_row_check a = Inr ()"
    "audit_events d2 = audit_events d1 @ [a]"
    by (force simp: insert_audit_def new_uuid_def insert_audit_row_def split: if_splits)
  with assms(1,3) show ?thesis unfolding traced_def by (intro exI [of _ "[a]"]) simp
qed

lemma same_audits:
  "audit_events (snd (new_uuid d)) = audit_events d"
  "insert_payment p d = Inr d' \<Longrightarrow> audit_events d' = audit_events d"
  "insert_case c d = Inr d' \<Longrightarrow> audit_events d' = audit_events d"
  "insert_webhook w d = Inr d' \<Longrightarrow> audit_events d' = audit_events d"
  "flush_payment p d = Inr d' \<Longrightarrow> audit_events d' = audit_events d"
  "flush_case c d = Inr d' \<Longrightarrow> audit_events d' = audit_events d"
  "flush_case_status c d = Inr d' \<Longrightarrow> audit_events d' = audit_events d"
  "flush_webhook w d = Inr d' \<Longrightarrow> audit_events d' = audit_events d"
  "audit_events (cancel_open_actions i d) = audit_events d"
  by (auto simp: new_uuid_def insert_defs flush_payment_def flush_case_def flush_case_status_def flush_webhook_def
      cancel_open_actions_def update_actions_def split: if_splits)

lemma insert_outbox_if_missing_audits:
  "insert_outbox_if_missing m aty ai ev k pl d = Inr (b, d') \<Longrightarrow> audit_events d' = audit_events d"
  "eligible_outbox m p c d = Inr (b, d') \<Longrightarrow> audit_events d' = audit_events d"
  unfolding eligible_outbox_def
  by (auto simp: insert_outbox_if_missing_def Let_def new_uuid_def insert_outbox_def split: option.splits if_splits)

lemma open_case_traced: "keeps_rel (traced co) d (open_case m e p co d)"
proof (rule keeps_relI)
  fix r d5 assume "open_case m e p co d = Inr (r, d5)"
  then obtain d1 c d2 c' d3 d4 b et ei ev pl where "d1 = snd (new_uuid d)" "insert_case c d1 = Inr d2"
    "flush_case c' d2 = Inr d3" "insert_audit m et ei ev co pl d3 = Inr d4" "eligible_outbox m p c' d4 = Inr (b, d5)"
    by (auto simp: open_case_def Let_def case_prod_beta)
  then show "traced co d d5"
    using same_audits(1,3,6) insert_outbox_if_missing_audits(2) traced_audit [of d3 d m et ei ev co pl d4 d5] by metis
qed

lemma activate_case_traced: "keeps_rel (traced co) d (activate_case m p c co d)"
proof (rule keeps_relI)
  fix r d3 assume "activate_case m p c co d = Inr (r, d3)"
  then obtain c' d1 d2 b et ei ev pl where "flush_case c' d = Inr d1"
    "insert_audit m et ei ev co pl d1 = Inr d2" "eligible_outbox m p c' d2 = Inr (b, d3)"
    by (auto simp: activate_case_def)
  then show "traced co d d3"
    using same_audits(6) insert_outbox_if_missing_audits(2) traced_audit [of d1 d m et ei ev co pl d2 d3] by metis
qed

lemma mark_case_recovered_traced: "keeps_rel (traced co) d (mark_case_recovered m p c co d)"
proof (rule keeps_relI)
  fix r d3 assume run: "mark_case_recovered m p c co d = Inr (r, d3)"
  show "traced co d d3"
  proof (cases "d3 = d")
    case True
    then show ?thesis using traced_order.state_refl by simp
  next
    case False
    with run obtain c' d1 d2 b et ei ev pl aty ai ev' k pl' where "flush_case_status c' d = Inr d1"
      "insert_audit m et ei ev co pl (cancel_open_actions (rc_id c') d1) = Inr d2"
      "insert_outbox_if_missing m aty ai ev' k pl' d2 = Inr (b, d3)"
      by (auto simp: mark_case_recovered_def split: if_splits sum.splits exc.splits)
    then show ?thesis
      using same_audits(7,9) insert_outbox_if_missing_audits(1)
        traced_audit [of "cancel_open_actions (rc_id c') d1" d m et ei ev co pl d2 d3] by metis
  qed
qed

lemma store_payment_traced:
  "store_failed_payment (\<lambda>d. d) m e a c ex d = Inr (p, d') \<Longrightarrow> traced co d d'"
  "store_captured_payment (\<lambda>d. d) m e a c ex d = Inr (p, d') \<Longrightarrow> traced co d d'"
  by (rule traced_same;
      auto simp: store_failed_payment_def store_captured_payment_def Let_def new_uuid_def insert_payment_def
        flush_payment_def same_work_def split: option.splits if_splits)+

lemma fail_payment_traced: "keeps_rel (traced co) d (fail_payment (\<lambda>d. d) m e a cu co ex d)"
proof (rule keeps_relI)
  fix r d2 assume run: "fail_payment (\<lambda>d. d) m e a cu co ex d = Inr (r, d2)"
  then obtain p d1 where s: "store_failed_payment (\<lambda>d. d) m e a cu ex d = Inr (p, d1)"
    by (auto simp: fail_payment_def)
  have "traced co d1 d2"
    using run s keeps_relD [OF open_case_traced] keeps_relD [OF activate_case_traced] traced_order.state_refl
    by (auto simp: fail_payment_def split: option.splits if_splits)
  with store_payment_traced(1) [OF s] show "traced co d d2" by (rule traced_trans)
qed

lemma handle_payment_failed_traced: "keeps_rel (traced co) d (handle_payment_failed (\<lambda>d. d) m e a cu co d)"
  using fail_payment_traced traced_order.state_refl unfolding handle_payment_failed_def
  by (cases "get_payment_by_provider m (ent_id e) d") (auto simp: keeps_rel_return split: option.split)

lemma handle_payment_captured_traced: "keeps_rel (traced co) d (handle_payment_captured (\<lambda>d. d) m e a cu co d)"
proof (rule keeps_relI)
  fix r d2 assume run: "handle_payment_captured (\<lambda>d. d) m e a cu co d = Inr (r, d2)"
  then obtain ex p d1 where s: "store_captured_payment (\<lambda>d. d) m e a cu ex d = Inr (p, d1)"
    and ex: "get_payment_by_provider m (ent_id e) d = Inr ex"
    by (auto simp: handle_payment_captured_def)
  have "traced co d1 d2"
    using run s ex keeps_relD [OF mark_case_recovered_traced] traced_order.state_refl
    by (auto simp: handle_payment_captured_def split: option.splits)
  with store_payment_traced(2) [OF s] show "traced co d d2" by (rule traced_trans)
qed

lemma process_razorpay_event_traced: "keeps_rel (traced co) d (process_razorpay_event env (\<lambda>d. d) m ev co d)"
  by (rule keeps_relI)
    (auto simp: process_razorpay_event_def traced_order.state_refl split: if_splits
      dest: keeps_relD [OF handle_payment_failed_traced] keeps_relD [OF handle_payment_captured_traced])

lemma webhook_transaction_traced: "keeps_rel (traced co) d (webhook_transaction env (\<lambda>d. d) m i dto co d)"
proof (rule keeps_relI)
  fix r d4 assume run: "webhook_transaction env (\<lambda>d. d) m i dto co d = Inr (r, d4)"
  then obtain w d2 mm x d3 w' where w: "insert_webhook w (snd (new_uuid d)) = Inr d2"
    and p: "process_razorpay_event env (\<lambda>d. d) mm dto co d2 = Inr (x, d3)" and f: "flush_webhook w' d3 = Inr d4"
    by (auto simp: webhook_transaction_def Let_def case_prod_beta split: option.splits if_splits sum.splits)
  from w have "traced co d d2"
    by (intro traced_same) (auto simp: same_work_def new_uuid_def insert_webhook_def split: if_splits)
  moreover have "traced co d2 d3" using keeps_relD [OF process_razorpay_event_traced p] .
  moreover from f have "traced co d3 d4" by (intro traced_same) (auto simp: same_work_def flush_webhook_def)
  ultimately show "traced co d d4" using traced_trans by blast
qed

lemma razorpay_webhook_traced:
  "traced rid d (snd (razorpay_webhook env (\<lambda>d. d) m body sig rid d))"
proof -
  have "traced rid d (snd (in_transaction (webhook_transaction env (\<lambda>d. d) m i dto rid) d))" for i dto
    by (rule in_transaction_rel [OF webhook_transaction_traced traced_order.state_refl])
  then show ?thesis
    by (auto simp: razorpay_webhook_def traced_order.state_refl split: sum.split exc.split prod.split) (metis snd_conv)+
qed

subsection \<open>Facts\<close>

text \<open>
  C32: requests can be traced. Every answered webhook request carries in its \<^verbatim>\<open>X-Request-ID\<close> header the
  identifier the caller sent, or a fresh one if the caller sent none; every audit entry it adds has
  this identifier as correlation id; and it changes cases, actions or the outbox only if it adds an
  audit entry.
\<close>

theorem webhook_request_traced:
  assumes "webhook_request env (\<lambda>d. d) u m body sig header d = ((Inr r, d'), logged)"
  shows "\<exists>rid new. response_headers r = [(''X-Request-ID'', rid)]
    \<and> (rid = uuid_str u \<or> header = Some rid)
    \<and> logged = [request_started, request_completed (status_code (response_answer r))]
    \<and> audit_events d' = audit_events d @ new
    \<and> (\<forall>a \<in> set new. au_correlation_id a = Some rid)
    \<and> (new = [] \<longrightarrow> recovery_cases d' = recovery_cases d \<and> recovery_actions d' = recovery_actions d
         \<and> outbox_events d' = outbox_events d)"
proof -
  let ?rid = "request_id_of u header"
  have r: "response_headers r = [(''X-Request-ID'', ?rid)]"
    "logged = [request_started, request_completed (status_code (response_answer r))]"
    and d': "d' = snd (razorpay_webhook env (\<lambda>d. d) m body sig (Some ?rid) d)"
    using assms by (auto simp: webhook_request_def add_request_context_def Let_def split: prod.splits sum.splits)
  have "?rid = uuid_str u \<or> header = Some ?rid" by (simp add: request_id_of_def split: option.split)
  with r show ?thesis
    using razorpay_webhook_traced [of "Some ?rid" d env m body sig]
    unfolding d' [symmetric] traced_def list_all_iff same_work_def by blast
qed


end
