(* ===== verification/Loops.thy ===== *)
theory Loops
  imports Dispatcher Outbox_Task "HOL-Library.Multiset"
begin

text \<open>
  The two loops that keep the system going: the polling loop of the dispatcher process,
  \<^verbatim>\<open>src/scripts/run_outbox_dispatcher.py\<close>, and the retries of a Celery task. Both may run for ever as
  far as their code goes, so both are partial functions; that they return is proved.

  \<open>dispatch_until_sleep\<close> is the part of the polling loop between two sleeps (or up to the end of the
  process). The broker and the locks of other dispatchers may behave differently in every iteration
  \<open>k\<close>.
\<close>

subsection \<open>The dispatcher process\<close>

datatype after_iteration = Again | Sleep | Stop

definition after_dispatch :: "nat res \<Rightarrow> after_iteration" where
  "after_dispatch r =
     (case r of
        Inr dispatched \<Rightarrow> if 0 < dispatched then Again else Sleep
      | Inl e \<Rightarrow> if e = OtherException ''KeyboardInterrupt'' then Stop else Sleep)"

partial_function (option) dispatch_until_sleep ::
  "settings \<Rightarrow> (exc \<Rightarrow> string) \<Rightarrow> (nat \<Rightarrow> outbox_event \<Rightarrow> unit res) \<Rightarrow> (nat \<Rightarrow> uuid \<Rightarrow> bool) \<Rightarrow> nat \<Rightarrow> db
   \<Rightarrow> (after_iteration \<times> db \<times> outbox_event list) option" where
  "dispatch_until_sleep s exc_message publish locked k d =
     (let r = dispatch_outbox_events s exc_message (publish k) (locked k) None d;
          d' = snd (fst r); sent = snd r; next = after_dispatch (fst (fst r))
      in if next = Again
         then Option.bind (dispatch_until_sleep s exc_message publish locked (Suc k) d')
                (\<lambda>(a, d2, sent2). Some (a, d2, sent @ sent2))
         else Some (next, d', sent))"

declare dispatch_until_sleep.simps [code]

text \<open>
  The script \<^verbatim>\<open>src/scripts/dispatch_once.py\<close>: one dispatch with the default batch size, whose count it
  prints.
\<close>

definition dispatch_once ::
  "settings \<Rightarrow> (exc \<Rightarrow> string) \<Rightarrow> (outbox_event \<Rightarrow> unit res) \<Rightarrow> (uuid \<Rightarrow> bool) \<Rightarrow> db
   \<Rightarrow> (string res \<times> db) \<times> outbox_event list" where
  "dispatch_once s exc_message publish locked d =
     (let ((r, d'), sent) = dispatch_outbox_events s exc_message publish locked None d
      in ((res_bind r (\<lambda>dispatched. Inr (show_nat dispatched)), d'), sent))"

subsection \<open>The retries of a task\<close>

text \<open>
  One message: the task runs, and as long as it raises \<open>Retry\<close> Celery delivers it again after the
  delay with one more retry counted. \<open>meanwhile n\<close> is what happens during delay \<open>n\<close>. The result is
  the delays, the outcome and the database.
\<close>

partial_function (option) run_task ::
  "(nat \<Rightarrow> task_env) \<Rightarrow> (nat \<Rightarrow> task_rivals) \<Rightarrow> (nat \<Rightarrow> rat) \<Rightarrow> (nat \<Rightarrow> db \<Rightarrow> db) \<Rightarrow> nat \<Rightarrow> string \<Rightarrow> db
   \<Rightarrow> (rat list \<times> task_result \<times> db) option" where
  "run_task env rv rnd meanwhile n outbox_event_id d =
     (case process_outbox_event (env n) (rv n) (rnd n) n outbox_event_id d of
        (Task_Retry delay, d') \<Rightarrow>
          Option.bind (run_task env rv rnd meanwhile (Suc n) outbox_event_id (meanwhile n d'))
            (\<lambda>(delays, r, d2). Some (delay # delays, r, d2))
      | (r, d') \<Rightarrow> Some ([], r, d'))"

declare run_task.simps [code]

subsection \<open>What a dispatch does to the outbox\<close>

lemma flush_events_rows:
  assumes "flush_events bs d = Inr d'" and "distinct (map ob_id bs)"
  shows "d' = d\<lparr>outbox_events := map (\<lambda>q. case get_row ob_id (ob_id q) bs of Some b \<Rightarrow> b | None \<Rightarrow> q) (outbox_events d)\<rparr>"
  using assms
proof (induction bs arbitrary: d)
  case (Cons b bs)
  from Cons.prems(1) obtain d1 where f: "flush_outbox b d = Inr d1" and r: "flush_events bs d1 = Inr d'" by auto
  from f have d1: "d1 = d\<lparr>outbox_events := upd_where (\<lambda>q. ob_id q = ob_id b) (\<lambda>_. b) (outbox_events d)\<rparr>"
    by (auto simp: flush_outbox_def)
  have n: "get_row ob_id (ob_id b) bs = None" using Cons.prems(2) by (simp add: get_row_None_iff)
  show ?case
    using Cons.IH [OF r] Cons.prems(2) n by (auto simp: d1 upd_where_def)
qed simp

definition updated_row :: "settings \<Rightarrow> (exc \<Rightarrow> string) \<Rightarrow> (outbox_event \<Rightarrow> unit res) \<Rightarrow> int \<Rightarrow> outbox_event list
   \<Rightarrow> outbox_event \<Rightarrow> outbox_event" where
  "updated_row s tx pub t bs b = (if b \<in> set bs then dispatch_event s tx pub t b else b)"

lemma dispatch_rows:
  assumes ok: "db_ok d" and run: "dispatch_outbox_events s tx pub locked batch d = ((Inr n, d'), sent)"
  defines "bs \<equiv> select_due locked (dispatch_limit s batch) d"
  shows "n = length sent" and "sent = accepted pub bs"
    and "d' = d\<lparr>outbox_events := map (updated_row s tx pub (clock d) bs) (outbox_events d)\<rparr>"
proof -
  let ?f = "dispatch_event s tx pub (clock d)"
  from run show sent: "sent = accepted pub bs" by (auto simp: dispatch_outbox_events_def Let_def bs_def split: if_splits)
  from run have "in_transaction (dispatch_transaction s tx pub bs) d = (Inr n, d')"
    by (auto simp: dispatch_outbox_events_def Let_def bs_def split: if_splits)
  then have fl: "flush_events (map ?f bs) d = Inr d'" and "n = length sent"
    unfolding in_transaction_def dispatch_transaction_def sent by (auto split: sum.splits)
  then show "n = length sent" by simp
  have dist: "distinct (map ob_id bs)" using select_due_distinct [OF ok] by (simp add: bs_def)
  have "(case get_row ob_id (ob_id q) (map ?f bs) of Some b \<Rightarrow> b | None \<Rightarrow> q) = updated_row s tx pub (clock d) bs q"
    if "q \<in> set (outbox_events d)" for q
  proof (cases "q \<in> set bs")
    case True
    then show ?thesis using get_row_distinct [OF dist] by (simp add: get_row_map_id updated_row_def)
  next
    case False
    have "ob_id x \<noteq> ob_id q" if "x \<in> set bs" for x
      using select_due_mem that False get_row_unique [OF db_ok_distinct(7) [OF ok]] \<open>q \<in> set (outbox_events d)\<close>
        get_row_distinct [OF db_ok_distinct(7) [OF ok]] unfolding bs_def by (metis option.inject)
    then have "get_row ob_id (ob_id q) bs = None" unfolding get_row_None_iff by force
    then show ?thesis using False by (simp add: get_row_map_id updated_row_def)
  qed
  then show "d' = d\<lparr>outbox_events := map (updated_row s tx pub (clock d) bs) (outbox_events d)\<rparr>"
    using flush_events_rows [OF fl] dist by (simp add: comp_def cong: map_cong)
qed

subsection \<open>The dispatcher comes to rest\<close>

definition pending :: "db \<Rightarrow> nat" where
  "pending d = length (filter (\<lambda>b. ob_status b = O_PENDING) (outbox_events d))"

lemma count_split:
  assumes "\<And>x. x \<in> set xs \<Longrightarrow> P (g x) \<Longrightarrow> P x \<and> \<not> Q x" and "\<And>x. x \<in> set xs \<Longrightarrow> Q x \<Longrightarrow> P x"
  shows "length (filter P (map g xs)) + length (filter Q xs) \<le> length (filter P xs)"
  using assms by (induction xs) (auto simp: Suc_le_eq le_Suc_eq)

lemma length_filter_mono: "(\<And>x. x \<in> set xs \<Longrightarrow> Q x \<Longrightarrow> P x) \<Longrightarrow> length (filter Q xs) \<le> length (filter P xs)"
  by (induction xs) (auto simp: le_SucI)

lemma length_le_filter:
  assumes "distinct ys" and "set ys \<subseteq> set xs"
  shows "length ys \<le> length (filter (\<lambda>x. x \<in> set ys) xs)"
proof -
  have "length ys = card (set (filter (\<lambda>x. x \<in> set ys) xs))"
    using assms by (simp add: distinct_card [symmetric] Int_absorb1 Collect_conj_eq Int_commute subset_eq flip: Int_def)
  also have "\<dots> \<le> length (filter (\<lambda>x. x \<in> set ys) xs)" by (rule card_length)
  finally show ?thesis .
qed

lemma distinct_ids: "distinct (map f xs) \<Longrightarrow> distinct xs"
  by (simp add: distinct_map)

lemma accepted_selected:
  assumes "db_ok d" and "sent = accepted pub (select_due locked limit d)"
  shows "distinct sent" and "set sent \<subseteq> set (outbox_events d)" and "b \<in> set sent \<Longrightarrow> due (clock d) b \<and> pub b = Inr ()"
  using distinct_ids [OF select_due_distinct [OF assms(1)]] select_due_mem assms(2) by (auto simp: accepted_def)

lemma accepted_pending:
  assumes "db_ok d" and "sent = accepted pub (select_due locked limit d)"
  shows "length sent \<le> pending d"
proof -
  have "length (filter (\<lambda>b. b \<in> set sent) (outbox_events d)) \<le> pending d"
    using accepted_selected(3) [OF assms] unfolding pending_def due_def
    by (intro length_filter_mono) auto
  with length_le_filter [OF accepted_selected(1,2) [OF assms]] show ?thesis by simp
qed

lemma dispatch_pending:
  assumes "db_ok d" and "dispatch_outbox_events s tx pub locked batch d = ((Inr n, d'), sent)"
  shows "pending d' + length sent \<le> pending d"
proof -
  note rows = dispatch_rows [OF assms]
  let ?bs = "select_due locked (dispatch_limit s batch) d"
  let ?g = "updated_row s tx pub (clock d) ?bs"
  have sent: "b \<in> set sent \<longleftrightarrow> b \<in> set ?bs \<and> pub b = Inr ()" for b unfolding rows(2) by (auto simp: accepted_def)
  have st: "ob_status b = O_PENDING" if "b \<in> set ?bs" for b using select_due_mem [OF that] by (simp add: due_def)
  have "ob_status (?g b) = O_PENDING \<Longrightarrow> ob_status b = O_PENDING \<and> b \<notin> set sent" for b
    using st by (auto simp: updated_row_def sent dispatch_event_def split: if_splits)
  then have "length (filter (\<lambda>b. ob_status b = O_PENDING) (map ?g (outbox_events d)))
      + length (filter (\<lambda>b. b \<in> set sent) (outbox_events d)) \<le> pending d"
    unfolding pending_def using st sent by (intro count_split) auto
  moreover have "length sent \<le> length (filter (\<lambda>b. b \<in> set sent) (outbox_events d))"
    using length_le_filter [OF accepted_selected(1,2) [OF assms(1) rows(2)]] .
  ultimately show ?thesis by (simp add: rows(3) pending_def)
qed

lemma dispatch_returns:
  assumes "db_ok d"
  shows "\<exists>a d' sent. dispatch_until_sleep s tx pub locked k d = Some (a, d', sent) \<and> a \<noteq> Again \<and> length sent \<le> pending d"
  using assms
proof (induction "pending d" arbitrary: k d rule: less_induct)
  case less
  obtain r d1 sent where run: "dispatch_outbox_events s tx (pub k) (locked k) None d = ((r, d1), sent)"
    by (metis surj_pair)
  have sent: "length sent \<le> pending d"
    using run accepted_pending [OF less.prems refl] by (auto simp: dispatch_outbox_events_def Let_def split: if_splits)
  show ?case
  proof (cases "after_dispatch r = Again")
    case False
    then show ?thesis using run sent by (subst dispatch_until_sleep.simps) (simp add: Let_def)
  next
    case True
    then obtain n where r: "r = Inr n" "0 < n" by (auto simp: after_dispatch_def split: sum.splits if_splits)
    have n: "n = length sent" using dispatch_rows(1) [OF less.prems run [unfolded r(1)]] .
    have p: "pending d1 + length sent \<le> pending d" using dispatch_pending [OF less.prems run [unfolded r(1)]] .
    have "db_step d d1" using dispatch_outbox_events_step [OF less.prems, of s tx "pub k" "locked k" None] run by simp
    then have "db_ok d1" using less.prems db_step_ok by blast
    moreover have "pending d1 < pending d" using p n r(2) by linarith
    ultimately obtain a d2 sent2 where
      "dispatch_until_sleep s tx pub locked (Suc k) d1 = Some (a, d2, sent2)" "a \<noteq> Again" "length sent2 \<le> pending d1"
      using less.hyps by blast
    then show ?thesis using run True p by (subst dispatch_until_sleep.simps) (simp add: Let_def)
  qed
qed

text \<open>Every pending row can count one more attempt.\<close>

definition room :: "db \<Rightarrow> bool" where
  "room d = list_all (\<lambda>b. ob_status b \<noteq> O_PENDING
     \<or> outbox_row_check (b\<lparr>ob_attempts := ob_attempts b + 1, ob_last_error := None\<rparr>) = Inr ()) (outbox_events d)"

definition due_rows :: "db \<Rightarrow> outbox_event list" where
  "due_rows d = filter (due (clock d)) (outbox_events d)"

lemma flush_events_ok:
  "(\<And>b. b \<in> set bs \<Longrightarrow> outbox_row_check b = Inr ()) \<Longrightarrow> \<exists>d'. flush_events bs d = Inr d'"
  by (induction bs arbitrary: d) (auto simp: flush_outbox_def)

lemma dispatch_accepting:
  assumes ok: "db_ok d" and pub: "\<And>b. pub b = Inr ()" and limit: "0 < dispatch_limit s batch" and room: "room d"
    and bs_def: "bs = select_due locked (dispatch_limit s batch) d"
  shows "\<exists>d'. dispatch_outbox_events s tx pub locked batch d = ((Inr (length bs), d'), bs)"
proof -
  have "outbox_row_check (dispatch_event s tx pub (clock d) b) = Inr ()" if "b \<in> set bs" for b
  proof -
    have "b \<in> set (outbox_events d)" "ob_status b = O_PENDING"
      using select_due_mem that unfolding bs_def by (auto simp: due_def)
    with room have "outbox_row_check (b\<lparr>ob_attempts := ob_attempts b + 1, ob_last_error := None\<rparr>) = Inr ()"
      by (auto simp: room_def list_all_iff)
    then show ?thesis by (auto simp: dispatch_event_def pub outbox_row_check_def split: if_splits)
  qed
  then obtain d' where "flush_events (map (dispatch_event s tx pub (clock d)) bs) d = Inr d'"
    using flush_events_ok [of "map (dispatch_event s tx pub (clock d)) bs" d] by auto
  moreover have "accepted pub bs = bs" by (simp add: accepted_def pub)
  ultimately show ?thesis
    using limit by (simp add: dispatch_outbox_events_def Let_def bs_def [symmetric] in_transaction_def dispatch_transaction_def)
qed

lemma mset_filter_member:
  assumes "distinct xs" and "distinct ys" and "set ys \<subseteq> set (filter P xs)"
  shows "mset (filter P xs) = mset ys + mset (filter (\<lambda>x. P x \<and> x \<notin> set ys) xs)"
proof -
  have "mset ys = mset (filter (\<lambda>x. P x \<and> x \<in> set ys) xs)"
    using assms by (subst set_eq_iff_mset_eq_distinct [symmetric]) auto
  moreover have "mset (filter P xs) = mset (filter (\<lambda>x. P x \<and> x \<in> set ys) xs) + mset (filter (\<lambda>x. P x \<and> x \<notin> set ys) xs)"
    by (induction xs) auto
  ultimately show ?thesis by simp
qed

lemma dispatch_accepting_due:
  assumes ok: "db_ok d" and pub: "\<And>b. pub b = Inr ()" and room: "room d"
    and run: "dispatch_outbox_events s tx pub locked batch d = ((Inr n, d'), sent)"
  shows "mset (due_rows d) = mset sent + mset (due_rows d')" and "room d'" and "clock d' = clock d"
proof -
  note rows = dispatch_rows [OF ok run]
  let ?bs = "select_due locked (dispatch_limit s batch) d"
  let ?g = "updated_row s tx pub (clock d) ?bs"
  have sent: "sent = ?bs" by (simp add: rows(2) accepted_def pub)
  show clk: "clock d' = clock d" by (simp add: rows(3))
  have g: "?g b = (if b \<in> set sent then b\<lparr>ob_status := O_PUBLISHED, ob_published_at := Some (clock d),
      ob_attempts := ob_attempts b + 1, ob_last_error := None\<rparr> else b)" for b
    by (simp add: updated_row_def sent dispatch_event_def pub)
  have due: "due (clock d) (?g b) \<longleftrightarrow> due (clock d) b \<and> b \<notin> set sent" for b by (auto simp: g due_def)
  have "due_rows d' = filter (\<lambda>b. due (clock d) b \<and> b \<notin> set sent) (outbox_events d)"
    unfolding due_rows_def clk rows(3) by (auto simp: filter_map comp_def due intro!: map_idI) (simp add: g)
  moreover have "distinct (outbox_events d)" using distinct_ids db_ok_distinct(7) [OF ok] by blast
  moreover have "set sent \<subseteq> set (due_rows d)"
    using accepted_selected(2,3) [OF ok rows(2)] by (auto simp: due_rows_def)
  ultimately show "mset (due_rows d) = mset sent + mset (due_rows d')"
    using mset_filter_member accepted_selected(1) [OF ok rows(2)] unfolding due_rows_def by metis
  show "room d'" using room by (auto simp: room_def list_all_iff rows(3) g)
qed

lemma drain:
  assumes "db_ok d" and pub: "\<And>k b. pub k b = Inr ()" and free: "\<And>k i. \<not> locked k i"
    and batch: "0 < outbox_dispatch_batch_size s" and "room d"
  shows "\<exists>d' sent. dispatch_until_sleep s tx pub locked k d = Some (Sleep, d', sent)
    \<and> mset sent = mset (due_rows d) \<and> due_rows d' = []"
  using assms(1,5)
proof (induction "pending d" arbitrary: k d rule: less_induct)
  case less
  have lim: "0 < dispatch_limit s None" using batch by (simp add: dispatch_limit_def)
  define bs where "bs = select_due (locked k) (dispatch_limit s None) d"
  obtain d1 where run: "dispatch_outbox_events s tx (pub k) (locked k) None d = ((Inr (length bs), d1), bs)"
    using dispatch_accepting [of d "pub k" s None bs "locked k"] less.prems pub lim bs_def by blast
  note step = dispatch_accepting_due [OF less.prems(1) pub less.prems(2) run]
  have p: "pending d1 + length bs \<le> pending d" using dispatch_pending [OF less.prems(1) run] .
  show ?case
  proof (cases "bs = []")
    case True
    then have "sort_key ob_created_at (due_rows d) = []"
      using free lim by (simp add: bs_def select_due_def due_rows_def)
    then have "due_rows d = []" by (metis length_0_conv length_sort)
    with True step(1) run show ?thesis
      by (subst dispatch_until_sleep.simps) (simp add: Let_def after_dispatch_def)
  next
    case False
    have "db_step d d1" using dispatch_outbox_events_step [OF less.prems(1), of s tx "pub k" "locked k" None] run by simp
    then have "db_ok d1" using less.prems db_step_ok by blast
    moreover have "pending d1 < pending d" using p False by (metis length_greater_0_conv less_add_same_cancel1 less_le_trans)
    ultimately obtain d2 sent2 where "dispatch_until_sleep s tx pub locked (Suc k) d1 = Some (Sleep, d2, sent2)"
      "mset sent2 = mset (due_rows d1)" "due_rows d2 = []"
      using less.hyps step(2) by blast
    then show ?thesis
      using run False step(1) by (subst dispatch_until_sleep.simps) (simp add: Let_def after_dispatch_def)
  qed
qed


subsection \<open>Retries end\<close>

lemma retry_delay:
  assumes "process_outbox_event env rv rnd n i d = (Task_Retry delay, d')" and "0 \<le> rnd" and "rnd \<le> 1"
  shows "n < max_retries \<and> 2 ^ n \<le> delay \<and> delay \<le> 2 ^ Suc n"
proof -
  from assms(1) have n: "n < max_retries" and e: "exponential_backoff_with_jitter rnd (int n) 2 60 = Inr delay"
    by (auto simp: process_outbox_event_def split: prod.splits sum.splits if_splits)
  have "n < 1024" using n by (simp add: max_retries_def)
  with backoff_range [OF assms(2,3)] e have d: "min 30 (2 ^ n) \<le> delay" "delay \<le> min 60 (2 ^ Suc n)" by fastforce+
  have "(2::rat) ^ n \<le> 2 ^ 4" using n by (intro power_increasing) (simp_all add: max_retries_def)
  then have "min 30 (2 ^ n) = (2::rat) ^ n" "min 60 (2 ^ Suc n) = (2::rat) ^ Suc n" by simp_all
  with n d show ?thesis by simp
qed

definition doubling :: "nat \<Rightarrow> rat list \<Rightarrow> bool" where
  "doubling n delays = list_all2 (\<lambda>j t. 2 ^ j \<le> t \<and> t \<le> 2 ^ Suc j) [n..<n + length delays] delays"

lemma doubling_Nil: "doubling n []"
  by (simp add: doubling_def)

lemma doubling_Cons: "2 ^ n \<le> t \<Longrightarrow> t \<le> 2 ^ Suc n \<Longrightarrow> doubling (Suc n) ts \<Longrightarrow> doubling n (t # ts)"
proof -
  have "[n..<n + length (t # ts)] = n # [Suc n..<Suc n + length ts]" by (simp add: upt_rec)
  then show "2 ^ n \<le> t \<Longrightarrow> t \<le> 2 ^ Suc n \<Longrightarrow> doubling (Suc n) ts \<Longrightarrow> doubling n (t # ts)"
    by (simp only: doubling_def list_all2_Cons)
qed

lemma doubling_sum:
  assumes "doubling 0 delays"
  shows "sum_list delays \<le> 2 ^ Suc (length delays) - 2"
  using assms unfolding doubling_def
  by (induction delays rule: rev_induct) (auto simp: list_all2_append1 list_all2_Cons1 dest: list_all2_lengthD)

lemma run_task_from:
  assumes "\<And>n. 0 \<le> rnd n \<and> rnd n \<le> 1" and "n \<le> max_retries"
  shows "\<exists>delays r d'. run_task env rv rnd meanwhile n i d = Some (delays, r, d') \<and> (\<forall>t. r \<noteq> Task_Retry t)
    \<and> length delays \<le> max_retries - n \<and> doubling n delays"
  using assms(2)
proof (induction "max_retries - n" arbitrary: n d rule: less_induct)
  case less
  obtain r d1 where run: "process_outbox_event (env n) (rv n) (rnd n) n i d = (r, d1)" by fastforce
  show ?case
  proof (cases "\<exists>delay. r = Task_Retry delay")
    case False
    then show ?thesis using run doubling_Nil by (subst run_task.simps) (cases r; simp)
  next
    case True
    then obtain delay where r: "r = Task_Retry delay" by blast
    have b: "n < max_retries" "2 ^ n \<le> delay" "delay \<le> 2 ^ Suc n"
      using retry_delay [OF run [unfolded r]] assms(1) by auto
    from b(1) have "max_retries - Suc n < max_retries - n" "Suc n \<le> max_retries" by simp_all
    from less.hyps [OF this, of "meanwhile n d1"] obtain delays r2 d2
      where ih: "run_task env rv rnd meanwhile (Suc n) i (meanwhile n d1) = Some (delays, r2, d2)"
        "\<forall>t. r2 \<noteq> Task_Retry t" "length delays \<le> max_retries - Suc n" "doubling (Suc n) delays" by blast
    have "doubling n (delay # delays)" using doubling_Cons [OF b(2,3) ih(4)] .
    moreover have "length (delay # delays) \<le> max_retries - n" using ih(3) b(1) by simp
    moreover have "run_task env rv rnd meanwhile n i d = Some (delay # delays, r2, d2)"
      using run r ih(1) by (subst run_task.simps) simp
    ultimately show ?thesis using ih(2) by blast
  qed
qed

text \<open>
  C31: retries end. Whatever the database and the outside world do between the attempts, a message
  delivered to a worker is settled after at most five retries: the task returns or raises its
  exception. The delay before retry \<open>j\<close> is between \<open>2 ^ j\<close> and \<open>2 ^ (j + 1)\<close> seconds, so all
  delays together take at most 62 seconds.
\<close>

theorem task_retries_end:
  assumes "\<And>n. 0 \<le> rnd n \<and> rnd n \<le> 1"
  shows "\<exists>delays r d'. run_task env rv rnd meanwhile 0 i d = Some (delays, r, d') \<and> (\<forall>t. r \<noteq> Task_Retry t)
    \<and> length delays \<le> 5 \<and> sum_list delays \<le> 62
    \<and> list_all2 (\<lambda>j t. 2 ^ j \<le> t \<and> t \<le> 2 ^ Suc j) [0..<length delays] delays"
proof -
  obtain delays r d' where run: "run_task env rv rnd meanwhile 0 i d = Some (delays, r, d')" "\<forall>t. r \<noteq> Task_Retry t"
    and len: "length delays \<le> 5" and dbl: "doubling 0 delays"
    using run_task_from [where rnd = rnd and n = 0 and env = env and rv = rv and meanwhile = meanwhile and i = i and d = d] assms
    unfolding max_retries_def by (metis minus_nat.diff_0 zero_le)
  have "(2::rat) ^ Suc (length delays) \<le> 2 ^ 6" using len by (intro power_increasing) simp_all
  then have "sum_list delays \<le> 62" using doubling_sum [OF dbl] by simp
  moreover have "list_all2 (\<lambda>j t. 2 ^ j \<le> t \<and> t \<le> 2 ^ Suc j) [0..<length delays] delays"
    using dbl by (simp add: doubling_def)
  ultimately show ?thesis using run len by blast
qed

end
