(* ===== verification/Witnesses_App.thy ===== *)
theory Witnesses_App
  imports Demo App Loops
begin

text \<open>The theorems on requests and on the loops, applied to the small database.\<close>

subsection \<open>Requests\<close>

definition demo_request :: "string option \<Rightarrow> (http_response res \<times> db) \<times> request_log list" where
  "demo_request header =
     webhook_request demo_web_env (\<lambda>d. d) 7 1 ''ping'' (Some ''ping'') header base_db"

lemma demo_request_answer:
  "(case fst (fst (demo_request (Some ''r1''))) of Inr r \<Rightarrow> status_code (response_answer r) = 200 | Inl _ \<Rightarrow> False)"
  by code_simp

theorem webhook_request_traced_witness:
  "\<exists>r d' new. fst (demo_request (Some ''r1'')) = (Inr r, d') \<and> status_code (response_answer r) = 200
     \<and> response_headers r \<in> {[(''X-Request-ID'', ''r1'')], [(''X-Request-ID'', uuid_str 7)]}
     \<and> audit_events d' = audit_events base_db @ new"
proof -
  obtain r d' lg where run: "demo_request (Some ''r1'') = ((Inr r, d'), lg)" "status_code (response_answer r) = 200"
    using demo_request_answer by (auto split: sum.splits) (metis surjective_pairing)
  from webhook_request_traced [OF run(1) [unfolded demo_request_def]] run show ?thesis by auto
qed


subsection \<open>Loops\<close>


definition demo_task_env :: task_env where
  "demo_task_env = \<lparr>worker_env = demo_agent_env, executor_env = demo_exec_env\<rparr>"

definition demo_task_rivals :: task_rivals where
  "demo_task_rivals =
     \<lparr>worker_interference = no_worker_rivals, executor_interference = no_exec_rivals, between_sessions = (\<lambda>d. d)\<rparr>"

theorem task_retries_end_witness:
  "\<exists>delays r d'. run_task (\<lambda>_. demo_task_env) (\<lambda>_. demo_task_rivals) (\<lambda>_. 1 / 2) (\<lambda>_ d. d) 0 (uuid_str 6) eligible_db
       = Some (delays, r, d') \<and> length delays \<le> 5 \<and> sum_list delays \<le> 62"
  using task_retries_end [of "\<lambda>_. 1 / 2" "\<lambda>_. demo_task_env" "\<lambda>_. demo_task_rivals" "\<lambda>_ d. d" "uuid_str 6" eligible_db]
  by simp blast

end
