(* ===== verification/Webhook_Outcomes.thy ===== *)
theory Webhook_Outcomes
  imports Webhook_Facts
begin

text \<open>
  What an event leads to, from the request to the committed rows: total correctness of the paths
  through \<open>razorpay_webhook\<close>, \<open>handle_payment_failed\<close> and \<open>open_case\<close> for the first failure of a payment,
  and through \<open>handle_payment_captured\<close> and \<open>mark_case_recovered\<close> for the capture of a payment whose notes
  name an open case. \<open>draw d n\<close> is the identifier the \<open>n\<close>-th next \<open>uuid4\<close> yields.
\<close>

definition draw :: "db \<Rightarrow> nat \<Rightarrow> uuid" where
  "draw d n = uuid4 d (uuid_drawn d + n)"

definition unused :: "db \<Rightarrow> uuid \<Rightarrow> bool" where
  "unused d u \<longleftrightarrow> get_merchant d u = None \<and> get_payment d u = None \<and> get_case d u = None \<and> get_action d u = None
     \<and> get_audit d u = None \<and> get_policy d u = None \<and> get_outbox d u = None"

text \<open>The next \<open>k\<close> identifiers are distinct and unused.\<close>

definition fresh_from :: "nat \<Rightarrow> db \<Rightarrow> bool" where
  "fresh_from k d \<longleftrightarrow> distinct (map (draw d) [0..<k]) \<and> list_all (\<lambda>n. unused d (draw d n)) [0..<k]"

lemma fresh_from_unused: "fresh_from k d \<Longrightarrow> n < k \<Longrightarrow> unused d (draw d n)"
  by (simp add: fresh_from_def list_all_iff)

lemma fresh_from_eq: "fresh_from k d \<Longrightarrow> i < k \<Longrightarrow> j < k \<Longrightarrow> draw d i = draw d j \<longleftrightarrow> i = j"
  using inj_on_eq_iff [of "draw d" "{0..<k}" i j] by (simp add: fresh_from_def distinct_map)

lemma fresh_from_drop:
  assumes "fresh_from (j + k) d" and "uuid4 d' = uuid4 d" and "uuid_drawn d' = uuid_drawn d + j"
    and "\<And>n. unused d (draw d n) \<Longrightarrow> draw d n \<notin> draw d ` {..<j} \<Longrightarrow> unused d' (draw d n)"
  shows "fresh_from k d'"
proof -
  have dr: "draw d' n = draw d (j + n)" for n using assms(2,3) by (simp add: draw_def add.assoc)
  have inj: "inj_on (draw d) {0..<j + k}" using assms(1) by (simp add: fresh_from_def distinct_map)
  have "map (draw d') [0..<k] = map (draw d) [j..<j + k]" by (rule nth_equalityI) (simp_all add: dr)
  then have "distinct (map (draw d') [0..<k])"
    using inj_on_subset [OF inj, of "{j..<j + k}"] by (simp add: distinct_map)
  moreover have "unused d' (draw d' n)" if "n < k" for n
  proof -
    have "draw d (j + n) \<notin> draw d ` {..<j}"
    proof
      assume "draw d (j + n) \<in> draw d ` {..<j}"
      then obtain i where i: "i < j" "draw d (j + n) = draw d i" by auto
      have "j + n = i" by (rule inj_onD [OF inj i(2)]) (use i(1) that in simp_all)
      with i(1) show False by simp
    qed
    moreover have "unused d (draw d (j + n))" using assms(1) that by (simp add: fresh_from_def list_all_iff)
    ultimately show ?thesis using assms(4) [of "j + n"] by (simp add: dr)
  qed
  ultimately show ?thesis by (simp add: fresh_from_def list_all_iff)
qed

definition eligible_audit :: "uuid \<Rightarrow> uuid \<Rightarrow> payment \<Rightarrow> recovery_case \<Rightarrow> string option \<Rightarrow> int \<Rightarrow> audit_event" where
  "eligible_audit u m p c co t =
     \<lparr>au_id = u, au_merchant_id = m, au_entity_type = ''recovery_case'', au_entity_id = uuid_str (rc_id c),
      au_event_type = ''recovery_case.eligible'', au_actor = ''webhook'', au_correlation_id = co,
      au_payload = [(''payment_id'', JStr (uuid_str (pay_id p))),
                   (''provider_payment_id'', JStr (pay_provider_payment_id p)),
                   (''from_status'', JStr (recovery_case_status_value FAILED)),
                   (''to_status'', JStr (recovery_case_status_value ELIGIBLE)),
                   (''amount_minor'', JInt (rc_amount_minor c)), (''currency'', JStr (rc_currency c))],
      au_created_at = t\<rparr>"

definition eligible_event :: "uuid \<Rightarrow> uuid \<Rightarrow> payment \<Rightarrow> recovery_case \<Rightarrow> int \<Rightarrow> outbox_event" where
  "eligible_event u m p c t =
     new_outbox_event u m ''recovery_case'' (uuid_str (rc_id c)) ''recovery_case.eligible'' (eligible_key (rc_id c))
       [(''merchant_id'', JStr (uuid_str m)), (''payment_id'', JStr (uuid_str (pay_id p))),
        (''recovery_case_id'', JStr (uuid_str (rc_id c))), (''amount_minor'', JInt (rc_amount_minor c)),
        (''currency'', JStr (rc_currency c))] t"

lemma classify_failure_length: "length (classify_failure x) \<le> 128"
  by (auto simp: classify_failure_def Let_def split: option.split)

lemma eligible_key_length: "length (eligible_key i) \<le> 128"
  by (simp add: eligible_key_def)

lemma insert_audit_total:
  assumes "get_merchant d m \<noteq> None" and "get_audit d (draw d 0) = None" and "opt_varchar_ok 64 co"
    and "length et \<le> 64" "length ei \<le> 64" "length ev \<le> 128"
  shows "insert_audit m et ei ev co pl d = Inr (d\<lparr>uuid_drawn := Suc (uuid_drawn d), audit_events := audit_events d @
      [\<lparr>au_id = draw d 0, au_merchant_id = m, au_entity_type = et, au_entity_id = ei, au_event_type = ev,
        au_actor = ''webhook'', au_correlation_id = co, au_payload = pl, au_created_at = clock d\<rparr>]\<rparr>)"
  using assms
  by (simp add: insert_audit_def new_uuid_def insert_audit_row_def audit_row_check_def varchar_ok_def draw_def get_defs)

lemma insert_outbox_total:
  assumes "get_merchant d m \<noteq> None" and "get_outbox d (draw d 0) = None"
    and "k \<notin> ob_idempotency_key ` set (outbox_events d)"
    and "length aty \<le> 64" "length ai \<le> 64" "length ev \<le> 128" "length k \<le> 128"
  shows "insert_outbox_if_missing m aty ai ev k pl d
    = Inr (new_outbox_event (draw d 0) m aty ai ev k pl (clock d),
        d\<lparr>uuid_drawn := Suc (uuid_drawn d), outbox_events := outbox_events d @
           [new_outbox_event (draw d 0) m aty ai ev k pl (clock d)]\<rparr>)"
proof -
  have "filter (\<lambda>b. ob_idempotency_key b = k) (outbox_events d) = []" using assms(3) by (auto simp: filter_empty_conv)
  moreover have "\<not> list_ex (\<lambda>q. ob_idempotency_key q = k) (outbox_events d)" using assms(3) by (auto simp: list_ex_iff)
  ultimately show ?thesis
    using assms
    by (simp add: insert_outbox_if_missing_def Let_def one_or_none_def new_uuid_def insert_outbox_def outbox_row_check_def
        new_outbox_event_def varchar_ok_def opt_varchar_ok_def integer_ok_def draw_def get_defs)
qed

text \<open>The case a failed payment opens, as it is committed.\<close>

definition opened_case :: "uuid \<Rightarrow> uuid \<Rightarrow> payment \<Rightarrow> string option \<Rightarrow> int \<Rightarrow> recovery_case" where
  "opened_case u m p code t = (new_failed_case u m p code t)\<lparr>rc_status := ELIGIBLE, rc_version := 2, rc_updated_at := t\<rparr>"

lemma open_case_total:
  assumes m: "get_merchant d m \<noteq> None" and p: "get_payment d (pay_id p) \<noteq> None"
    and new: "pay_id p \<notin> rc_payment_id ` set (recovery_cases d)"
    and row: "bigint_ok (pay_amount_minor p)" "0 \<le> pay_amount_minor p" "currency_ok (pay_currency p)"
    and co: "opt_varchar_ok 64 co"
    and ids: "get_case d (draw d 0) = None" "get_audit d (draw d 1) = None" "get_outbox d (draw d 2) = None"
      "eligible_key (draw d 0) \<notin> ob_idempotency_key ` set (outbox_events d)"
    and c_def: "c = opened_case (draw d 0) m p (ent_error_code e) (clock d)"
  shows "open_case m e p co d =
    Inr ([(''outcome'', JStr ''recovery_case_created''), (''recovery_case_id'', JStr (uuid_str (draw d 0)))],
      d\<lparr>uuid_drawn := uuid_drawn d + 3, recovery_cases := recovery_cases d @ [c],
        audit_events := audit_events d @ [eligible_audit (draw d 1) m p c co (clock d)],
        outbox_events := outbox_events d @ [eligible_event (draw d 2) m p c (clock d)]\<rparr>)"
proof -
  let ?c = "new_failed_case (draw d 0) m p (ent_error_code e) (clock d)"
  let ?d1 = "d\<lparr>uuid_drawn := Suc (uuid_drawn d)\<rparr>"
  let ?d2 = "?d1\<lparr>recovery_cases := recovery_cases d @ [?c]\<rparr>"
  let ?d3 = "?d1\<lparr>recovery_cases := recovery_cases d @ [c]\<rparr>"
  have cur: "length (pay_currency p) = 3" using row(3) by (simp add: currency_ok_def)
  have chk: "case_row_check ?c = Inr ()"
    using row cur classify_failure_length
    by (simp add: case_row_check_def new_failed_case_def varchar_ok_def opt_varchar_ok_def integer_ok_def)
  have id: "rc_id ?c = draw d 0" by (simp add: new_failed_case_def)
  have uu: "new_uuid d = (draw d 0, ?d1)" by (simp add: new_uuid_def draw_def)
  have "\<not> list_ex (\<lambda>q. rc_payment_id q = pay_id p) (recovery_cases d)" using new by (force simp: list_ex_iff)
  then have ins: "insert_case ?c ?d1 = Inr ?d2"
    using m p ids(1) chk by (auto simp: insert_case_def get_defs new_failed_case_def)
  have tr: "transition_recovery_case ?c ELIGIBLE = Inr (?c\<lparr>rc_status := ELIGIBLE, rc_version := 2\<rparr>)"
    unfolding transition_recovery_case_Inr by (simp add: new_failed_case_def can_transition_def)
  have old: "rc_id q \<noteq> draw d 0" if "q \<in> set (recovery_cases d)" for q
    using ids(1) that by (force simp: get_defs get_row_None_iff)
  have fl: "flush_case (?c\<lparr>rc_status := ELIGIBLE, rc_version := 2\<rparr>) ?d2 = Inr ?d3"
    using chk old by (simp add: flush_case_def c_def opened_case_def id case_row_check_def upd_where_def integer_ok_def
        new_failed_case_def map_idI split: if_splits)
  let ?d4 = "?d3\<lparr>uuid_drawn := Suc (Suc (uuid_drawn d)),
      audit_events := audit_events d @ [eligible_audit (draw d 1) m p c co (clock d)]\<rparr>"
  have cc: "rc_id c = draw d 0" "rc_amount_minor c = pay_amount_minor p" "rc_currency c = pay_currency p"
    by (simp_all add: c_def opened_case_def new_failed_case_def)
  have au: "insert_audit m ''recovery_case'' (uuid_str (draw d 0)) ''recovery_case.eligible'' co
      (au_payload (eligible_audit u m p c co t)) ?d3 = Inr ?d4" for u t
    using insert_audit_total [of ?d3 m co "''recovery_case''" "uuid_str (draw d 0)" "''recovery_case.eligible''"] m ids(2) co cc(1)
    by (simp add: draw_def get_defs eligible_audit_def)
  have ob: "eligible_outbox m p c' ?d4 = Inr (eligible_event (draw d 2) m p c (clock d),
      ?d4\<lparr>uuid_drawn := uuid_drawn d + 3, outbox_events := outbox_events d @ [eligible_event (draw d 2) m p c (clock d)]\<rparr>)"
    if "rc_id c' = rc_id c" "rc_amount_minor c' = rc_amount_minor c" "rc_currency c' = rc_currency c" for c'
    using insert_outbox_total [of ?d4 m "eligible_key (draw d 0)" "''recovery_case''" "uuid_str (draw d 0)"
        "''recovery_case.eligible''"] m ids(3,4) cc(1) that eligible_key_length
    by (simp add: draw_def get_defs eligible_outbox_def eligible_event_def numeral_eq_Suc)
  show ?thesis
    unfolding open_case_def uu Let_def prod.case
    using ins tr fl au ob cc id
    by (simp add: eligible_audit_def new_failed_case_def numeral_eq_Suc)
qed

subsection \<open>From the request to the case\<close>

text \<open>The identifiers drawn for the five rows of a first failure are unused.\<close>

definition fresh_rows :: "db \<Rightarrow> bool" where
  "fresh_rows d \<longleftrightarrow> get_webhook d (draw d 0) = None \<and> get_payment d (draw d 1) = None \<and> get_case d (draw d 2) = None
     \<and> get_audit d (draw d 3) = None \<and> get_outbox d (draw d 4) = None
     \<and> \<not> list_ex (\<lambda>b. ob_idempotency_key b = eligible_key (draw d 2)) (outbox_events d)"

text \<open>An entity the tables can hold.\<close>

definition storable_entity :: "payment_entity \<Rightarrow> bool" where
  "storable_entity e \<longleftrightarrow> length (ent_id e) \<le> 128 \<and> bigint_ok (ent_amount e) \<and> 0 \<le> ent_amount e
     \<and> opt_varchar_ok 128 (ent_error_code e) \<and> opt_varchar_ok 512 (ent_error_description e)"

text \<open>No event of this identifier was stored, no payment of this provider identifier is known.\<close>

definition first_event :: "uuid \<Rightarrow> string \<Rightarrow> payment_entity \<Rightarrow> db \<Rightarrow> bool" where
  "first_event m i e d \<longleftrightarrow>
     \<not> list_ex (\<lambda>w. wh_provider w = ''razorpay'' \<and> wh_provider_event_id w = i) (webhook_events d)
     \<and> \<not> list_ex (\<lambda>p. pay_merchant_id p = m \<and> pay_provider p = ''razorpay'' \<and> pay_provider_payment_id p = ent_id e) (payments d)"

text \<open>What a first failure leaves in the database: five rows, all with the clock \<open>t\<close> of the request.\<close>

definition after_failure :: "uuid \<Rightarrow> string \<Rightarrow> razorpay_event \<Rightarrow> payment_entity \<Rightarrow> string \<Rightarrow> string option \<Rightarrow> db \<Rightarrow> db" where
  "after_failure m i dto e cur rid d =
     (let t = clock d; p = new_failed_payment (draw d 1) m e (ent_amount e) cur t;
          c = opened_case (draw d 2) m p (ent_error_code e) t
      in d\<lparr>uuid_drawn := uuid_drawn d + 5,
           webhook_events := webhook_events d @
             [(new_webhook_row (draw d 0) m i dto t)\<lparr>wh_status := W_PROCESSED, wh_processed_at := Some t\<rparr>],
           payments := payments d @ [p], recovery_cases := recovery_cases d @ [c],
           audit_events := audit_events d @ [eligible_audit (draw d 3) m p c rid t],
           outbox_events := outbox_events d @ [eligible_event (draw d 4) m p c t]\<rparr>)"

lemma fail_payment_total:
  assumes ok: "db_ok d" and m: "get_merchant d m \<noteq> None" and e: "storable_entity e" and cur: "currency_ok cur"
    and rid: "opt_varchar_ok 64 rid"
    and new: "\<not> list_ex (\<lambda>p. pay_merchant_id p = m \<and> pay_provider p = ''razorpay'' \<and> pay_provider_payment_id p = ent_id e) (payments d)"
    and ids: "get_payment d (draw d 0) = None" "get_case d (draw d 1) = None" "get_audit d (draw d 2) = None"
      "get_outbox d (draw d 3) = None" "eligible_key (draw d 1) \<notin> ob_idempotency_key ` set (outbox_events d)"
    and p_def: "p = new_failed_payment (draw d 0) m e (ent_amount e) cur (clock d)"
    and c_def: "c = opened_case (draw d 1) m p (ent_error_code e) (clock d)"
  shows "handle_payment_failed (\<lambda>d. d) m e (ent_amount e) cur rid d =
    Inr ([(''outcome'', JStr ''recovery_case_created''), (''recovery_case_id'', JStr (uuid_str (draw d 1)))],
      d\<lparr>uuid_drawn := uuid_drawn d + 4, payments := payments d @ [p], recovery_cases := recovery_cases d @ [c],
        audit_events := audit_events d @ [eligible_audit (draw d 2) m p c rid (clock d)],
        outbox_events := outbox_events d @ [eligible_event (draw d 3) m p c (clock d)]\<rparr>)"
proof -
  let ?d1 = "d\<lparr>uuid_drawn := Suc (uuid_drawn d), payments := payments d @ [p]\<rparr>"
  have none: "get_payment_by_provider m (ent_id e) d = Inr None"
    using new by (auto simp: get_payment_by_provider_def one_or_none_None filter_empty_conv list_ex_iff)
  have len: "length cur = 3" using cur by (simp add: currency_ok_def)
  have pid: "pay_id p = draw d 0" "pay_amount_minor p = ent_amount e" "pay_currency p = cur"
    by (simp_all add: p_def new_failed_payment_def)
  have st: "store_failed_payment (\<lambda>d. d) m e (ent_amount e) cur None d = Inr (p, ?d1)"
    using new m e cur len ids(1)
    by (simp add: store_failed_payment_def Let_def new_uuid_def insert_payment_def payment_row_check_def p_def
        new_failed_payment_def storable_entity_def varchar_ok_def get_defs draw_def)
  have nocase: "draw d 0 \<notin> rc_payment_id ` set (recovery_cases d)"
    using ok ids(1) by (force simp: db_ok_def cases_ok_def get_defs get_row_None_iff)
  then have look: "get_recovery_case_by_payment (pay_id p) ?d1 = Inr None"
    by (force simp: get_recovery_case_by_payment_def one_or_none_None filter_empty_conv pid)
  have dr: "draw ?d1 0 = draw d 1" "draw ?d1 1 = draw d 2" "draw ?d1 2 = draw d 3"
    by (simp_all add: draw_def numeral_eq_Suc)
  have stored: "get_payment ?d1 (pay_id p) \<noteq> None" by (simp add: get_defs get_row_None_iff del: not_None_eq)
  have oc: "open_case m e p rid ?d1 =
    Inr ([(''outcome'', JStr ''recovery_case_created''), (''recovery_case_id'', JStr (uuid_str (draw ?d1 0)))],
      ?d1\<lparr>uuid_drawn := uuid_drawn ?d1 + 3, recovery_cases := recovery_cases ?d1 @ [c],
        audit_events := audit_events ?d1 @ [eligible_audit (draw ?d1 1) m p c rid (clock ?d1)],
        outbox_events := outbox_events ?d1 @ [eligible_event (draw ?d1 2) m p c (clock ?d1)]\<rparr>)"
    by (rule open_case_total)
      (rule stored | use m nocase ids e cur rid pid in \<open>simp only: dr c_def storable_entity_def; simp add: get_defs\<close>)+
  have more: "uuid_drawn ?d1 + 3 = uuid_drawn d + 4" by simp
  show ?thesis
    unfolding handle_payment_failed_def none fail_payment_def
    using st look oc [unfolded dr more] by simp
qed

lemma event_committed:
  assumes sig: "verify_razorpay_signature env body sig = Inr ()" and dto: "parse_razorpay_webhook env body = Inr dto"
    and mer: "get_merchant d m = Some mer" "m_is_active mer"
    and unseen: "\<not> list_ex (\<lambda>w. wh_provider w = ''razorpay'' \<and> wh_provider_event_id w = i) (webhook_events d)"
    and i: "i = extract_provider_event_id env dto body" "length i \<le> 128" "length (rw_event dto) \<le> 128"
    and u: "get_webhook d (draw d 0) = None" and w: "w = new_webhook_row (draw d 0) m i dto (clock d)"
    and d2: "d2 = d\<lparr>uuid_drawn := Suc (uuid_drawn d), webhook_events := webhook_events d @ [w]\<rparr>"
    and run: "db_ok d2 \<Longrightarrow> process_razorpay_event env (\<lambda>d. d) m dto rid d2 = Inr ((r, st), d3)"
    and frame: "webhook_events d3 = webhook_events d @ [w]" "clock d3 = clock d" and ok: "db_ok d"
  shows "razorpay_webhook env (\<lambda>d. d) m body sig rid d =
    (Inr \<lparr>status_code = 200, content = r\<rparr>,
     d3\<lparr>webhook_events := webhook_events d @ [w\<lparr>wh_status := st, wh_processed_at := Some (clock d)\<rparr>]\<rparr>)"
proof -
  have mid: "m_id mer = m" using mer(1) get_row_SomeD by (fastforce simp: get_defs)
  have chk: "webhook_row_check w = Inr ()"
    using i by (simp add: w webhook_row_check_def new_webhook_row_def varchar_ok_def opt_varchar_ok_def)
  have uu: "new_uuid d = (draw d 0, d\<lparr>uuid_drawn := Suc (uuid_drawn d)\<rparr>)" by (simp add: new_uuid_def draw_def)
  have ins: "insert_webhook w (d\<lparr>uuid_drawn := Suc (uuid_drawn d)\<rparr>) = Inr d2"
    using unseen u mer chk by (simp add: insert_webhook_def get_defs w d2 new_webhook_row_def)
  have "db_step d d2" using new_uuid_step [of d] insert_webhook_step [OF ins] db_step_trans uu by fastforce
  then have run: "process_razorpay_event env (\<lambda>d. d) m dto rid d2 = Inr ((r, st), d3)" using ok db_step_ok run by blast
  have old: "wh_id q \<noteq> draw d 0" if "q \<in> set (webhook_events d)" for q
    using u that by (force simp: get_defs get_row_None_iff)
  have fl: "flush_webhook (w\<lparr>wh_status := st, wh_processed_at := Some (clock d)\<rparr>) d3
      = Inr (d3\<lparr>webhook_events := webhook_events d @ [w\<lparr>wh_status := st, wh_processed_at := Some (clock d)\<rparr>]\<rparr>)"
    using chk old by (simp add: flush_webhook_def webhook_row_check_def frame upd_where_def w new_webhook_row_def
        map_idI split: if_splits)
  have tx: "webhook_transaction env (\<lambda>d. d) m i dto rid d =
    Inr (r, d3\<lparr>webhook_events := webhook_events d @ [w\<lparr>wh_status := st, wh_processed_at := Some (clock d)\<rparr>]\<rparr>)"
    using ins run fl mer mid by (simp add: webhook_transaction_def uu w frame Let_def)
  show ?thesis
    unfolding razorpay_webhook_def sig dto sum.case i(1) [symmetric]
      in_transaction_commit [of "webhook_transaction env (\<lambda>d. d) m i dto rid", OF tx]
    by simp
qed

lemma failed_payment_stored:
  assumes ok: "db_ok d" and sig: "verify_razorpay_signature env body sig = Inr ()"
    and dto: "parse_razorpay_webhook env body = Inr dto" "rw_event dto = ''payment.failed''"
    and ent: "extract_payment_entity env dto = Inr e" "storable_entity e"
    and cur: "normalize_currency (JStr (ent_currency e)) = Inr cur" "currency_ok cur"
    and mer: "get_merchant d m = Some mer" "m_is_active mer"
    and new: "first_event m (extract_provider_event_id env dto body) e d" "fresh_rows d"
    and len: "length (extract_provider_event_id env dto body) \<le> 128" "opt_varchar_ok 64 rid"
  shows "razorpay_webhook env (\<lambda>d. d) m body sig rid d =
    (Inr \<lparr>status_code = 200, content = [(''status'', JStr ''accepted''), (''outcome'', JStr ''recovery_case_created''),
        (''recovery_case_id'', JStr (uuid_str (draw d 2)))]\<rparr>,
     after_failure m (extract_provider_event_id env dto body) dto e cur rid d)"
proof -
  let ?i = "extract_provider_event_id env dto body"
  define w where "w = new_webhook_row (draw d 0) m ?i dto (clock d)"
  define d2 where "d2 = d\<lparr>uuid_drawn := Suc (uuid_drawn d), webhook_events := webhook_events d @ [w]\<rparr>"
  define d3 where "d3 = (after_failure m ?i dto e cur rid d)\<lparr>webhook_events := webhook_events d @ [w]\<rparr>"
  have dr: "draw d2 0 = draw d 1" "draw d2 1 = draw d 2" "draw d2 2 = draw d 3" "draw d2 3 = draw d 4"
    by (simp_all add: draw_def d2_def numeral_eq_Suc)
  have key: "eligible_key (draw d 2) \<notin> ob_idempotency_key ` set (outbox_events d)"
    using new(2) by (auto simp: fresh_rows_def list_ex_iff)
  have np: "\<not> list_ex (\<lambda>p. pay_merchant_id p = m \<and> pay_provider p = ''razorpay'' \<and> pay_provider_payment_id p = ent_id e)
      (payments d2)" using new(1) by (simp add: first_event_def d2_def)
  have gm: "get_merchant d2 m \<noteq> None" using mer by (simp add: get_defs d2_def)
  have "process_razorpay_event env (\<lambda>d. d) m dto rid d2 =
    Inr (([(''status'', JStr ''accepted''), (''outcome'', JStr ''recovery_case_created''),
           (''recovery_case_id'', JStr (uuid_str (draw d 2)))], W_PROCESSED), d3)" if ok2: "db_ok d2"
  proof -
    have "validate_amount_minor (JInt (ent_amount e)) = Inr (ent_amount e)"
      using ent(2) by (simp add: validate_amount_minor_Inr storable_entity_def)
    moreover have "handle_payment_failed (\<lambda>d. d) m e (ent_amount e) cur rid d2 =
      Inr ([(''outcome'', JStr ''recovery_case_created''), (''recovery_case_id'', JStr (uuid_str (draw d 2)))], d3)"
      using fail_payment_total [OF ok2 gm ent(2) cur(2) len(2) np _ _ _ _ _ refl refl, unfolded dr] new(2) key
      by (simp add: get_defs fresh_rows_def after_failure_def Let_def d2_def d3_def)
    ultimately show ?thesis by (simp add: process_razorpay_event_def SUPPORTED_EVENTS_def dto ent cur)
  qed
  from event_committed [OF sig dto(1) mer _ refl len(1) _ _ w_def d2_def this] new dto(2) ok show ?thesis
    by (simp add: first_event_def fresh_rows_def after_failure_def Let_def w_def d3_def)
qed

text \<open>
  C17: a failed payment is taken up. A correctly signed first \<^verbatim>\<open>payment.failed\<close> event of an active
  merchant, within the widths of the tables, is answered with status 200 and leaves exactly five new
  rows: the processed event, the failed payment, its case in state \<open>ELIGIBLE\<close> with the amount,
  currency and category of the failure, the audit entry with the request identifier, and the
  pending outbox event that announces the case.
\<close>

theorem failed_payment_opens_case:
  assumes ok: "db_ok d" and sig: "verify_razorpay_signature env body sig = Inr ()"
    and dto: "parse_razorpay_webhook env body = Inr dto" "rw_event dto = ''payment.failed''"
    and ent: "extract_payment_entity env dto = Inr e" "storable_entity e"
    and cur: "normalize_currency (JStr (ent_currency e)) = Inr cur" "currency_ok cur"
    and mer: "get_merchant d m = Some mer" "m_is_active mer"
    and new: "first_event m (extract_provider_event_id env dto body) e d" "fresh_rows d"
    and len: "length (extract_provider_event_id env dto body) \<le> 128" "opt_varchar_ok 64 rid"
  shows "razorpay_webhook env (\<lambda>d. d) m body sig rid d =
    (Inr \<lparr>status_code = 200, content = [(''status'', JStr ''accepted''), (''outcome'', JStr ''recovery_case_created''),
        (''recovery_case_id'', JStr (uuid_str (draw d 2)))]\<rparr>,
     after_failure m (extract_provider_event_id env dto body) dto e cur rid d)"
  by (rule failed_payment_stored) fact+

subsection \<open>A capture that names its case\<close>

definition recovered_audit :: "uuid \<Rightarrow> uuid \<Rightarrow> payment \<Rightarrow> uuid \<Rightarrow> string option \<Rightarrow> int \<Rightarrow> audit_event" where
  "recovered_audit u m p i co t =
     \<lparr>au_id = u, au_merchant_id = m, au_entity_type = ''recovery_case'', au_entity_id = uuid_str i,
      au_event_type = ''recovery_case.recovered'', au_actor = ''webhook'', au_correlation_id = co,
      au_payload = [(''payment_id'', JStr (uuid_str (pay_id p))),
                   (''provider_payment_id'', JStr (pay_provider_payment_id p)),
                   (''to_status'', JStr (recovery_case_status_value RECOVERED))],
      au_created_at = t\<rparr>"

definition recovered_event :: "uuid \<Rightarrow> uuid \<Rightarrow> payment \<Rightarrow> uuid \<Rightarrow> int \<Rightarrow> outbox_event" where
  "recovered_event u m p i t =
     new_outbox_event u m ''recovery_case'' (uuid_str i) ''recovery_case.recovered'' (recovered_key i)
       [(''merchant_id'', JStr (uuid_str m)), (''payment_id'', JStr (uuid_str (pay_id p))),
        (''recovery_case_id'', JStr (uuid_str i))] t"

text \<open>The tables after a case was recovered by payment \<open>p\<close>.\<close>

definition with_recovery :: "uuid \<Rightarrow> payment \<Rightarrow> recovery_case \<Rightarrow> string option \<Rightarrow> db \<Rightarrow> db" where
  "with_recovery m p c rid d =
     d\<lparr>uuid_drawn := uuid_drawn d + 2,
       recovery_cases := upd_where (\<lambda>q. rc_id q = rc_id c)
         (\<lambda>q. q\<lparr>rc_status := RECOVERED, rc_version := rc_version c + 1, rc_updated_at := clock d\<rparr>) (recovery_cases d),
       recovery_actions := upd_where (\<lambda>a. ra_recovery_case_id a = rc_id c \<and> ra_status a \<in> {A_PENDING, A_APPROVED})
         (\<lambda>a. a\<lparr>ra_status := A_CANCELLED, ra_updated_at := clock d\<rparr>) (recovery_actions d),
       audit_events := audit_events d @ [recovered_audit (draw d 0) m p (rc_id c) rid (clock d)],
       outbox_events := outbox_events d @ [recovered_event (draw d 1) m p (rc_id c) (clock d)]\<rparr>"

lemma recovered_key_length: "length (recovered_key i) \<le> 128"
  by (simp add: recovered_key_def)

lemma open_recoverable: "\<not> is_terminal s \<Longrightarrow> can_transition s RECOVERED"
  by (cases s) (simp_all add: can_transition_def is_terminal_iff)

lemma mark_case_recovered_total:
  assumes m: "get_merchant d m \<noteq> None" and nt: "\<not> is_terminal (rc_status c)"
    and v: "integer_ok (rc_version c + 1)" "0 < rc_version c + 1" and co: "opt_varchar_ok 64 rid"
    and ids: "get_audit d (draw d 0) = None" "get_outbox d (draw d 1) = None"
      "recovered_key (rc_id c) \<notin> ob_idempotency_key ` set (outbox_events d)"
  shows "mark_case_recovered m p c rid d =
    Inr ([(''outcome'', JStr ''recovery_case_recovered''), (''recovery_case_id'', JStr (uuid_str (rc_id c)))],
      with_recovery m p c rid d)"
proof -
  let ?c = "c\<lparr>rc_status := RECOVERED, rc_version := rc_version c + 1\<rparr>"
  have tr: "transition_recovery_case c RECOVERED = Inr ?c"
    unfolding transition_recovery_case_Inr using open_recoverable [OF nt] by simp
  define d1 where "d1 = d\<lparr>recovery_cases := upd_where (\<lambda>q. rc_id q = rc_id c)
         (\<lambda>q. q\<lparr>rc_status := RECOVERED, rc_version := rc_version c + 1, rc_updated_at := clock d\<rparr>) (recovery_cases d)\<rparr>"
  have fl: "flush_case_status ?c d = Inr d1" using v by (simp add: flush_case_status_def d1_def)
  define d2 where "d2 = cancel_open_actions (rc_id c) d1"
  have d2: "d2 = d1\<lparr>recovery_actions := upd_where (\<lambda>a. ra_recovery_case_id a = rc_id c \<and> ra_status a \<in> {A_PENDING, A_APPROVED})
         (\<lambda>a. a\<lparr>ra_status := A_CANCELLED, ra_updated_at := clock d\<rparr>) (recovery_actions d)\<rparr>"
    by (simp add: d2_def cancel_open_actions_def update_actions_def d1_def)
  define d3 where "d3 = d2\<lparr>uuid_drawn := Suc (uuid_drawn d),
     audit_events := audit_events d @ [recovered_audit (draw d 0) m p (rc_id c) rid (clock d)]\<rparr>"
  have dr: "draw d2 0 = draw d 0" "draw d3 0 = draw d 1"
    by (simp_all add: draw_def d3_def d2 d1_def)
  have au: "insert_audit m ''recovery_case'' (uuid_str (rc_id c)) ''recovery_case.recovered'' rid
      (au_payload (recovered_audit u m p (rc_id c) rid t)) d2 = Inr d3" for u t
    by (subst insert_audit_total)
      (use m ids(1) co in \<open>simp_all only: dr\<close>, simp_all add: get_defs d3_def d2 d1_def recovered_audit_def)
  have ob: "insert_outbox_if_missing m ''recovery_case'' (uuid_str (rc_id c)) ''recovery_case.recovered'' (recovered_key (rc_id c))
      [(''merchant_id'', JStr (uuid_str m)), (''payment_id'', JStr (uuid_str (pay_id p))), (''recovery_case_id'', JStr (uuid_str (rc_id c)))] d3
      = Inr (recovered_event (draw d 1) m p (rc_id c) (clock d), with_recovery m p c rid d)"
    by (subst insert_outbox_total)
      (use m ids(2,3) recovered_key_length in \<open>simp_all only: dr\<close>,
       simp_all add: get_defs d3_def d2 d1_def recovered_event_def with_recovery_def)
  show ?thesis
    unfolding mark_case_recovered_def tr using nt fl au ob by (simp add: d2_def [symmetric] recovered_audit_def)
qed

text \<open>The rows of a capture: the event, the payment, the audit entry and the outbox event are new.\<close>

definition fresh_capture_rows :: "uuid \<Rightarrow> db \<Rightarrow> bool" where
  "fresh_capture_rows i d \<longleftrightarrow> get_webhook d (draw d 0) = None \<and> get_payment d (draw d 1) = None
     \<and> get_audit d (draw d 2) = None \<and> get_outbox d (draw d 3) = None
     \<and> \<not> list_ex (\<lambda>b. ob_idempotency_key b = recovered_key i) (outbox_events d)"

definition after_capture ::
  "uuid \<Rightarrow> string \<Rightarrow> razorpay_event \<Rightarrow> payment_entity \<Rightarrow> string \<Rightarrow> string option \<Rightarrow> recovery_case \<Rightarrow> db \<Rightarrow> db" where
  "after_capture m i dto e cur rid c d =
     (let p = new_captured_payment (draw d 1) m e (ent_amount e) cur (clock d)
      in with_recovery m p c rid (d\<lparr>uuid_drawn := uuid_drawn d + 2,
           webhook_events := webhook_events d @
             [(new_webhook_row (draw d 0) m i dto (clock d))\<lparr>wh_status := W_PROCESSED, wh_processed_at := Some (clock d)\<rparr>],
           payments := payments d @ [p]\<rparr>))"

lemma noted_case_cong: "recovery_cases d' = recovery_cases d \<Longrightarrow> noted_case m e d' = noted_case m e d"
proof -
  assume "recovery_cases d' = recovery_cases d"
  then have "get_case d' = get_case d" by (simp add: fun_eq_iff get_case_def)
  then show ?thesis unfolding noted_case_def by (simp only:)
qed

lemma handle_captured_total:
  assumes m: "get_merchant d m \<noteq> None" and e: "storable_entity e" and cur: "currency_ok cur" and rid: "opt_varchar_ok 64 rid"
    and new: "\<not> list_ex (\<lambda>p. pay_merchant_id p = m \<and> pay_provider p = ''razorpay'' \<and> pay_provider_payment_id p = ent_id e) (payments d)"
    and c: "noted_case m e d = Some c" "\<not> is_terminal (rc_status c)" "integer_ok (rc_version c + 1)" "0 < rc_version c + 1"
    and ids: "get_payment d (draw d 0) = None" "get_audit d (draw d 1) = None" "get_outbox d (draw d 2) = None"
      "recovered_key (rc_id c) \<notin> ob_idempotency_key ` set (outbox_events d)"
    and p_def: "p = new_captured_payment (draw d 0) m e (ent_amount e) cur (clock d)"
  shows "handle_payment_captured (\<lambda>d. d) m e (ent_amount e) cur rid d =
    Inr ([(''outcome'', JStr ''recovery_case_recovered''), (''recovery_case_id'', JStr (uuid_str (rc_id c)))],
      with_recovery m p c rid (d\<lparr>uuid_drawn := Suc (uuid_drawn d), payments := payments d @ [p]\<rparr>))"
proof -
  let ?d1 = "d\<lparr>uuid_drawn := Suc (uuid_drawn d), payments := payments d @ [p]\<rparr>"
  have none: "get_payment_by_provider m (ent_id e) d = Inr None"
    using new by (auto simp: get_payment_by_provider_def one_or_none_None filter_empty_conv list_ex_iff)
  have len: "length cur = 3" using cur by (simp add: currency_ok_def)
  have st: "store_captured_payment (\<lambda>d. d) m e (ent_amount e) cur None d = Inr (p, ?d1)"
    using new m e cur len ids(1)
    by (simp add: store_captured_payment_def Let_def new_uuid_def insert_payment_def payment_row_check_def p_def
        new_captured_payment_def storable_entity_def varchar_ok_def opt_varchar_ok_def get_defs draw_def)
  have nc: "noted_case m e ?d1 = Some c" using c(1) noted_case_cong [of ?d1 d] by simp
  have dr: "draw ?d1 0 = draw d 1" "draw ?d1 (Suc 0) = draw d 2" by (simp_all add: draw_def numeral_eq_Suc)
  have "mark_case_recovered m p c rid ?d1 =
    Inr ([(''outcome'', JStr ''recovery_case_recovered''), (''recovery_case_id'', JStr (uuid_str (rc_id c)))],
      with_recovery m p c rid ?d1)"
    by (rule mark_case_recovered_total) (use m c ids rid in \<open>simp_all add: get_defs dr\<close>)
  then show ?thesis unfolding handle_payment_captured_def none using st nc by simp
qed

lemma captured_payment_stored:
  assumes ok: "db_ok d" and sig: "verify_razorpay_signature env body sig = Inr ()"
    and dto: "parse_razorpay_webhook env body = Inr dto" "rw_event dto = ''payment.captured''"
    and ent: "extract_payment_entity env dto = Inr e" "storable_entity e"
    and cur: "normalize_currency (JStr (ent_currency e)) = Inr cur" "currency_ok cur"
    and mer: "get_merchant d m = Some mer" "m_is_active mer"
    and c: "noted_case m e d = Some c" "\<not> is_terminal (rc_status c)" "integer_ok (rc_version c + 1)" "0 < rc_version c + 1"
    and new: "first_event m (extract_provider_event_id env dto body) e d" "fresh_capture_rows (rc_id c) d"
    and len: "length (extract_provider_event_id env dto body) \<le> 128" "opt_varchar_ok 64 rid"
  shows "razorpay_webhook env (\<lambda>d. d) m body sig rid d =
    (Inr \<lparr>status_code = 200, content = [(''status'', JStr ''accepted''), (''outcome'', JStr ''recovery_case_recovered''),
        (''recovery_case_id'', JStr (uuid_str (rc_id c)))]\<rparr>,
     after_capture m (extract_provider_event_id env dto body) dto e cur rid c d)"
proof -
  let ?i = "extract_provider_event_id env dto body"
  define w where "w = new_webhook_row (draw d 0) m ?i dto (clock d)"
  define d2 where "d2 = d\<lparr>uuid_drawn := Suc (uuid_drawn d), webhook_events := webhook_events d @ [w]\<rparr>"
  define d3 where "d3 = (after_capture m ?i dto e cur rid c d)\<lparr>webhook_events := webhook_events d @ [w]\<rparr>"
  have dr: "draw d2 0 = draw d 1" "draw d2 1 = draw d 2" "draw d2 2 = draw d 3"
    by (simp_all add: draw_def d2_def numeral_eq_Suc)
  have key: "recovered_key (rc_id c) \<notin> ob_idempotency_key ` set (outbox_events d2)"
    using new(2) by (auto simp: fresh_capture_rows_def list_ex_iff d2_def)
  have np: "\<not> list_ex (\<lambda>p. pay_merchant_id p = m \<and> pay_provider p = ''razorpay'' \<and> pay_provider_payment_id p = ent_id e)
      (payments d2)" using new(1) by (simp add: first_event_def d2_def)
  have gm: "get_merchant d2 m \<noteq> None" using mer by (simp add: get_defs d2_def)
  have nc: "noted_case m e d2 = Some c" using c(1) noted_case_cong [of d2 d] by (simp add: d2_def)
  have "validate_amount_minor (JInt (ent_amount e)) = Inr (ent_amount e)"
    using ent(2) by (simp add: validate_amount_minor_Inr storable_entity_def)
  moreover have "handle_payment_captured (\<lambda>d. d) m e (ent_amount e) cur rid d2 =
    Inr ([(''outcome'', JStr ''recovery_case_recovered''), (''recovery_case_id'', JStr (uuid_str (rc_id c)))], d3)"
  proof -
    have "d3 = with_recovery m (new_captured_payment (draw d 1) m e (ent_amount e) cur (clock d)) c rid
        (d2\<lparr>uuid_drawn := Suc (uuid_drawn d2), payments := payments d2 @ [new_captured_payment (draw d 1) m e (ent_amount e) cur (clock d)]\<rparr>)"
      by (simp add: d3_def after_capture_def with_recovery_def Let_def d2_def draw_def)
    then show ?thesis
      using handle_captured_total [OF gm ent(2) cur(2) len(2) np nc c(2-4) _ _ _ key refl, unfolded dr] new(2)
      by (simp add: get_defs fresh_capture_rows_def d2_def)
  qed
  ultimately have "process_razorpay_event env (\<lambda>d. d) m dto rid d2 =
    Inr (([(''status'', JStr ''accepted''), (''outcome'', JStr ''recovery_case_recovered''),
           (''recovery_case_id'', JStr (uuid_str (rc_id c)))], W_PROCESSED), d3)"
    by (simp add: process_razorpay_event_def SUPPORTED_EVENTS_def dto ent cur)
  from event_committed [OF sig dto(1) mer _ refl len(1) _ _ w_def d2_def this] new dto(2) ok show ?thesis
    by (simp add: first_event_def fresh_capture_rows_def after_capture_def with_recovery_def Let_def w_def d3_def draw_def)
qed

text \<open>
  C16: a captured payment ends the recovery. A correctly signed first \<^verbatim>\<open>payment.captured\<close> event of an
  active merchant whose notes name one of the merchant's open cases is answered with status 200:
  the payment is stored as captured, the case is \<open>RECOVERED\<close> with its version increased, every
  pending or approved action of the case is cancelled, and an audit entry and an outbox event
  record the recovery.
\<close>

theorem captured_payment_recovers_case:
  assumes ok: "db_ok d" and sig: "verify_razorpay_signature env body sig = Inr ()"
    and dto: "parse_razorpay_webhook env body = Inr dto" "rw_event dto = ''payment.captured''"
    and ent: "extract_payment_entity env dto = Inr e" "storable_entity e"
    and cur: "normalize_currency (JStr (ent_currency e)) = Inr cur" "currency_ok cur"
    and mer: "get_merchant d m = Some mer" "m_is_active mer"
    and c: "noted_case m e d = Some c" "\<not> is_terminal (rc_status c)" "integer_ok (rc_version c + 1)" "0 < rc_version c + 1"
    and new: "first_event m (extract_provider_event_id env dto body) e d" "fresh_capture_rows (rc_id c) d"
    and len: "length (extract_provider_event_id env dto body) \<le> 128" "opt_varchar_ok 64 rid"
  shows "razorpay_webhook env (\<lambda>d. d) m body sig rid d =
    (Inr \<lparr>status_code = 200, content = [(''status'', JStr ''accepted''), (''outcome'', JStr ''recovery_case_recovered''),
        (''recovery_case_id'', JStr (uuid_str (rc_id c)))]\<rparr>,
     after_capture m (extract_provider_event_id env dto body) dto e cur rid c d)"
  by (rule captured_payment_stored) fact+

end
