(* ===== verification/Local_Webhooks.thy ===== *)
theory Local_Webhooks
  imports App Webhook_Outcomes
begin

text \<open>
  The two scripts that play the payment provider, \<^verbatim>\<open>src/scripts/send_local_webhook.py\<close> and
  \<^verbatim>\<open>send_recovery_success_webhook.py\<close>, and the application answering them. \<open>dumps\<close> is
  \<open>json.dumps\<close>, \<open>parse_int\<close> the conversion \<open>int(text)\<close> of a command line argument, \<open>u\<close> and \<open>v\<close> the
  values of \<open>uuid.uuid4()\<close>; \<open>route\<close> is how the framework reads the merchant identifier of the URL.
  A script ends with its usage message (\<open>None\<close>) or posts a request.
\<close>

subsection \<open>The scripts\<close>

definition arg :: "string list \<Rightarrow> nat \<Rightarrow> string \<Rightarrow> string" where
  "arg argv n dflt = (if n < length argv then argv ! n else dflt)"

record webhook_post =
  post_merchant :: string
  post_body :: string
  post_signature :: string

definition signed_post :: "web_env \<Rightarrow> (json \<Rightarrow> string) \<Rightarrow> string \<Rightarrow> json \<Rightarrow> webhook_post" where
  "signed_post env dumps merchant_id payload =
     (let body = dumps payload
      in \<lparr>post_merchant = merchant_id, post_body = body,
          post_signature = hmac_sha256_hex env (razorpay_webhook_secret (web_settings env)) body\<rparr>)"

definition local_webhook_payload :: "string \<Rightarrow> string \<Rightarrow> string \<Rightarrow> string \<Rightarrow> json" where
  "local_webhook_payload event_id event_type payment_id error_code =
     (let failed = (event_type = ''payment.failed'')
      in JObj [(''id'', JStr event_id), (''event'', JStr event_type),
           (''payload'', JObj [(''payment'', JObj [(''entity'', JObj
              [(''id'', JStr payment_id), (''amount'', JInt 7999), (''currency'', JStr ''INR''),
               (''status'', JStr (if failed then ''failed'' else ''captured'')),
               (''error_code'', if failed then JStr error_code else JNull),
               (''error_description'', if failed then JStr ''Simulated local failure'' else JNull)])])])])"

definition send_local_webhook ::
  "web_env \<Rightarrow> (json \<Rightarrow> string) \<Rightarrow> uuid \<Rightarrow> uuid \<Rightarrow> string list \<Rightarrow> webhook_post option" where
  "send_local_webhook env dumps u v argv =
     (if length argv < 2 then None
      else
        let merchant_id = argv ! 1;
            event_type = arg argv 2 ''payment.failed'';
            payment_id = arg argv 3 (''pay_'' @ uuid_hex u);
            event_id = arg argv 4 (''evt_'' @ uuid_hex v);
            error_code = arg argv 5 ''expired_instrument''
        in Some (signed_post env dumps merchant_id (local_webhook_payload event_id event_type payment_id error_code)))"

definition success_payload :: "string \<Rightarrow> string \<Rightarrow> int \<Rightarrow> string \<Rightarrow> string \<Rightarrow> json" where
  "success_payload event_id new_payment_id amount_minor merchant_id recovery_case_id =
     JObj [(''id'', JStr event_id), (''event'', JStr ''payment.captured''),
       (''payload'', JObj [(''payment'', JObj [(''entity'', JObj
          [(''id'', JStr new_payment_id), (''amount'', JInt amount_minor), (''currency'', JStr ''INR''),
           (''status'', JStr ''captured''),
           (''notes'', JObj [(''recoverai_merchant_id'', JStr merchant_id),
                             (''recoverai_recovery_case_id'', JStr recovery_case_id)])])])])]"

definition send_recovery_success_webhook ::
  "web_env \<Rightarrow> (json \<Rightarrow> string) \<Rightarrow> (string \<Rightarrow> int option) \<Rightarrow> uuid \<Rightarrow> uuid \<Rightarrow> string list \<Rightarrow> webhook_post option res" where
  "send_recovery_success_webhook env dumps parse_int u v argv =
     (if length argv < 3 then Inr None
      else
        let merchant_id = argv ! 1; recovery_case_id = argv ! 2 in
        case (if 3 < length argv then parse_int (argv ! 3) else Some 7999) of
          None \<Rightarrow> Inl (ValueError ''invalid literal for int()'')
        | Some amount_minor \<Rightarrow>
            (let event_id = arg argv 4 (''evt_'' @ uuid_hex u);
                 new_payment_id = arg argv 5 (''pay_'' @ uuid_hex v)
             in Inr (Some (signed_post env dumps merchant_id
                  (success_payload event_id new_payment_id amount_minor merchant_id recovery_case_id)))))"

text \<open>The application's answer to a posted request.\<close>

definition serve_webhook ::
  "(string \<Rightarrow> uuid option) \<Rightarrow> web_env \<Rightarrow> uuid \<Rightarrow> webhook_post \<Rightarrow> db \<Rightarrow> (http_response res \<times> db) option" where
  "serve_webhook route env u post d =
     map_option (\<lambda>m. fst (webhook_request env (\<lambda>d. d) u m (post_body post) (Some (post_signature post)) None d))
       (route (post_merchant post))"

subsection \<open>What the scripts rely on\<close>

text \<open>
  \<open>json.loads\<close> reads back the payload \<open>v\<close> that \<open>json.dumps\<close> wrote, pydantic accepts an integer as an integer, and a
  \<open>hexdigest\<close> is a non-empty ASCII text without surrounding white space.
\<close>

definition libraries_ok :: "web_env \<Rightarrow> (json \<Rightarrow> string) \<Rightarrow> json \<Rightarrow> bool" where
  "libraries_ok env dumps v \<longleftrightarrow> json_value env (dumps v) = Some v \<and> (\<forall>i. lax_int env (JInt i) = Some i)
     \<and> (\<forall>k b. hmac_sha256_hex env k b \<noteq> [] \<and> is_ascii (hmac_sha256_hex env k b)
          \<and> py_strip (hmac_sha256_hex env k b) = hmac_sha256_hex env k b)"

lemma signed_post_verified:
  assumes "libraries_ok env dumps v" and "razorpay_webhook_secret (web_settings env) \<noteq> []"
  shows "verify_razorpay_signature env (post_body (signed_post env dumps m v)) (Some (post_signature (signed_post env dumps m v))) = Inr ()"
proof -
  define h where "h = hmac_sha256_hex env (razorpay_webhook_secret (web_settings env)) (dumps v)"
  have "h \<noteq> []" "is_ascii h" "py_strip h = h" using assms(1) by (simp_all add: libraries_ok_def h_def)
  then show ?thesis
    using assms(2) by (cases h) (simp_all add: verify_razorpay_signature_def signed_post_def Let_def h_def [symmetric])
qed

definition local_entity :: "string \<Rightarrow> string \<Rightarrow> payment_entity" where
  "local_entity payment_id error_code =
     \<lparr>ent_id = payment_id, ent_amount = 7999, ent_currency = ''INR'', ent_status = Some ''failed'',
      ent_error_code = Some error_code, ent_error_description = Some ''Simulated local failure'', ent_notes = None\<rparr>"

definition success_entity :: "string \<Rightarrow> int \<Rightarrow> string \<Rightarrow> string \<Rightarrow> payment_entity" where
  "success_entity payment_id amount merchant_id case_id =
     \<lparr>ent_id = payment_id, ent_amount = amount, ent_currency = ''INR'', ent_status = Some ''captured'',
      ent_error_code = None, ent_error_description = None,
      ent_notes = Some [(''recoverai_merchant_id'', JStr merchant_id), (''recoverai_recovery_case_id'', JStr case_id)]\<rparr>"

lemmas field_defs = str_field_def opt_str_field_def dict_field_def opt_dict_field_def amount_field_def

lemma local_payload_parsed:
  assumes "libraries_ok env dumps (local_webhook_payload i ''payment.failed'' p code)"
  obtains dto where "parse_razorpay_webhook env (dumps (local_webhook_payload i ''payment.failed'' p code)) = Inr dto"
    and "rw_event dto = ''payment.failed''" and "rw_id dto = Some i" and "extract_payment_entity env dto = Inr (local_entity p code)"
proof
  let ?dto = "\<lparr>rw_id = Some i, rw_event = ''payment.failed'',
     rw_payload = [(''payment'', JObj [(''entity'', JObj
              [(''id'', JStr p), (''amount'', JInt 7999), (''currency'', JStr ''INR''), (''status'', JStr ''failed''),
               (''error_code'', JStr code), (''error_description'', JStr ''Simulated local failure'')])])]\<rparr>"
  show "parse_razorpay_webhook env (dumps (local_webhook_payload i ''payment.failed'' p code)) = Inr ?dto"
    using assms by (simp add: libraries_ok_def parse_razorpay_webhook_def local_webhook_payload_def validate_webhook_def field_defs)
  show "extract_payment_entity env ?dto = Inr (local_entity p code)"
    using assms by (simp add: libraries_ok_def extract_payment_entity_def validate_payment_entity_def field_defs local_entity_def obj_get_def)
qed simp_all

lemma success_payload_parsed:
  assumes "libraries_ok env dumps (success_payload i p a m c)" and "0 \<le> a"
  obtains dto where "parse_razorpay_webhook env (dumps (success_payload i p a m c)) = Inr dto"
    and "rw_event dto = ''payment.captured''" and "rw_id dto = Some i" and "extract_payment_entity env dto = Inr (success_entity p a m c)"
proof
  let ?dto = "\<lparr>rw_id = Some i, rw_event = ''payment.captured'',
     rw_payload = [(''payment'', JObj [(''entity'', JObj
          [(''id'', JStr p), (''amount'', JInt a), (''currency'', JStr ''INR''), (''status'', JStr ''captured''),
           (''notes'', JObj [(''recoverai_merchant_id'', JStr m), (''recoverai_recovery_case_id'', JStr c)])])])]\<rparr>"
  show "parse_razorpay_webhook env (dumps (success_payload i p a m c)) = Inr ?dto"
    using assms by (simp add: libraries_ok_def parse_razorpay_webhook_def success_payload_def validate_webhook_def field_defs)
  show "extract_payment_entity env ?dto = Inr (success_entity p a m c)"
    using assms by (simp add: libraries_ok_def extract_payment_entity_def validate_payment_entity_def field_defs success_entity_def obj_get_def)
qed simp_all

subsection \<open>From failure to recovery\<close>

lemma INR_normal: "normalize_currency (JStr ''INR'') = Inr ''INR''" "currency_ok ''INR''"
  by code_simp+

lemma fst_request:
  "razorpay_webhook env (\<lambda>d. d) m body sig (Some (uuid_str u)) d = (Inr a, d') \<Longrightarrow>
     fst (webhook_request env (\<lambda>d. d) u m body sig None d)
       = (Inr \<lparr>response_answer = a, response_headers = [(''X-Request-ID'', uuid_str u)]\<rparr>, d')"
  by (simp add: webhook_request_def add_request_context_def request_id_of_def)

text \<open>The identifiers drawn for the nine rows of both requests are new.\<close>

definition fresh_draws :: "db \<Rightarrow> bool" where
  "fresh_draws d \<longleftrightarrow> fresh_rows d \<and> distinct (map (draw d) [0..<9])
     \<and> get_webhook d (draw d 5) = None \<and> get_payment d (draw d 6) = None \<and> get_audit d (draw d 7) = None
     \<and> get_outbox d (draw d 8) = None
     \<and> \<not> list_ex (\<lambda>b. ob_idempotency_key b = recovered_key (draw d 2)) (outbox_events d)"

text \<open>Neither event nor payment of this identifier is known.\<close>

definition unknown_to :: "uuid \<Rightarrow> string \<Rightarrow> string \<Rightarrow> db \<Rightarrow> bool" where
  "unknown_to m i p d \<longleftrightarrow>
     \<not> list_ex (\<lambda>w. wh_provider w = ''razorpay'' \<and> wh_provider_event_id w = i) (webhook_events d)
     \<and> \<not> list_ex (\<lambda>q. pay_merchant_id q = m \<and> pay_provider q = ''razorpay'' \<and> pay_provider_payment_id q = p) (payments d)"

lemma local_webhook_served:
  assumes lib: "libraries_ok env dumps (local_webhook_payload i ''payment.failed'' p code)" "razorpay_webhook_secret (web_settings env) \<noteq> []"
    and ok: "db_ok d" and mer: "get_merchant d m = Some mer" "m_is_active mer" and fresh: "fresh_rows d"
    and i: "i \<noteq> []" "length i \<le> 128" and p: "length p \<le> 128" and code: "length code \<le> 128"
    and new: "unknown_to m i p d" and route: "route s = Some m"
    and post: "send_local_webhook env dumps u v [prog, s, ''payment.failed'', p, i, code] = Some post"
  obtains dto a where "serve_webhook route env w post d =
      Some (Inr \<lparr>response_answer = a, response_headers = [(''X-Request-ID'', uuid_str w)]\<rparr>,
        after_failure m i dto (local_entity p code) ''INR'' (Some (uuid_str w)) d)"
    and "status_code a = 200" and "obj_get (content a) ''recovery_case_id'' = JStr (uuid_str (draw d 2))"
    and "db_ok (after_failure m i dto (local_entity p code) ''INR'' (Some (uuid_str w)) d)"
proof -
  let ?v = "local_webhook_payload i ''payment.failed'' p code"
  have post: "post = signed_post env dumps s ?v" using post by (simp add: send_local_webhook_def arg_def)
  obtain dto where dto: "parse_razorpay_webhook env (dumps ?v) = Inr dto" "rw_event dto = ''payment.failed''"
    "rw_id dto = Some i" "extract_payment_entity env dto = Inr (local_entity p code)"
    by (rule local_payload_parsed [OF lib(1)])
  have body: "post_body post = dumps ?v" "post_merchant post = s" by (simp_all add: post signed_post_def Let_def)
  have id: "extract_provider_event_id env dto (post_body post) = i" using dto(3) i(1) by (simp add: extract_provider_event_id_def)
  have ent: "storable_entity (local_entity p code)"
    using p code by (simp add: storable_entity_def local_entity_def opt_varchar_ok_def varchar_ok_def bigint_ok_def)
  have run: "razorpay_webhook env (\<lambda>d. d) m (post_body post) (Some (post_signature post)) (Some (uuid_str w)) d =
    (Inr \<lparr>status_code = 200, content = [(''status'', JStr ''accepted''), (''outcome'', JStr ''recovery_case_created''),
        (''recovery_case_id'', JStr (uuid_str (draw d 2)))]\<rparr>,
     after_failure m i dto (local_entity p code) ''INR'' (Some (uuid_str w)) d)"
    using failed_payment_stored [OF ok _ _ dto(2,4) ent _ _ mer _ fresh _ _, where body = "post_body post" and cur = "''INR''"
        and sig = "Some (post_signature post)" and rid = "Some (uuid_str w)", unfolded id]
      signed_post_verified [OF lib, of s] dto(1) body new i(2) INR_normal
    by (simp add: post [symmetric] first_event_def unknown_to_def local_entity_def opt_varchar_ok_def varchar_ok_def)
  have after: "db_ok (after_failure m i dto (local_entity p code) ''INR'' (Some (uuid_str w)) d)"
    using razorpay_webhook_step [OF ok, of "\<lambda>d. d" env m "post_body post" "Some (post_signature post)" "Some (uuid_str w)"]
      run ok db_step_ok by simp
  have "serve_webhook route env w post d = Some (fst (webhook_request env (\<lambda>d. d) w m (post_body post) (Some (post_signature post)) None d))"
    using route by (simp add: serve_webhook_def body)
  then show ?thesis unfolding fst_request [OF run] by (rule that [OF _ _ _ after]) simp_all
qed

lemma success_webhook_served:
  assumes lib: "libraries_ok env dumps (success_payload i p amount s (uuid_str (rc_id c)))" "razorpay_webhook_secret (web_settings env) \<noteq> []"
    and ok: "db_ok d" and mer: "get_merchant d m = Some mer" "m_is_active mer" and fresh: "fresh_capture_rows (rc_id c) d"
    and c: "get_case d (rc_id c) = Some c" "rc_merchant_id c = m" "\<not> is_terminal (rc_status c)"
      "integer_ok (rc_version c + 1)" "0 < rc_version c + 1"
    and i: "i \<noteq> []" "length i \<le> 128" and p: "length p \<le> 128" and a: "0 \<le> amount" "bigint_ok amount" "parse_int t = Some amount"
    and new: "unknown_to m i p d" and route: "route s = Some m"
    and post: "send_recovery_success_webhook env dumps parse_int u v [prog, s, uuid_str (rc_id c), t, i, p] = Inr (Some post)"
  obtains dto ans where "serve_webhook route env w post d =
      Some (Inr \<lparr>response_answer = ans, response_headers = [(''X-Request-ID'', uuid_str w)]\<rparr>,
        after_capture m i dto (success_entity p amount s (uuid_str (rc_id c))) ''INR'' (Some (uuid_str w)) c d)"
    and "status_code ans = 200"
proof -
  let ?v = "success_payload i p amount s (uuid_str (rc_id c))"
  let ?e = "success_entity p amount s (uuid_str (rc_id c))"
  have post: "post = signed_post env dumps s ?v" using post a(3) by (simp add: send_recovery_success_webhook_def arg_def)
  obtain dto where dto: "parse_razorpay_webhook env (dumps ?v) = Inr dto" "rw_event dto = ''payment.captured''"
    "rw_id dto = Some i" "extract_payment_entity env dto = Inr ?e"
    by (rule success_payload_parsed [OF lib(1) a(1)])
  have body: "post_body post = dumps ?v" "post_merchant post = s" by (simp_all add: post signed_post_def Let_def)
  have id: "extract_provider_event_id env dto (post_body post) = i" using dto(3) i(1) by (simp add: extract_provider_event_id_def)
  have ent: "storable_entity ?e" using p a by (simp add: storable_entity_def success_entity_def opt_varchar_ok_def)
  have "uuid_str (rc_id c) \<noteq> []" using length_uuid_str [of "rc_id c"] by force
  then have nc: "noted_case m ?e d = Some c" using c(1,2) by (simp add: noted_case_def success_entity_def Let_def)
  have run: "razorpay_webhook env (\<lambda>d. d) m (post_body post) (Some (post_signature post)) (Some (uuid_str w)) d =
    (Inr \<lparr>status_code = 200, content = [(''status'', JStr ''accepted''), (''outcome'', JStr ''recovery_case_recovered''),
        (''recovery_case_id'', JStr (uuid_str (rc_id c)))]\<rparr>,
     after_capture m i dto ?e ''INR'' (Some (uuid_str w)) c d)"
    using captured_payment_stored [OF ok _ _ dto(2,4) ent _ _ mer nc c(3-5) _ fresh _ _, where body = "post_body post" and cur = "''INR''"
        and sig = "Some (post_signature post)" and rid = "Some (uuid_str w)", unfolded id]
      signed_post_verified [OF lib, of s] dto(1) body new i(2) INR_normal
    by (simp add: post [symmetric] first_event_def unknown_to_def success_entity_def opt_varchar_ok_def varchar_ok_def)
  have "serve_webhook route env w post d = Some (fst (webhook_request env (\<lambda>d. d) w m (post_body post) (Some (post_signature post)) None d))"
    using route by (simp add: serve_webhook_def body)
  then show ?thesis unfolding fst_request [OF run] by (rule that) simp
qed

text \<open>
  C37: the scripts play a recovery from end to end. Sent to an active merchant of a database that
  knows neither their events nor their payments, the failure of \<^verbatim>\<open>send_local_webhook.py\<close> is answered
  with status 200 and opens an \<open>ELIGIBLE\<close> case of the merchant over 7999 minor units, and the success
  \<^verbatim>\<open>send_recovery_success_webhook.py\<close> then reports for this case is answered with status 200 and leaves
  it \<open>RECOVERED\<close>.
\<close>

theorem scripted_recovery:
  assumes lib: "libraries_ok env dumps (local_webhook_payload i ''payment.failed'' p code)"
      "libraries_ok env dumps (success_payload i' p' amount s (uuid_str (draw d 2)))" "razorpay_webhook_secret (web_settings env) \<noteq> []"
    and ok: "db_ok d" and mer: "get_merchant d m = Some mer" "m_is_active mer" and fresh: "fresh_draws d"
    and i: "i \<noteq> []" "length i \<le> 128" "i' \<noteq> []" "length i' \<le> 128" "i' \<noteq> i"
    and p: "length p \<le> 128" "length p' \<le> 128" "p' \<noteq> p" and code: "length code \<le> 128"
    and a: "0 \<le> amount" "bigint_ok amount" "parse_int t = Some amount"
    and new: "unknown_to m i p d" "unknown_to m i' p' d" and route: "route s = Some m"
    and first: "send_local_webhook env dumps u v [prog, s, ''payment.failed'', p, i, code] = Some post"
    and second: "send_recovery_success_webhook env dumps parse_int u' v' [prog', s, uuid_str (draw d 2), t, i', p'] = Inr (Some post')"
  shows "\<exists>r d1 c r' d2 c'. serve_webhook route env w post d = Some (Inr r, d1)
    \<and> status_code (response_answer r) = 200
    \<and> obj_get (content (response_answer r)) ''recovery_case_id'' = JStr (uuid_str (draw d 2))
    \<and> get_case d1 (draw d 2) = Some c \<and> rc_status c = ELIGIBLE \<and> rc_merchant_id c = m \<and> rc_amount_minor c = 7999
    \<and> rc_failure_category c = Some (classify_failure (Some code))
    \<and> serve_webhook route env w' post' d1 = Some (Inr r', d2)
    \<and> status_code (response_answer r') = 200
    \<and> get_case d2 (draw d 2) = Some c' \<and> rc_status c' = RECOVERED"
proof -
  let ?e = "local_entity p code"
  have fr: "fresh_rows d" using fresh by (simp add: fresh_draws_def)
  obtain dto ans where one: "serve_webhook route env w post d =
      Some (Inr \<lparr>response_answer = ans, response_headers = [(''X-Request-ID'', uuid_str w)]\<rparr>,
        after_failure m i dto ?e ''INR'' (Some (uuid_str w)) d)"
    and ans: "status_code ans = 200" "obj_get (content ans) ''recovery_case_id'' = JStr (uuid_str (draw d 2))"
    and ok1: "db_ok (after_failure m i dto ?e ''INR'' (Some (uuid_str w)) d)"
    by (rule local_webhook_served [where route = route and s = s, OF lib(1,3) ok mer fr i(1,2) p(1) code new(1) route first])
  define d1 where "d1 = after_failure m i dto ?e ''INR'' (Some (uuid_str w)) d"
  define c where "c = opened_case (draw d 2) m (new_failed_payment (draw d 1) m ?e 7999 ''INR'' (clock d)) (Some code) (clock d)"
  have c: "rc_id c = draw d 2" "rc_status c = ELIGIBLE" "rc_merchant_id c = m" "rc_amount_minor c = 7999" "rc_version c = 2"
    "rc_failure_category c = Some (classify_failure (Some code))"
    by (simp_all add: c_def opened_case_def new_failed_case_def new_failed_payment_def)
  have gc: "get_case d1 (draw d 2) = Some c"
    using fr c(1) by (simp add: d1_def after_failure_def Let_def get_defs get_row_append fresh_rows_def c_def local_entity_def)
  have frame: "webhook_events d1 = webhook_events d @ [(new_webhook_row (draw d 0) m i dto (clock d))\<lparr>wh_status := W_PROCESSED, wh_processed_at := Some (clock d)\<rparr>]"
    "payments d1 = payments d @ [new_failed_payment (draw d 1) m ?e 7999 ''INR'' (clock d)]" "merchants d1 = merchants d"
    "map au_id (audit_events d1) = map au_id (audit_events d) @ [draw d 3]"
    "map ob_id (outbox_events d1) = map ob_id (outbox_events d) @ [draw d 4]"
    "map ob_idempotency_key (outbox_events d1) = map ob_idempotency_key (outbox_events d) @ [eligible_key (draw d 2)]"
    by (simp_all add: d1_def after_failure_def Let_def eligible_audit_def eligible_event_def new_outbox_event_def
        opened_case_def new_failed_case_def local_entity_def)
  have dr: "draw d1 0 = draw d 5" "draw d1 1 = draw d 6" "draw d1 2 = draw d 7" "draw d1 3 = draw d 8"
    by (simp_all add: draw_def d1_def after_failure_def Let_def add.commute)
  have up: "[0..<9] = [0, 1, 2, 3, 4, 5, 6, 7, 8]" by code_simp
  have ne: "draw d 5 \<noteq> draw d 0" "draw d 6 \<noteq> draw d 1" "draw d 7 \<noteq> draw d 3" "draw d 8 \<noteq> draw d 4"
    using fresh by (auto simp: fresh_draws_def up)
  have "recovered_key (draw d 2) \<notin> set (map ob_idempotency_key (outbox_events d1))"
    unfolding frame using fresh by (auto simp: fresh_draws_def list_ex_iff recovered_key_def eligible_key_def)
  then have "\<not> list_ex (\<lambda>b. ob_idempotency_key b = recovered_key (draw d 2)) (outbox_events d1)" by (force simp: list_ex_iff)
  then have fc: "fresh_capture_rows (rc_id c) d1"
    using fresh ne frame unfolding fresh_capture_rows_def dr c(1) fresh_draws_def get_defs get_row_None_iff
    by (auto simp: new_webhook_row_def new_failed_payment_def set_map [symmetric] simp del: set_map)
  have un: "unknown_to m i' p' d1"
    using new(2) i(5) p(3) by (auto simp: unknown_to_def frame new_webhook_row_def new_failed_payment_def local_entity_def)
  have gm: "get_merchant d1 m = Some mer" using mer(1) by (simp add: get_defs frame)
  obtain dto' ans' where two: "serve_webhook route env w' post' d1 =
      Some (Inr \<lparr>response_answer = ans', response_headers = [(''X-Request-ID'', uuid_str w')]\<rparr>,
        after_capture m i' dto' (success_entity p' amount s (uuid_str (rc_id c))) ''INR'' (Some (uuid_str w')) c d1)"
    and ans': "status_code ans' = 200"
    using success_webhook_served [where route = route and s = s and parse_int = parse_int and t = t and c = c and w = w', OF _ lib(3) ok1 [folded d1_def] gm mer(2) fc]
      gc c i p a un route second lib(2) by (simp add: is_terminal_iff integer_ok_def) metis
  have "get_case (after_capture m i' dto' (success_entity p' amount s (uuid_str (rc_id c))) ''INR'' (Some (uuid_str w')) c d1) (draw d 2)
      = Some (c\<lparr>rc_status := RECOVERED, rc_version := 3, rc_updated_at := clock d1\<rparr>)"
    using gc c by (simp add: after_capture_def with_recovery_def Let_def get_defs get_row_upd_where)
  then show ?thesis using one [folded d1_def] ans gc c(2-6) two ans' by fastforce
qed

end
