(* ===== verification/Seed.thy ===== *)
theory Seed
  imports Dashboard Recovery_Actions Webhook_Outcomes
begin

text \<open>
  The scripts that fill a database by hand: \<^verbatim>\<open>src/scripts/create_dev_merchant.py\<close> and
  \<^verbatim>\<open>src/scripts/seed_demo_data.py\<close>. Each runs in one transaction. The rows the seed adds without an
  own flush (the action and the audit entry) are written with the next one; here they are inserted
  where they are added, which only the order of the drawn identifiers could tell.
\<close>

subsection \<open>Merchants\<close>

definition new_merchant :: "uuid \<Rightarrow> string \<Rightarrow> int \<Rightarrow> merchant" where
  "new_merchant u name t = \<lparr>m_id = u, m_name = name, m_is_active = True, m_created_at = t, m_updated_at = t\<rparr>"

definition insert_merchant :: "merchant \<Rightarrow> db \<Rightarrow> db res" where
  "insert_merchant m d =
     (if \<not> varchar_ok 255 (m_name m) then Inl DataError
      else if get_merchant d (m_id m) \<noteq> None then Inl IntegrityError
      else Inr (d\<lparr>merchants := merchants d @ [m]\<rparr>))"

definition add_merchant :: "string \<Rightarrow> db \<Rightarrow> (uuid \<times> db) res" where
  "add_merchant name d =
     (let (u, d1) = new_uuid d
      in res_bind (insert_merchant (new_merchant u name (clock d1)) d1) (\<lambda>d2. Inr (u, d2)))"

definition create_dev_merchant :: "db \<Rightarrow> uuid res \<times> db" where
  "create_dev_merchant d = in_transaction (add_merchant ''Dev Merchant'') d"

subsection \<open>The demo rows\<close>

definition CATEGORIES :: "string list" where
  "CATEGORIES = [''expired_instrument'', ''insufficient_funds'', ''temporary_network'', ''issuer_failure'', ''unknown'']"

definition seed_plan :: "(recovery_case_status \<times> nat) list" where
  "seed_plan = [(RECOVERED, 12), (WAITING, 8), (ACTION_SCHEDULED, 5), (STOPPED, 6), (ESCALATED, 4)]"

text \<open>The counter \<open>idx\<close> of the two nested loops with the status of its case.\<close>

definition seed_items :: "(nat \<times> recovery_case_status) list" where
  "seed_items =
     (let statuses = concat (map (\<lambda>(status, count). replicate count status) seed_plan)
      in zip [1..<Suc (length statuses)] statuses)"

definition seed_category :: "nat \<Rightarrow> string" where
  "seed_category idx = CATEGORIES ! (idx mod length CATEGORIES)"

definition seed_amount :: "nat \<Rightarrow> int" where
  "seed_amount idx = 50000 + (int idx * 7919) mod 450000"

text \<open>\<open>f"{idx:04d}"\<close>\<close>

definition pad4 :: "nat \<Rightarrow> string" where
  "pad4 idx = (let s = show_nat idx in replicate (4 - length s) (CHR ''0'') @ s)"

definition seed_payment :: "uuid \<Rightarrow> uuid \<Rightarrow> nat \<Rightarrow> recovery_case_status \<Rightarrow> int \<Rightarrow> payment" where
  "seed_payment u m idx status t =
     \<lparr>pay_id = u, pay_merchant_id = m, pay_provider = ''razorpay'', pay_provider_payment_id = ''pay_demo_'' @ pad4 idx,
      pay_status = (if status = RECOVERED then P_CAPTURED else P_FAILED), pay_amount_minor = seed_amount idx,
      pay_currency = ''INR'', pay_failure_code = Some (seed_category idx), pay_failure_reason = None,
      pay_failed_at = Some (t - int idx * 3600000000), pay_captured_at = None, pay_created_at = t, pay_updated_at = t\<rparr>"

definition seed_case :: "uuid \<Rightarrow> uuid \<Rightarrow> payment \<Rightarrow> nat \<Rightarrow> recovery_case_status \<Rightarrow> int \<Rightarrow> recovery_case" where
  "seed_case u m p idx status t =
     \<lparr>rc_id = u, rc_merchant_id = m, rc_payment_id = pay_id p, rc_status = status, rc_amount_minor = seed_amount idx,
      rc_currency = ''INR'', rc_failure_category = Some (seed_category idx),
      rc_next_action_at = (if status = WAITING then Some (t + 24 * 3600000000) else None), rc_version = 3,
      rc_created_at = t, rc_updated_at = t\<rparr>"

definition seed_action_type :: "string \<Rightarrow> recovery_action_type" where
  "seed_action_type category =
     (if category = ''expired_instrument'' then CREATE_PAYMENT_LINK
      else if category = ''temporary_network'' then SEND_REMINDER
      else if category = ''insufficient_funds'' then WAIT
      else if category = ''issuer_failure'' then ESCALATE
      else STOP)"

definition seed_action_status :: "recovery_case_status \<Rightarrow> recovery_action_status" where
  "seed_action_status status =
     (if status \<in> {RECOVERED, WAITING} then A_EXECUTED
      else if status = STOPPED then A_CANCELLED
      else A_APPROVED)"

definition seed_action :: "uuid \<Rightarrow> uuid \<Rightarrow> recovery_case \<Rightarrow> nat \<Rightarrow> recovery_case_status \<Rightarrow> int \<Rightarrow> recovery_action" where
  "seed_action u m c idx status t =
     (let action_type = seed_action_type (seed_category idx); action_status = seed_action_status status
      in \<lparr>ra_id = u, ra_merchant_id = m, ra_recovery_case_id = rc_id c, ra_action_type = action_type,
          ra_status = action_status,
          ra_idempotency_key = ''recovery_action:'' @ uuid_str (rc_id c) @ '':''
             @ recovery_action_type_value action_type @ '':1'',
          ra_attempt_number = 1,
          ra_provider_reference =
            (if action_type = CREATE_PAYMENT_LINK then Some (''https://rzp.io/l/demo_'' @ pad4 idx) else None),
          ra_scheduled_at = None,
          ra_executed_at = (if action_status = A_EXECUTED then Some (t - 30 * 60000000) else None),
          ra_failure_reason = None, ra_created_at = t, ra_updated_at = t\<rparr>)"

definition seed_audit :: "uuid \<Rightarrow> uuid \<Rightarrow> recovery_case \<Rightarrow> nat \<Rightarrow> recovery_case_status \<Rightarrow> int \<Rightarrow> audit_event" where
  "seed_audit u m c idx status t =
     (let action = JStr (recovery_action_type_value (seed_action_type (seed_category idx)))
      in \<lparr>au_id = u, au_merchant_id = m, au_entity_type = ''recovery_case'', au_entity_id = uuid_str (rc_id c),
          au_event_type = ''recovery_case.decision'', au_actor = ''policy_agent_worker'', au_correlation_id = None,
          au_payload =
            [(''engine_action'', action), (''deterministic_action'', action), (''agent_action'', action),
             (''agent_source'', JStr (if idx mod 3 = 0 then ''llm'' else ''deterministic_fallback'')),
             (''agent_reason'', JStr (if idx mod 3 = 0 then ''Mock LLM selected engine candidate.'' else ''llm_disabled'')),
             (''final_action'', action), (''final_policy_approved'', JBool True),
             (''final_policy_reason'', JStr ''policy_approved''),
             (''final_status'', JStr (recovery_case_status_value status))],
          au_created_at = t\<rparr>)"

definition seed_row :: "uuid \<Rightarrow> nat \<times> recovery_case_status \<Rightarrow> db \<Rightarrow> db res" where
  "seed_row m item d =
     (let (idx, status) = item; (u, d1) = new_uuid d; p = seed_payment u m idx status (clock d) in
      res_bind (insert_payment p d1) (\<lambda>d2.
      let (u2, d3) = new_uuid d2; c = seed_case u2 m p idx status (clock d) in
      res_bind (insert_case c d3) (\<lambda>d4.
      let (u3, d5) = new_uuid d4 in
      res_bind (insert_action (seed_action u3 m c idx status (clock d)) d5) (\<lambda>d6.
      let (u4, d7) = new_uuid d6 in
      insert_audit_row (seed_audit u4 m c idx status (clock d)) d7))))"

fun seed_rows :: "uuid \<Rightarrow> (nat \<times> recovery_case_status) list \<Rightarrow> db \<Rightarrow> db res" where
  "seed_rows m [] d = Inr d"
| "seed_rows m (x # xs) d = res_bind (seed_row m x d) (seed_rows m xs)"

datatype seeded = Already_exists uuid | Seeded uuid

definition seed_body :: "db \<Rightarrow> (seeded \<times> db) res" where
  "seed_body d =
     res_bind (one_or_none (filter (\<lambda>m. m_name m = ''Demo Merchant'') (merchants d))) (\<lambda>existing.
       case existing of
         Some m \<Rightarrow> Inr (Already_exists (m_id m), d)
       | None \<Rightarrow>
           res_bind (add_merchant ''Demo Merchant'' d) (\<lambda>(m, d1).
           res_bind (seed_rows m seed_items d1) (\<lambda>d2. Inr (Seeded m, d2))))"

definition seed_demo_data :: "db \<Rightarrow> seeded res \<times> db" where
  "seed_demo_data d = in_transaction seed_body d"

subsection \<open>What a seeded row is\<close>

lemma insert_merchant_ok:
  assumes "db_ok d" and "insert_merchant m d = Inr d'"
  shows "db_ok d'" and "d' = d\<lparr>merchants := merchants d @ [m]\<rparr>"
proof -
  from assms(2) show d': "d' = d\<lparr>merchants := merchants d @ [m]\<rparr>" by (auto simp: insert_merchant_def split: if_splits)
  have "m_id m \<notin> m_id ` set (merchants d)"
    using assms(2) by (auto simp: insert_merchant_def get_defs get_row_None_iff split: if_splits)
  then show "db_ok d'" using assms(1) unfolding d' db_ok_def table_ok_defs by simp
qed

lemma seed_row_Inr:
  assumes "seed_row m (idx, status) d = Inr d'"
  obtains p c a e where "payments d' = payments d @ [p]" "recovery_cases d' = recovery_cases d @ [c]"
    "recovery_actions d' = recovery_actions d @ [a]" "audit_events d' = audit_events d @ [e]"
    "merchants d' = merchants d" "clock d' = clock d" "outbox_events d' = outbox_events d"
    "webhook_events d' = webhook_events d" "merchant_policies d' = merchant_policies d"
    "pay_merchant_id p = m" "rc_merchant_id c = m" "ra_merchant_id a = m" "au_merchant_id e = m"
    "rc_status c = status" "rc_amount_minor c = seed_amount idx" "rc_created_at c = clock d" "rc_updated_at c = clock d"
    "db_step d d'"
proof -
  define p where "p = seed_payment (fst (new_uuid d)) m idx status (clock d)"
  from assms obtain d2 where i: "insert_payment p (snd (new_uuid d)) = Inr d2"
    and r: "(let (u2, d3) = new_uuid d2; c = seed_case u2 m p idx status (clock d) in
      res_bind (insert_case c d3) (\<lambda>d4.
      let (u3, d5) = new_uuid d4 in
      res_bind (insert_action (seed_action u3 m c idx status (clock d)) d5) (\<lambda>d6.
      let (u4, d7) = new_uuid d6 in
      insert_audit_row (seed_audit u4 m c idx status (clock d)) d7))) = Inr d'"
    by (auto simp: seed_row_def case_prod_beta Let_def p_def)
  define c where "c = seed_case (fst (new_uuid d2)) m p idx status (clock d)"
  from r obtain d4 where ic: "insert_case c (snd (new_uuid d2)) = Inr d4"
    and r: "(let (u3, d5) = new_uuid d4 in
      res_bind (insert_action (seed_action u3 m c idx status (clock d)) d5) (\<lambda>d6.
      let (u4, d7) = new_uuid d6 in
      insert_audit_row (seed_audit u4 m c idx status (clock d)) d7)) = Inr d'"
    by (auto simp: case_prod_beta Let_def c_def)
  define a where "a = seed_action (fst (new_uuid d4)) m c idx status (clock d)"
  from r obtain d6 where ia: "insert_action a (snd (new_uuid d4)) = Inr d6"
    and r: "(let (u4, d7) = new_uuid d6 in insert_audit_row (seed_audit u4 m c idx status (clock d)) d7) = Inr d'"
    by (auto simp: case_prod_beta Let_def a_def)
  define e where "e = seed_audit (fst (new_uuid d6)) m c idx status (clock d)"
  have ie: "insert_audit_row e (snd (new_uuid d6)) = Inr d'" using r by (simp add: case_prod_beta Let_def e_def)
  have a: "ra_merchant_id a = m" "ra_recovery_case_id a = rc_id c" and e: "au_merchant_id e = m"
    by (simp_all add: a_def seed_action_def e_def seed_audit_def Let_def)
  have mp: "pay_merchant_id p = m" by (simp add: p_def seed_payment_def)
  have mc: "rc_merchant_id c = m" "rc_payment_id c = pay_id p" by (simp_all add: c_def seed_case_def)
  have "db_step d d2" using db_step_trans [OF new_uuid_step insert_payment_step [OF i]] .
  moreover have "get_payment (snd (new_uuid d2)) (rc_payment_id c) = Some p"
    using payment_table.get_added [OF i] mc(2) by (simp add: new_uuid_def get_defs)
  then have "db_step d2 d4" using db_step_trans [OF new_uuid_step insert_case_step [OF ic, of p]] mp mc(1) by simp
  moreover have "get_case (snd (new_uuid d4)) (ra_recovery_case_id a) = Some c"
    using case_table.get_added [OF ic] a(2) by (simp add: new_uuid_def get_defs)
  then have "db_step d4 d6" using db_step_trans [OF new_uuid_step insert_action_step [OF ia, of c]] a(1) mc(1) by simp
  moreover have "db_step d6 d'" using db_step_trans [OF new_uuid_step insert_audit_row_step [OF ie]] .
  ultimately have "db_step d d'" using db_step_trans by blast
  with insert_Inr(1) [OF i] insert_Inr(2) [OF ic] insert_Inr(3) [OF ia] insert_Inr(7) [OF ie] mp mc(1) a(1) e
  show ?thesis
    by (intro that [of p c a e]) (simp_all add: new_uuid_def c_def seed_case_def)
qed

subsection \<open>What the seed leaves\<close>

definition case_figures :: "recovery_case \<Rightarrow> recovery_case_status \<times> int" where
  "case_figures c = (rc_status c, rc_amount_minor c)"

lemma seed_rows_Inr:
  assumes "seed_rows m xs d = Inr d'"
  shows "\<exists>cs as. recovery_cases d' = recovery_cases d @ cs \<and> recovery_actions d' = recovery_actions d @ as
    \<and> map case_figures cs = map (\<lambda>(i, s). (s, seed_amount i)) xs
    \<and> list_all (\<lambda>c. rc_merchant_id c = m \<and> rc_updated_at c = rc_created_at c) cs
    \<and> list_all (\<lambda>a. ra_merchant_id a = m) as \<and> length as = length xs
    \<and> merchants d' = merchants d \<and> same_others m d d' \<and> db_step d d'"
  using assms
proof (induction xs arbitrary: d)
  case Nil
  then show ?case by simp
next
  case (Cons x xs)
  obtain i s where x: "x = (i, s)" by (cases x)
  from Cons.prems obtain d1 where r: "seed_row m (i, s) d = Inr d1" and rs: "seed_rows m xs d1 = Inr d'" by (auto simp: x)
  from seed_row_Inr [OF r] obtain p c a e where row: "payments d1 = payments d @ [p]" "recovery_cases d1 = recovery_cases d @ [c]"
    "recovery_actions d1 = recovery_actions d @ [a]" "audit_events d1 = audit_events d @ [e]"
    "merchants d1 = merchants d" "outbox_events d1 = outbox_events d"
    "webhook_events d1 = webhook_events d" "merchant_policies d1 = merchant_policies d"
    "pay_merchant_id p = m" "rc_merchant_id c = m" "ra_merchant_id a = m" "au_merchant_id e = m"
    "rc_status c = s" "rc_amount_minor c = seed_amount i" "rc_updated_at c = rc_created_at c" "db_step d d1" by metis
  have so: "same_others m d d1" using row by (simp add: same_others_def)
  from Cons.IH [OF rs] obtain cs as where ih: "recovery_cases d' = recovery_cases d1 @ cs" "recovery_actions d' = recovery_actions d1 @ as"
    "map case_figures cs = map (\<lambda>(i, s). (s, seed_amount i)) xs"
    "list_all (\<lambda>c. rc_merchant_id c = m \<and> rc_updated_at c = rc_created_at c) cs"
    "list_all (\<lambda>a. ra_merchant_id a = m) as" "length as = length xs" "merchants d' = merchants d1" "same_others m d1 d'" "db_step d1 d'"
    by blast
  have "same_others m d d'" "db_step d d'"
    using same_others_trans [OF so ih(8)] db_step_trans [OF row(16) ih(9)] by simp_all
  with row ih show ?case
    by (intro exI [of _ "c # cs"] exI [of _ "a # as"]) (simp add: case_figures_def [of c] x)
qed

text \<open>The figures of the seeded cases.\<close>

lemma seed_figures:
  "length seed_items = 35"
  "sum_list (map (\<lambda>(i, s). seed_amount i) seed_items) = 6738970"
  "map (\<lambda>s. length (filter (\<lambda>x. snd x = s) seed_items)) [RECOVERED, STOPPED, ESCALATED] = [12, 6, 4]"
  "sum_list (map (\<lambda>(i, s). seed_amount i) (filter (\<lambda>x. snd x = RECOVERED) seed_items)) = 1217682"
  by code_simp+

text \<open>No row refers to a merchant that is not there.\<close>

lemma no_rows_of_unknown:
  assumes "db_ok d" and "m \<notin> m_id ` set (merchants d)"
  shows "filter (\<lambda>c. rc_merchant_id c = m) (recovery_cases d) = []"
    and "filter (\<lambda>a. ra_merchant_id a = m) (recovery_actions d) = []"
  using assms by (auto simp: db_ok_def table_ok_defs filter_empty_conv)

lemma figures_of:
  assumes "map case_figures cs = map (\<lambda>(i, s). (s, seed_amount i)) xs"
  shows "length cs = length xs" and "length (filter (\<lambda>c. rc_status c = s) cs) = length (filter (\<lambda>x. snd x = s) xs)"
    and "sum_list (map rc_amount_minor cs) = sum_list (map (\<lambda>(i, s). seed_amount i) xs)"
    and "sum_list (map rc_amount_minor (filter (\<lambda>c. rc_status c = s) cs))
      = sum_list (map (\<lambda>(i, s). seed_amount i) (filter (\<lambda>x. snd x = s) xs))"
  using assms by (induction cs arbitrary: xs) (auto simp: case_figures_def Cons_eq_map_conv)

lemma seed_body_Inr:
  assumes "seed_body d = Inr (Seeded m, d')"
  obtains d1 where "filter (\<lambda>m. m_name m = ''Demo Merchant'') (merchants d) = []"
    and "insert_merchant (new_merchant m ''Demo Merchant'' (clock d)) (snd (new_uuid d)) = Inr d1"
    and "seed_rows m seed_items d1 = Inr d'"
  using assms that
  by (auto simp: seed_body_def add_merchant_def new_uuid_def one_or_none_None Let_def split: option.splits)

subsection \<open>The seed succeeds\<close>

lemma seed_widths:
  assumes "(idx, status) \<in> set seed_items"
  shows "length (seed_category idx) \<le> 128" and "length (pad4 idx) \<le> 4"
proof -
  have "list_all (\<lambda>x. length (seed_category (fst x)) \<le> 128 \<and> length (pad4 (fst x)) \<le> 4) seed_items" by code_simp
  with assms show "length (seed_category idx) \<le> 128" and "length (pad4 idx) \<le> 4" by (auto simp: list_all_iff)
qed

lemma seed_amount_ok: "0 \<le> seed_amount idx" "bigint_ok (seed_amount idx)"
proof -
  have "0 \<le> (int idx * 7919) mod 450000" "(int idx * 7919) mod 450000 < 450000" by simp_all
  then show "0 \<le> seed_amount idx" "bigint_ok (seed_amount idx)" by (simp_all add: seed_amount_def bigint_ok_def)
qed

lemma seed_action_canonical: "canonical_key (seed_action u m c idx status t)"
  by (simp add: canonical_key_def recovery_action_idempotency_key_def seed_action_def Let_def show_int_def show_nat.simps digit_char_def)

lemma seed_action_row_ok:
  assumes "(idx, status) \<in> set seed_items"
  shows "action_row_check (seed_action u m c idx status t) = Inr ()"
proof -
  have "length (recovery_action_type_value x) \<le> 73" for x by (cases x) simp_all
  then have "length (ra_idempotency_key (seed_action u m c idx status t)) \<le> 128" by (simp add: seed_action_def Let_def)
  moreover have "opt_varchar_ok 128 (ra_provider_reference (seed_action u m c idx status t))"
    using seed_widths(2) [OF assms] by (simp add: seed_action_def Let_def opt_varchar_ok_def varchar_ok_def)
  ultimately show ?thesis
    by (simp add: action_row_check_def varchar_ok_def integer_ok_def seed_action_def Let_def opt_varchar_ok_def)
qed

text \<open>The key and the attempt of an action for a case without actions are unused.\<close>

lemma action_key_unused:
  assumes "canonical_keys d" and "canonical_key a" and "ra_recovery_case_id a \<notin> ra_recovery_case_id ` set (recovery_actions d)"
  shows "\<not> list_ex (\<lambda>q. ra_idempotency_key q = ra_idempotency_key a
      \<or> ra_recovery_case_id q = ra_recovery_case_id a \<and> ra_action_type q = ra_action_type a
        \<and> ra_attempt_number q = ra_attempt_number a) (recovery_actions d)"
proof -
  have "ra_idempotency_key q \<noteq> ra_idempotency_key a \<and> ra_recovery_case_id q \<noteq> ra_recovery_case_id a" if q: "q \<in> set (recovery_actions d)" for q
  proof -
    have "canonical_key q" using assms(1) q by (simp add: canonical_keys_def list_all_iff)
    moreover have "ra_recovery_case_id q \<noteq> ra_recovery_case_id a" using assms(3) q by (metis imageI)
    ultimately show ?thesis using assms(2) by (auto simp: canonical_key_def idempotency_key_inj)
  qed
  then show ?thesis by (auto simp: list_ex_iff)
qed

lemma INR_ok: "currency_ok ''INR''"
  by code_simp

lemma seed_row_total:
  assumes ok: "db_ok d" and keys: "canonical_keys d" and m: "get_merchant d m \<noteq> None" and fresh: "fresh_from (4 + k) d"
    and idx: "(idx, status) \<in> set seed_items"
    and new: "\<not> list_ex (\<lambda>q. pay_merchant_id q = m \<and> pay_provider_payment_id q = ''pay_demo_'' @ pad4 idx) (payments d)"
  shows "\<exists>d' p. seed_row m (idx, status) d = Inr d' \<and> fresh_from k d' \<and> canonical_keys d' \<and> merchants d' = merchants d
    \<and> payments d' = payments d @ [p] \<and> pay_provider_payment_id p = ''pay_demo_'' @ pad4 idx"
proof -
  let ?t = "clock d"
  define p where "p = seed_payment (draw d 0) m idx status ?t"
  define c where "c = seed_case (draw d 1) m p idx status ?t"
  define a where "a = seed_action (draw d 2) m c idx status ?t"
  define e where "e = seed_audit (draw d 3) m c idx status ?t"
  define d2 where "d2 = d\<lparr>uuid_drawn := uuid_drawn d + 1, payments := payments d @ [p]\<rparr>"
  define d4 where "d4 = d2\<lparr>uuid_drawn := uuid_drawn d + 2, recovery_cases := recovery_cases d @ [c]\<rparr>"
  define d6 where "d6 = d4\<lparr>uuid_drawn := uuid_drawn d + 3, recovery_actions := recovery_actions d @ [a]\<rparr>"
  define d8 where "d8 = d6\<lparr>uuid_drawn := uuid_drawn d + 4, audit_events := audit_events d @ [e]\<rparr>"
  note w = seed_widths [OF idx] seed_amount_ok [of idx]
  have un: "unused d (draw d n)" if "n < 4" for n using fresh that by (simp add: fresh_from_def list_all_iff)
  have ids: "pay_id p = draw d 0" "rc_id c = draw d 1" "ra_id a = draw d 2" "au_id e = draw d 3" "rc_payment_id c = draw d 0"
    "ra_recovery_case_id a = draw d 1"
    by (simp_all add: p_def seed_payment_def c_def seed_case_def a_def seed_action_def e_def seed_audit_def Let_def)
  have np: "\<not> list_ex (\<lambda>q. pay_merchant_id q = m \<and> pay_provider q = ''razorpay''
      \<and> pay_provider_payment_id q = ''pay_demo_'' @ pad4 idx) (payments d)"
    using new by (auto simp: list_ex_iff)
  have i2: "insert_payment p (d\<lparr>uuid_drawn := Suc (uuid_drawn d)\<rparr>) = Inr d2"
    using m un [of 0] np w
    by (simp add: insert_payment_def payment_row_check_def p_def d2_def seed_payment_def unused_def get_defs varchar_ok_def
        opt_varchar_ok_def INR_ok)
  have "draw d 0 \<notin> rc_payment_id ` set (recovery_cases d)"
    using ok un [of 0] by (force simp: unused_def db_ok_def cases_ok_def get_defs get_row_None_iff)
  then have nc: "\<not> list_ex (\<lambda>q. rc_payment_id q = draw d 0) (recovery_cases d)" by (force simp: list_ex_iff)
  have "get_payment d2 (draw d 0) \<noteq> None" using ids(1) by (auto simp: d2_def get_defs get_row_None_iff)
  then have i4: "insert_case c (d2\<lparr>uuid_drawn := Suc (uuid_drawn d2)\<rparr>) = Inr d4"
    using m un [of 1] nc w
    by (simp add: insert_case_def case_row_check_def c_def d2_def d4_def seed_case_def unused_def get_defs varchar_ok_def
        opt_varchar_ok_def INR_ok integer_ok_def p_def seed_payment_def)
  have noact: "draw d 1 \<notin> ra_recovery_case_id ` set (recovery_actions d)"
    using ok un [of 1] by (force simp: unused_def db_ok_def actions_ok_def get_defs get_row_None_iff)
  have ca: "canonical_key a" by (simp add: a_def seed_action_canonical)
  have na: "\<not> list_ex (\<lambda>q. ra_idempotency_key q = ra_idempotency_key a
      \<or> ra_recovery_case_id q = draw d 1 \<and> ra_action_type q = ra_action_type a \<and> ra_attempt_number q = ra_attempt_number a) (recovery_actions d)"
    using action_key_unused [OF keys ca] noact ids(6) by simp
  have chk: "action_row_check a = Inr ()" using seed_action_row_ok [OF idx] by (simp add: a_def)
  have "get_case d4 (draw d 1) \<noteq> None" using ids(2) by (auto simp: d4_def get_defs get_row_None_iff)
  then have i6: "insert_action a (d4\<lparr>uuid_drawn := Suc (uuid_drawn d4)\<rparr>) = Inr d6"
    using m un [of 2] na chk ids
    by (simp add: insert_action_def d2_def d4_def d6_def unused_def get_defs a_def seed_action_def Let_def)
  have i8: "insert_audit_row e (d6\<lparr>uuid_drawn := Suc (uuid_drawn d6)\<rparr>) = Inr d8"
    using m un [of 3]
    by (simp add: insert_audit_row_def audit_row_check_def e_def seed_audit_def Let_def d2_def d4_def d6_def d8_def unused_def get_defs
        varchar_ok_def opt_varchar_ok_def)
  have uu: "new_uuid d = (draw d 0, d\<lparr>uuid_drawn := Suc (uuid_drawn d)\<rparr>)"
    "new_uuid d2 = (draw d 1, d2\<lparr>uuid_drawn := Suc (uuid_drawn d2)\<rparr>)"
    "new_uuid d4 = (draw d 2, d4\<lparr>uuid_drawn := Suc (uuid_drawn d4)\<rparr>)"
    "new_uuid d6 = (draw d 3, d6\<lparr>uuid_drawn := Suc (uuid_drawn d6)\<rparr>)"
    by (simp_all add: new_uuid_def draw_def d2_def d4_def d6_def)
  have "seed_row m (idx, status) d = Inr d8"
    unfolding seed_row_def prod.case uu Let_def p_def [symmetric] using i2 i4 i6 i8
    by (simp add: uu c_def [unfolded One_nat_def, symmetric] a_def [symmetric] e_def [symmetric])
  moreover have "fresh_from k d8"
  proof (rule fresh_from_drop [OF fresh])
    fix n assume u: "unused d (draw d n)" and n: "draw d n \<notin> draw d ` {..<4}"
    have "draw d n \<noteq> draw d 0" "draw d n \<noteq> draw d 1" "draw d n \<noteq> draw d 2" "draw d n \<noteq> draw d 3" using n by auto
    with u ids show "unused d8 (draw d n)" by (simp add: unused_def get_defs d8_def d6_def d4_def d2_def get_row_append)
  qed (simp_all add: d8_def d6_def d4_def d2_def)
  moreover have "canonical_keys d8" using keys ca by (simp add: canonical_keys_def d8_def d6_def d4_def d2_def)
  moreover have "merchants d8 = merchants d" "payments d8 = payments d @ [p]" by (simp_all add: d8_def d6_def d4_def d2_def)
  moreover have "pay_provider_payment_id p = ''pay_demo_'' @ pad4 idx" by (simp add: p_def seed_payment_def)
  ultimately show ?thesis by blast
qed

lemma seed_rows_total:
  assumes "db_ok d" and "canonical_keys d" and "get_merchant d m \<noteq> None" and "fresh_from (4 * length xs + k) d"
    and "set xs \<subseteq> set seed_items" and "distinct (map (\<lambda>x. pad4 (fst x)) xs)"
    and "\<And>x. x \<in> set xs \<Longrightarrow> \<not> list_ex (\<lambda>q. pay_merchant_id q = m \<and> pay_provider_payment_id q = ''pay_demo_'' @ pad4 (fst x)) (payments d)"
  shows "\<exists>d'. seed_rows m xs d = Inr d'"
  using assms
proof (induction xs arbitrary: d)
  case (Cons x xs)
  obtain i s where x: "x = (i, s)" by (cases x)
  have "fresh_from (4 + (4 * length xs + k)) d" using Cons.prems(4) by (simp add: add.assoc)
  moreover have "(i, s) \<in> set seed_items" using Cons.prems(5) by (simp add: x)
  moreover have "\<not> list_ex (\<lambda>q. pay_merchant_id q = m \<and> pay_provider_payment_id q = ''pay_demo_'' @ pad4 i) (payments d)"
    using Cons.prems(7) [of x] unfolding x by simp
  ultimately obtain d1 p
    where d1: "seed_row m (i, s) d = Inr d1" "fresh_from (4 * length xs + k) d1" "canonical_keys d1" "merchants d1 = merchants d"
      "payments d1 = payments d @ [p]" "pay_provider_payment_id p = ''pay_demo_'' @ pad4 i"
    using seed_row_total [OF Cons.prems(1-3)] by blast
  have "db_step d d1" using seed_row_Inr [OF d1(1)] by metis
  then have "db_ok d1" using Cons.prems(1) db_step_ok by blast
  moreover have "get_merchant d1 m \<noteq> None" using Cons.prems(3) by (simp add: get_defs d1(4))
  moreover have "\<not> list_ex (\<lambda>q. pay_merchant_id q = m \<and> pay_provider_payment_id q = ''pay_demo_'' @ pad4 (fst y)) (payments d1)"
    if "y \<in> set xs" for y
    using Cons.prems(7) [of y] Cons.prems(6) that d1(5,6) by (auto simp: x)
  ultimately show ?case using Cons.IH [OF _ d1(3) _ d1(2)] Cons.prems(5,6) d1(1) by (simp add: x)
qed simp

lemma seed_body_total:
  assumes ok: "db_ok d" and keys: "canonical_keys d" and fresh: "fresh_from 141 d"
    and none: "\<not> list_ex (\<lambda>m. m_name m = ''Demo Merchant'') (merchants d)"
  shows "\<exists>d'. seed_body d = Inr (Seeded (draw d 0), d')"
proof -
  let ?m = "new_merchant (draw d 0) ''Demo Merchant'' (clock d)"
  let ?d0 = "d\<lparr>uuid_drawn := Suc (uuid_drawn d)\<rparr>"
  let ?d1 = "?d0\<lparr>merchants := merchants d @ [?m]\<rparr>"
  have un: "unused d (draw d 0)" using fresh by (simp add: fresh_from_def list_all_iff)
  then have im: "insert_merchant ?m ?d0 = Inr ?d1"
    by (simp add: insert_merchant_def new_merchant_def varchar_ok_def unused_def get_defs)
  have "db_step d ?d0" using new_uuid_step [of d] by (simp add: new_uuid_def)
  then have ok1: "db_ok ?d1" using insert_merchant_ok(1) [OF _ im] ok db_step_ok by blast
  have fr: "fresh_from 140 ?d1"
  proof (rule fresh_from_drop [of 1])
    show "fresh_from (1 + 140) d" using fresh by simp
    fix n assume u: "unused d (draw d n)" and "draw d n \<notin> draw d ` {..<1}"
    then have "draw d 0 \<noteq> draw d n" by force
    with u show "unused ?d1 (draw d n)" by (simp add: unused_def get_defs get_row_append new_merchant_def)
  qed simp_all
  have "m \<in> m_id ` set (merchants d)" if "q \<in> set (payments d)" "pay_merchant_id q = m" for q m
    using ok that by (auto simp: db_ok_def payments_ok_def)
  moreover have "draw d 0 \<notin> m_id ` set (merchants d)" using un by (simp add: unused_def get_defs get_row_None_iff)
  ultimately have np: "\<not> list_ex (\<lambda>q. pay_merchant_id q = draw d 0 \<and> pay_provider_payment_id q = x) (payments d)" for x
    unfolding list_ex_iff by blast
  have l: "length seed_items = 35" "distinct (map (\<lambda>x. pad4 (fst x)) seed_items)" by code_simp+
  have gm: "get_merchant ?d1 (draw d 0) \<noteq> None"
    by (simp add: get_defs get_row_append new_merchant_def split: option.splits)
  have "canonical_keys ?d1" using keys by (simp add: canonical_keys_def)
  from seed_rows_total [OF ok1 this gm, of seed_items 0] obtain d' where "seed_rows (draw d 0) seed_items ?d1 = Inr d'"
    using fr np l by auto
  moreover have "one_or_none (filter (\<lambda>m. m_name m = ''Demo Merchant'') (merchants d)) = Inr None"
    using none by (auto simp: one_or_none_None filter_empty_conv list_ex_iff)
  moreover have "new_uuid d = (draw d 0, ?d0)" by (simp add: new_uuid_def draw_def)
  ultimately show ?thesis using im by (simp add: seed_body_def add_merchant_def Let_def)
qed

text \<open>
  The demo data. On every database without a \<^verbatim>\<open>Demo Merchant\<close> the seed succeeds, given fresh
  identifiers. Then the database satisfies its invariant, the rows of every other merchant are as
  they were, and the dashboard shows for the new merchant exactly 35 cases
  over 67389.70, of which 12 over 12176.82 are recovered (34.29 percent), 6 stopped and 4 escalated,
  with 35 actions. Running the script again finds the merchant and changes nothing.
\<close>

theorem seed_demo_data_spec:
  assumes ok: "db_ok d" and keys: "canonical_keys d" and fresh: "fresh_from 141 d"
    and none: "\<not> list_ex (\<lambda>m. m_name m = ''Demo Merchant'') (merchants d)"
  shows "\<exists>m d'. seed_demo_data d = (Inr (Seeded m), d') \<and> db_ok d' \<and> same_others m (d\<lparr>merchants := merchants d'\<rparr>) d'
    \<and> get_merchant_metrics d' m =
        \<lparr>mm_total_cases = 35, mm_recovered_cases = 12, mm_stopped_cases = 6, mm_escalated_cases = 4,
         mm_total_amount_at_risk_minor = 6738970, mm_recovered_amount_minor = 1217682,
         mm_recovery_rate_percent = 3429 / 100, mm_total_actions = 35, mm_avg_time_to_recovery_hours = 0\<rparr>
    \<and> seed_demo_data d' = (Inr (Already_exists m), d')"
proof -
  from seed_body_total [OF ok keys fresh none] obtain m d' where body: "seed_body d = Inr (Seeded m, d')" by blast
  then have run: "seed_demo_data d = (Inr (Seeded m), d')" by (simp add: seed_demo_data_def in_transaction_def)
  from body obtain d1 where none: "filter (\<lambda>m. m_name m = ''Demo Merchant'') (merchants d) = []"
    and im: "insert_merchant (new_merchant m ''Demo Merchant'' (clock d)) (snd (new_uuid d)) = Inr d1"
    and rows: "seed_rows m seed_items d1 = Inr d'" by (rule seed_body_Inr)
  let ?m = "new_merchant m ''Demo Merchant'' (clock d)"
  have "db_ok (snd (new_uuid d))" using ok new_uuid_step db_step_ok by blast
  note im' = insert_merchant_ok [OF this im]
  have fresh: "m \<notin> m_id ` set (merchants d)"
    using im by (auto simp: insert_merchant_def new_merchant_def new_uuid_def get_defs get_row_None_iff split: if_splits)
  from seed_rows_Inr [OF rows] obtain cs as where cs: "recovery_cases d' = recovery_cases d1 @ cs"
    "recovery_actions d' = recovery_actions d1 @ as" "map case_figures cs = map (\<lambda>(i, s). (s, seed_amount i)) seed_items"
    "list_all (\<lambda>c. rc_merchant_id c = m \<and> rc_updated_at c = rc_created_at c) cs"
    "list_all (\<lambda>a. ra_merchant_id a = m) as" "length as = length seed_items" "merchants d' = merchants d1"
    "same_others m d1 d'" "db_step d1 d'" by blast
  have d1: "recovery_cases d1 = recovery_cases d" "recovery_actions d1 = recovery_actions d" "merchants d1 = merchants d @ [?m]"
    unfolding im'(2) by (simp_all add: new_uuid_def)
  have mine: "filter (\<lambda>c. rc_merchant_id c = m) (recovery_cases d') = cs" "filter (\<lambda>a. ra_merchant_id a = m) (recovery_actions d') = as"
    using cs(4,5) no_rows_of_unknown [OF ok fresh] by (auto simp: cs(1,2) d1 list_all_iff)
  note fig = figures_of [OF cs(3)] seed_figures
  have rec: "filter (\<lambda>c. rc_status c = RECOVERED) cs \<noteq> []" using fig(2) [of RECOVERED] fig(7) by auto
  have "sum_list (map (\<lambda>c. rc_updated_at c - rc_created_at c) (filter (\<lambda>c. rc_status c = RECOVERED) cs)) = 0"
    using cs(4) by (induction cs) auto
  then have avg: "avg_recovery_seconds (filter (\<lambda>c. rc_status c = RECOVERED) cs) = Some 0"
    using rec by (simp add: avg_recovery_seconds_def)
  have pr: "py_round 2 (12 / 35 * 100) = 3429 / 100" "py_round 1 (0 / 3600) = 0" by code_simp+
  have "count_where (\<lambda>a. ra_merchant_id a = m) (recovery_actions d') = 35"
    using cs(6) fig(5) by (simp add: count_where_def mine)
  then have "get_merchant_metrics d' m =
        \<lparr>mm_total_cases = 35, mm_recovered_cases = 12, mm_stopped_cases = 6, mm_escalated_cases = 4,
         mm_total_amount_at_risk_minor = 6738970, mm_recovered_amount_minor = 1217682,
         mm_recovery_rate_percent = 3429 / 100, mm_total_actions = 35, mm_avg_time_to_recovery_hours = 0\<rparr>"
    using fig avg pr rec by (auto simp: get_merchant_metrics_def mine Let_def)
  moreover have "seed_demo_data d' = (Inr (Already_exists m), d')"
    using none by (simp add: seed_demo_data_def seed_body_def in_transaction_def cs(7) d1 one_or_none_def new_merchant_def)
  moreover have "same_others m (d\<lparr>merchants := merchants d'\<rparr>) d'"
    using cs(8) unfolding im'(2) by (auto simp: same_others_def new_uuid_def)
  ultimately show ?thesis using db_step_ok [OF cs(9) im'(1)] run by blast
qed

end
