(* ===== verification/Witnesses_Scripts.thy ===== *)
theory Witnesses_Scripts
  imports Demo Local_Webhooks Seed
begin

text \<open>The theorems on the scripts and on the two outcomes they produce, applied to the small database.\<close>

subsection \<open>Webhooks\<close>

text \<open>An environment that knows the failure, the success of the case it opens, and the success of the demo case.\<close>

definition script_failure :: json where
  "script_failure = local_webhook_payload ''evt_f'' ''payment.failed'' ''pay_8'' ''CARD_EXPIRED''"

definition script_success :: "uuid \<Rightarrow> json" where
  "script_success i = success_payload ''evt_s'' ''pay_9'' 7999 (uuid_str 1) (uuid_str i)"

definition script_dumps :: "json \<Rightarrow> string" where
  "script_dumps v = (if v = script_failure then ''f'' else if v = script_success 4 then ''t'' else ''s'')"

definition script_env :: web_env where
  "script_env =
     \<lparr>web_settings = default_settings, hmac_sha256_hex = (\<lambda>k b. ''d1''), sha256_hex = (\<lambda>b. b),
      json_value = (\<lambda>b. if b = ''f'' then Some script_failure else if b = ''t'' then Some (script_success 4)
                        else if b = ''s'' then Some (script_success 102) else None),
      lax_int = (\<lambda>v. case v of JInt i \<Rightarrow> Some i | _ \<Rightarrow> None)\<rparr>"

lemma script_success_neq: "script_success i \<noteq> script_failure" "script_success i = script_success j \<longleftrightarrow> i = j"
  by (simp_all add: script_success_def script_failure_def success_payload_def local_webhook_payload_def Let_def)

lemma script_libraries_ok:
  "libraries_ok script_env script_dumps script_failure" "libraries_ok script_env script_dumps (script_success 4)"
  "libraries_ok script_env script_dumps (script_success 102)"
proof -
  have "is_ascii ''d1''" "py_strip ''d1'' = ''d1''" by code_simp+
  then show "libraries_ok script_env script_dumps script_failure" "libraries_ok script_env script_dumps (script_success 4)"
    "libraries_ok script_env script_dumps (script_success 102)"
    by (simp_all add: libraries_ok_def script_env_def script_dumps_def script_success_neq)
qed

lemma script_dumps_simps:
  "script_dumps script_failure = ''f''" "script_dumps (script_success 4) = ''t''" "script_dumps (script_success 102) = ''s''"
  by (simp_all add: script_dumps_def script_success_neq)

lemma script_signature: "verify_razorpay_signature script_env b (Some ''d1'') = Inr ()"
proof -
  have "is_ascii ''d1''" "py_strip ''d1'' = ''d1''" "razorpay_webhook_secret default_settings \<noteq> []" by code_simp+
  then show ?thesis by (simp add: verify_razorpay_signature_def script_env_def)
qed

theorem failed_payment_opens_case_witness:
  "\<exists>dto. razorpay_webhook script_env (\<lambda>d. d) 1 ''f'' (Some ''d1'') None base_db =
    (Inr \<lparr>status_code = 200, content = [(''status'', JStr ''accepted''), (''outcome'', JStr ''recovery_case_created''),
        (''recovery_case_id'', JStr (uuid_str 102))]\<rparr>,
     after_failure 1 ''evt_f'' dto (local_entity ''pay_8'' ''CARD_EXPIRED'') ''INR'' None base_db)"
proof -
  let ?e = "local_entity ''pay_8'' ''CARD_EXPIRED''"
  obtain dto where dto: "parse_razorpay_webhook script_env ''f'' = Inr dto" "rw_event dto = ''payment.failed''" "rw_id dto = Some ''evt_f''"
    "extract_payment_entity script_env dto = Inr ?e"
    using local_payload_parsed [OF script_libraries_ok(1) [unfolded script_failure_def]]
    by (metis script_dumps_simps(1) script_failure_def)
  have id: "extract_provider_event_id script_env dto ''f'' = ''evt_f''" using dto(3) by (simp add: extract_provider_event_id_def)
  have "storable_entity ?e" "normalize_currency (JStr (ent_currency ?e)) = Inr ''INR''" "currency_ok ''INR''"
    "get_merchant base_db 1 = Some demo_merchant" "m_is_active demo_merchant" "first_event 1 ''evt_f'' ?e base_db" "fresh_rows base_db"
    "opt_varchar_ok 64 None" "draw base_db 2 = 102" by code_simp+
  then show ?thesis
    using failed_payment_opens_case [OF demo_db_ok(1) script_signature dto(1,2,4), of "''INR''" 1 demo_merchant None] by (auto simp: id)
qed

theorem captured_payment_recovers_case_witness:
  "\<exists>dto. razorpay_webhook script_env (\<lambda>d. d) 1 ''t'' (Some ''d1'') None eligible_db =
    (Inr \<lparr>status_code = 200, content = [(''status'', JStr ''accepted''), (''outcome'', JStr ''recovery_case_recovered''),
        (''recovery_case_id'', JStr (uuid_str 4))]\<rparr>,
     after_capture 1 ''evt_s'' dto (success_entity ''pay_9'' 7999 (uuid_str 1) (uuid_str 4)) ''INR'' None demo_case eligible_db)"
proof -
  let ?e = "success_entity ''pay_9'' 7999 (uuid_str 1) (uuid_str 4)"
  obtain dto where dto: "parse_razorpay_webhook script_env ''t'' = Inr dto" "rw_event dto = ''payment.captured''" "rw_id dto = Some ''evt_s''"
    "extract_payment_entity script_env dto = Inr ?e"
    using success_payload_parsed [OF script_libraries_ok(2) [unfolded script_success_def]]
    by (metis script_dumps_simps(2) script_success_def zero_le_numeral)
  have id: "extract_provider_event_id script_env dto ''t'' = ''evt_s''" using dto(3) by (simp add: extract_provider_event_id_def)
  have "storable_entity ?e" "normalize_currency (JStr (ent_currency ?e)) = Inr ''INR''" "currency_ok ''INR''"
    "get_merchant eligible_db 1 = Some demo_merchant" "m_is_active demo_merchant" "noted_case 1 ?e eligible_db = Some demo_case"
    "\<not> is_terminal (rc_status demo_case)" "integer_ok (rc_version demo_case + 1)" "0 < rc_version demo_case + 1"
    "first_event 1 ''evt_s'' ?e eligible_db" "fresh_capture_rows (rc_id demo_case) eligible_db"
    "opt_varchar_ok 64 None" "rc_id demo_case = 4" by code_simp+
  then show ?thesis
    using captured_payment_recovers_case [OF demo_db_ok(2) script_signature dto(1,2,4), of "''INR''" 1 demo_merchant demo_case None]
    by (auto simp: id)
qed

definition script_route :: "string \<Rightarrow> uuid option" where
  "script_route s = uuid_parse s"

theorem scripted_recovery_witness:
  "\<exists>post post' r d1 r' d2 c'.
      send_local_webhook script_env script_dumps 0 0 [''a'', uuid_str 1, ''payment.failed'', ''pay_8'', ''evt_f'', ''CARD_EXPIRED''] = Some post
    \<and> send_recovery_success_webhook script_env script_dumps (\<lambda>s. Some 7999) 0 0 [''b'', uuid_str 1, uuid_str 102, ''7999'', ''evt_s'', ''pay_9'']
        = Inr (Some post')
    \<and> serve_webhook script_route script_env 5 post base_db = Some (Inr r, d1) \<and> status_code (response_answer r) = 200
    \<and> serve_webhook script_route script_env 6 post' d1 = Some (Inr r', d2)
    \<and> get_case d2 102 = Some c' \<and> rc_status c' = RECOVERED"
proof -
  have d: "draw base_db 2 = 102" by code_simp
  have "get_merchant base_db 1 = Some demo_merchant" "m_is_active demo_merchant" "fresh_draws base_db"
    "unknown_to 1 ''evt_f'' ''pay_8'' base_db" "unknown_to 1 ''evt_s'' ''pay_9'' base_db"
    "bigint_ok 7999" "razorpay_webhook_secret (web_settings script_env) \<noteq> []" by code_simp+
  moreover have "script_route (uuid_str 1) = Some 1" by (simp add: script_route_def)
  moreover obtain post where post: "send_local_webhook script_env script_dumps 0 0
      [''a'', uuid_str 1, ''payment.failed'', ''pay_8'', ''evt_f'', ''CARD_EXPIRED''] = Some post"
    by (simp add: send_local_webhook_def Let_def)
  moreover obtain post' where post': "send_recovery_success_webhook script_env script_dumps (\<lambda>s. Some 7999) 0 0
      [''b'', uuid_str 1, uuid_str 102, ''7999'', ''evt_s'', ''pay_9''] = Inr (Some post')"
    by (simp add: send_recovery_success_webhook_def Let_def)
  ultimately show ?thesis
    using scripted_recovery [OF script_libraries_ok(1) [unfolded script_failure_def]
        script_libraries_ok(3) [unfolded script_success_def, folded d] _ demo_db_ok(1), of 1 demo_merchant "\<lambda>s. Some 7999" "''7999''"
        script_route 0 0 "''a''" post 0 0 "''b''" post' 5 6] d
    by simp metis
qed

subsection \<open>Demo data\<close>

lemma base_draw: "draw base_db n = of_nat (100 + n)"
  by (simp add: draw_def base_db_def empty_db_def)

lemma small_uuid: "a < 1000 \<Longrightarrow> b < 1000 \<Longrightarrow> (of_nat a :: uuid) = of_nat b \<longleftrightarrow> a = b"
  by (simp add: word_of_nat_eq_iff take_bit_nat_eq_self)

lemma base_fresh:
  assumes "k \<le> 800"
  shows "fresh_from k base_db"
proof -
  have "inj_on (draw base_db) {0..<k}" unfolding base_draw inj_on_def using assms small_uuid by auto
  moreover have "of_nat (100 + n) \<noteq> (of_nat 1 :: uuid)" "of_nat (100 + n) \<noteq> (of_nat 2 :: uuid)" if "n < k" for n
    using small_uuid [of "100 + n" 1] small_uuid [of "100 + n" 2] assms that by simp_all
  ultimately show ?thesis
    by (simp add: fresh_from_def distinct_map list_all_iff unused_def base_draw get_defs get_row_None_iff)
      (auto simp: base_db_def empty_db_def demo_merchant_def other_merchant_def)
qed

theorem seed_demo_data_spec_witness:
  "\<exists>m d'. seed_demo_data base_db = (Inr (Seeded m), d') \<and> mm_total_cases (get_merchant_metrics d' m) = 35
     \<and> seed_demo_data d' = (Inr (Already_exists m), d')"
proof -
  have "canonical_keys base_db" "\<not> list_ex (\<lambda>m. m_name m = ''Demo Merchant'') (merchants base_db)" by code_simp+
  from seed_demo_data_spec [OF demo_db_ok(1) this(1) base_fresh this(2)] show ?thesis by fastforce
qed

end
