(* ===== verification/Deletes.thy ===== *)
theory Deletes
  imports History
begin

text \<open>
  Deleting rows. The application itself never deletes; the labs do when they clean up. Every foreign
  key of \<^verbatim>\<open>src/app/models/*.py\<close> is declared \<open>ondelete="CASCADE"\<close>: with a row go the rows that refer to it.
\<close>

subsection \<open>Definitions\<close>

definition delete_actions :: "(recovery_action \<Rightarrow> bool) \<Rightarrow> db \<Rightarrow> db" where
  "delete_actions P d = d\<lparr>recovery_actions := filter (\<lambda>a. \<not> P a) (recovery_actions d)\<rparr>"

definition delete_cases :: "(recovery_case \<Rightarrow> bool) \<Rightarrow> db \<Rightarrow> db" where
  "delete_cases P d =
     (delete_actions (\<lambda>a. list_ex (\<lambda>c. P c \<and> rc_id c = ra_recovery_case_id a) (recovery_cases d)) d)
       \<lparr>recovery_cases := filter (\<lambda>c. \<not> P c) (recovery_cases d)\<rparr>"

definition delete_payments :: "(payment \<Rightarrow> bool) \<Rightarrow> db \<Rightarrow> db" where
  "delete_payments P d =
     (delete_cases (\<lambda>c. list_ex (\<lambda>p. P p \<and> pay_id p = rc_payment_id c) (payments d)) d)
       \<lparr>payments := filter (\<lambda>p. \<not> P p) (payments d)\<rparr>"

definition delete_outbox :: "(outbox_event \<Rightarrow> bool) \<Rightarrow> db \<Rightarrow> db" where
  "delete_outbox P d = d\<lparr>outbox_events := filter (\<lambda>b. \<not> P b) (outbox_events d)\<rparr>"

definition delete_audits :: "(audit_event \<Rightarrow> bool) \<Rightarrow> db \<Rightarrow> db" where
  "delete_audits P d = d\<lparr>audit_events := filter (\<lambda>a. \<not> P a) (audit_events d)\<rparr>"

definition delete_merchants :: "(merchant \<Rightarrow> bool) \<Rightarrow> db \<Rightarrow> db" where
  "delete_merchants P d =
     (let gone = (\<lambda>i. list_ex (\<lambda>m. P m \<and> m_id m = i) (merchants d));
          d1 = delete_payments (\<lambda>p. gone (pay_merchant_id p)) d;
          d2 = delete_cases (\<lambda>c. gone (rc_merchant_id c)) d1;
          d3 = delete_actions (\<lambda>a. gone (ra_merchant_id a)) d2;
          d4 = delete_outbox (\<lambda>b. gone (ob_merchant_id b)) d3;
          d5 = delete_audits (\<lambda>a. gone (au_merchant_id a)) d4
      in d5\<lparr>merchant_policies := filter (\<lambda>p. \<not> gone (mp_merchant_id p)) (merchant_policies d),
            webhook_events := filter (\<lambda>w. \<not> gone (wh_merchant_id w)) (webhook_events d),
            merchants := filter (\<lambda>m. \<not> P m) (merchants d)\<rparr>)"

subsection \<open>Deletes keep the invariant\<close>

lemma delete_actions_ok: "db_ok d \<Longrightarrow> db_ok (delete_actions P d)"
  unfolding db_ok_def table_ok_defs delete_actions_def by (auto intro: distinct_map_filter)

lemma delete_outbox_ok: "db_ok d \<Longrightarrow> db_ok (delete_outbox P d)"
  unfolding db_ok_def table_ok_defs delete_outbox_def by (auto intro: distinct_map_filter)

lemma delete_audits_ok: "db_ok d \<Longrightarrow> db_ok (delete_audits P d)"
  unfolding db_ok_def table_ok_defs delete_audits_def by (auto intro: distinct_map_filter)

lemma delete_cases_ok:
  assumes "db_ok d"
  shows "db_ok (delete_cases P d)"
proof -
  have "(ra_recovery_case_id a, ra_merchant_id a) \<in> (\<lambda>c. (rc_id c, rc_merchant_id c)) ` set (filter (\<lambda>c. \<not> P c) (recovery_cases d))"
    if "a \<in> set (recovery_actions d)" "\<not> list_ex (\<lambda>c. P c \<and> rc_id c = ra_recovery_case_id a) (recovery_cases d)" for a
  proof -
    from that(1) assms obtain c where "c \<in> set (recovery_cases d)" "ra_recovery_case_id a = rc_id c" "ra_merchant_id a = rc_merchant_id c"
      unfolding db_ok_def actions_ok_def by force
    with that(2) show ?thesis by (force simp: list_ex_iff)
  qed
  with assms show ?thesis
    unfolding db_ok_def table_ok_defs delete_cases_def delete_actions_def by (auto intro: distinct_map_filter)
qed

lemma delete_payments_ok:
  assumes "db_ok d"
  shows "db_ok (delete_payments P d)"
proof -
  let ?d = "delete_cases (\<lambda>c. list_ex (\<lambda>p. P p \<and> pay_id p = rc_payment_id c) (payments d)) d"
  have "(rc_payment_id c, rc_merchant_id c) \<in> (\<lambda>p. (pay_id p, pay_merchant_id p)) ` set (filter (\<lambda>p. \<not> P p) (payments d))"
    if "c \<in> set (recovery_cases ?d)" for c
  proof -
    from that have c: "c \<in> set (recovery_cases d)" "\<not> list_ex (\<lambda>p. P p \<and> pay_id p = rc_payment_id c) (payments d)"
      by (simp_all add: delete_cases_def)
    from c(1) assms obtain p where "p \<in> set (payments d)" "rc_payment_id c = pay_id p" "rc_merchant_id c = pay_merchant_id p"
      unfolding db_ok_def cases_ok_def by force
    with c(2) show ?thesis by (force simp: list_ex_iff)
  qed
  moreover have "payments ?d = payments d" by (simp add: delete_cases_def delete_actions_def)
  ultimately show ?thesis
    using delete_cases_ok [OF assms, of "\<lambda>c. list_ex (\<lambda>p. P p \<and> pay_id p = rc_payment_id c) (payments d)"]
    unfolding db_ok_def table_ok_defs delete_payments_def by (auto intro: distinct_map_filter)
qed

subsection \<open>A merchant with everything that is his\<close>

definition purged :: "uuid \<Rightarrow> db \<Rightarrow> db" where
  "purged m d = d
     \<lparr>merchants := filter (\<lambda>r. m_id r \<noteq> m) (merchants d), payments := filter (\<lambda>p. pay_merchant_id p \<noteq> m) (payments d),
      recovery_cases := filter (\<lambda>c. rc_merchant_id c \<noteq> m) (recovery_cases d),
      recovery_actions := filter (\<lambda>a. ra_merchant_id a \<noteq> m) (recovery_actions d),
      merchant_policies := filter (\<lambda>p. mp_merchant_id p \<noteq> m) (merchant_policies d),
      webhook_events := filter (\<lambda>w. wh_merchant_id w \<noteq> m) (webhook_events d),
      outbox_events := filter (\<lambda>b. ob_merchant_id b \<noteq> m) (outbox_events d),
      audit_events := filter (\<lambda>a. au_merchant_id a \<noteq> m) (audit_events d)\<rparr>"

lemma case_owner:
  assumes "db_ok d" and "c \<in> set (recovery_cases d)" and "p \<in> set (payments d)" and "pay_id p = rc_payment_id c"
  shows "rc_merchant_id c = pay_merchant_id p"
proof -
  from assms(1,2) obtain q where q: "q \<in> set (payments d)" "rc_payment_id c = pay_id q" "rc_merchant_id c = pay_merchant_id q"
    unfolding db_ok_def cases_ok_def by force
  moreover have "distinct (map pay_id (payments d))" using assms(1) by (simp add: db_ok_def payments_ok_def)
  ultimately show ?thesis using assms(3,4) by (metis distinct_map inj_onD)
qed

lemma action_owner:
  assumes "db_ok d" and "a \<in> set (recovery_actions d)" and "c \<in> set (recovery_cases d)" and "rc_id c = ra_recovery_case_id a"
  shows "ra_merchant_id a = rc_merchant_id c"
proof -
  from assms(1,2) obtain q where q: "q \<in> set (recovery_cases d)" "ra_recovery_case_id a = rc_id q" "ra_merchant_id a = rc_merchant_id q"
    unfolding db_ok_def actions_ok_def by force
  moreover have "distinct (map rc_id (recovery_cases d))" using assms(1) by (simp add: db_ok_def cases_ok_def)
  ultimately show ?thesis using assms(3,4) by (metis distinct_map inj_onD)
qed

text \<open>Deleting rows of a merchant first does not change what is left without him.\<close>

lemma filter_others:
  "(\<And>x. x \<in> set xs \<Longrightarrow> P x \<Longrightarrow> own x = m) \<Longrightarrow> filter (\<lambda>x. \<not> P x \<and> own x \<noteq> m) xs = filter (\<lambda>x. own x \<noteq> m) xs"
  by (rule filter_cong) auto

lemma purged_delete_audits: "(\<And>a. a \<in> set (audit_events d) \<Longrightarrow> P a \<Longrightarrow> au_merchant_id a = m) \<Longrightarrow> purged m (delete_audits P d) = purged m d"
  using filter_others [of "audit_events d" P au_merchant_id m] by (simp add: purged_def delete_audits_def)

lemma purged_delete_outbox: "(\<And>b. b \<in> set (outbox_events d) \<Longrightarrow> P b \<Longrightarrow> ob_merchant_id b = m) \<Longrightarrow> purged m (delete_outbox P d) = purged m d"
  using filter_others [of "outbox_events d" P ob_merchant_id m] by (simp add: purged_def delete_outbox_def)

lemma purged_delete_actions: "(\<And>a. a \<in> set (recovery_actions d) \<Longrightarrow> P a \<Longrightarrow> ra_merchant_id a = m) \<Longrightarrow> purged m (delete_actions P d) = purged m d"
  using filter_others [of "recovery_actions d" P ra_merchant_id m] by (simp add: purged_def delete_actions_def)

lemma purged_delete_cases:
  assumes "db_ok d" and "\<And>c. c \<in> set (recovery_cases d) \<Longrightarrow> P c \<Longrightarrow> rc_merchant_id c = m"
  shows "purged m (delete_cases P d) = purged m d"
proof -
  define d1 where "d1 = delete_actions (\<lambda>a. list_ex (\<lambda>c. P c \<and> rc_id c = ra_recovery_case_id a) (recovery_cases d)) d"
  have "purged m d1 = purged m d" unfolding d1_def
    by (rule purged_delete_actions) (use assms action_owner [OF assms(1)] in \<open>fastforce simp: list_ex_iff\<close>)
  moreover have "purged m (d1\<lparr>recovery_cases := filter (\<lambda>c. \<not> P c) (recovery_cases d1)\<rparr>) = purged m d1"
    using filter_others [of "recovery_cases d1" P rc_merchant_id m] assms(2) by (simp add: purged_def d1_def delete_actions_def)
  moreover have "recovery_cases d1 = recovery_cases d" by (simp add: d1_def delete_actions_def)
  ultimately show ?thesis by (simp add: delete_cases_def d1_def)
qed

lemma purged_delete_payments:
  assumes "db_ok d" and "\<And>p. p \<in> set (payments d) \<Longrightarrow> P p \<Longrightarrow> pay_merchant_id p = m"
  shows "purged m (delete_payments P d) = purged m d"
proof -
  define d1 where "d1 = delete_cases (\<lambda>c. list_ex (\<lambda>p. P p \<and> pay_id p = rc_payment_id c) (payments d)) d"
  have "purged m d1 = purged m d" unfolding d1_def
    by (rule purged_delete_cases [OF assms(1)]) (use assms case_owner [OF assms(1)] in \<open>fastforce simp: list_ex_iff\<close>)
  moreover have p: "payments d1 = payments d" by (simp add: d1_def delete_cases_def delete_actions_def)
  moreover have "purged m (d1\<lparr>payments := filter (\<lambda>p. \<not> P p) (payments d1)\<rparr>) = purged m d1"
    using filter_others [of "payments d1" P pay_merchant_id m] assms(2) by (simp add: purged_def p)
  ultimately show ?thesis by (simp add: delete_payments_def d1_def)
qed

lemma deletes_keep_merchants [simp]:
  "merchants (delete_actions P1 d) = merchants d" "merchants (delete_cases P2 d) = merchants d"
  "merchants (delete_payments P3 d) = merchants d" "merchants (delete_outbox P4 d) = merchants d"
  "merchants (delete_audits P5 d) = merchants d"
  by (simp_all add: delete_actions_def delete_cases_def delete_payments_def delete_outbox_def delete_audits_def)

lemmas delete_defs = delete_actions_def delete_cases_def delete_payments_def delete_outbox_def delete_audits_def

lemma purged_id:
  assumes "m \<notin> m_id ` set (merchants d)" and "m \<notin> pay_merchant_id ` set (payments d)" and "m \<notin> rc_merchant_id ` set (recovery_cases d)"
    and "m \<notin> ra_merchant_id ` set (recovery_actions d)" and "m \<notin> mp_merchant_id ` set (merchant_policies d)"
    and "m \<notin> wh_merchant_id ` set (webhook_events d)" and "m \<notin> ob_merchant_id ` set (outbox_events d)"
    and "m \<notin> au_merchant_id ` set (audit_events d)"
  shows "purged m d = d"
proof -
  have "filter (\<lambda>x. own x \<noteq> m) xs = xs" if "m \<notin> own ` set xs" for own and xs :: "'a list"
    using that by (auto simp: filter_id_conv)
  note this [OF assms(1)] this [OF assms(2)] this [OF assms(3)] this [OF assms(4)] this [OF assms(5)] this [OF assms(6)]
    this [OF assms(7)] this [OF assms(8)]
  then show ?thesis by (simp add: purged_def)
qed

lemma purged_unknown:
  assumes "db_ok d" and "get_merchant d m = None"
  shows "purged m d = d"
  by (rule purged_id) (use assms in \<open>auto simp: db_ok_def table_ok_defs get_defs get_row_None_iff\<close>)

text \<open>
  Deleting a merchant of a consistent database removes exactly his rows: no row of another merchant
  refers to them.
\<close>

lemma delete_merchant_purges:
  assumes ok: "db_ok d"
  shows "delete_merchants (\<lambda>r. m_id r = m) d = purged m d"
proof -
  define gone where "gone = (\<lambda>i. list_ex (\<lambda>r. m_id r = m \<and> m_id r = i) (merchants d))"
  have g: "gone i \<Longrightarrow> i = m" for i by (auto simp: gone_def list_ex_iff)
  define d1 where "d1 = delete_payments (\<lambda>p. gone (pay_merchant_id p)) d"
  define d2 where "d2 = delete_cases (\<lambda>c. gone (rc_merchant_id c)) d1"
  define d3 where "d3 = delete_actions (\<lambda>a. gone (ra_merchant_id a)) d2"
  define d4 where "d4 = delete_outbox (\<lambda>b. gone (ob_merchant_id b)) d3"
  define d5 where "d5 = delete_audits (\<lambda>a. gone (au_merchant_id a)) d4"
  have ok1: "db_ok d1" unfolding d1_def by (rule delete_payments_ok [OF ok])
  have "purged m d1 = purged m d" unfolding d1_def by (rule purged_delete_payments [OF ok]) (rule g)
  moreover have "purged m d2 = purged m d1" unfolding d2_def by (rule purged_delete_cases [OF ok1]) (rule g)
  moreover have "purged m d3 = purged m d2" unfolding d3_def by (rule purged_delete_actions) (rule g)
  moreover have "purged m d4 = purged m d3" unfolding d4_def by (rule purged_delete_outbox) (rule g)
  moreover have "purged m d5 = purged m d4" unfolding d5_def by (rule purged_delete_audits) (rule g)
  ultimately have p5: "purged m d5 = purged m d" by simp
  define e where "e = d5\<lparr>merchant_policies := filter (\<lambda>p. \<not> gone (mp_merchant_id p)) (merchant_policies d),
    webhook_events := filter (\<lambda>w. \<not> gone (wh_merchant_id w)) (webhook_events d), merchants := filter (\<lambda>r. m_id r \<noteq> m) (merchants d)\<rparr>"
  have d5: "merchant_policies d5 = merchant_policies d" "webhook_events d5 = webhook_events d" "merchants d5 = merchants d"
    by (simp_all add: d5_def d4_def d3_def d2_def d1_def delete_defs)
  have pe: "purged m e = purged m d5"
    using filter_others [of "merchant_policies d" "\<lambda>p. gone (mp_merchant_id p)" mp_merchant_id m, OF g]
      filter_others [of "webhook_events d" "\<lambda>w. gone (wh_merchant_id w)" wh_merchant_id m, OF g]
    by (simp add: purged_def e_def d5)
  have "purged m e = e"
  proof (cases "get_merchant d m = None")
    case True
    then have "gone = (\<lambda>i. False)" by (auto simp: gone_def list_ex_iff get_defs get_row_None_iff)
    moreover have "filter (\<lambda>r. m_id r \<noteq> m) (merchants d) = merchants d"
      using True by (auto simp: filter_id_conv get_defs get_row_None_iff)
    ultimately have "e = d" by (simp add: e_def d5_def d4_def d3_def d2_def d1_def delete_defs list_ex_iff)
    then show ?thesis using purged_unknown [OF ok True] by simp
  next
    case False
    then have "gone = (\<lambda>i. i = m)" by (auto simp: gone_def list_ex_iff get_defs get_row_None_iff)
    then show ?thesis
      by (intro purged_id) (auto simp: e_def d5_def d4_def d3_def d2_def d1_def delete_defs)
  qed
  moreover have "delete_merchants (\<lambda>r. m_id r = m) d = e"
    by (simp add: delete_merchants_def Let_def gone_def [symmetric] d1_def [symmetric] d2_def [symmetric] d3_def [symmetric]
        d4_def [symmetric] d5_def [symmetric] e_def)
  ultimately show ?thesis using pe p5 by simp
qed

end
