(* ===== verification/Labs.thy ===== *)
theory Labs
  imports Seed Deletes Executor_Facts
begin

text \<open>
  The labs that work on the database: \<^verbatim>\<open>src/labs/concurrent_case_transition_lab.py\<close>,
  \<^verbatim>\<open>stale_execution_lab.py\<close> and \<^verbatim>\<open>dual_write_lab.py\<close>. Each creates a merchant with rows of its own, runs
  an experiment on the application's functions and deletes what it created.

  The two threads of the first lab are steps of a transition system: which thread reads, when the
  barrier opens or times out, and which thread writes first is a \<open>lab_choice\<close>. The write of a thread
  is one step, since the row lock of its \<open>UPDATE\<close> is held until its transaction ends.
\<close>

subsection \<open>The rows of a lab\<close>

definition lab_payment :: "uuid \<Rightarrow> uuid \<Rightarrow> string \<Rightarrow> int \<Rightarrow> int \<Rightarrow> payment" where
  "lab_payment u m ref amount t =
     \<lparr>pay_id = u, pay_merchant_id = m, pay_provider = ''razorpay'', pay_provider_payment_id = ref, pay_status = P_FAILED,
      pay_amount_minor = amount, pay_currency = ''INR'', pay_failure_code = None, pay_failure_reason = None,
      pay_failed_at = None, pay_captured_at = None, pay_created_at = t, pay_updated_at = t\<rparr>"

definition lab_case :: "uuid \<Rightarrow> uuid \<Rightarrow> payment \<Rightarrow> recovery_case_status \<Rightarrow> int \<Rightarrow> int \<Rightarrow> recovery_case" where
  "lab_case u m p status version t =
     \<lparr>rc_id = u, rc_merchant_id = m, rc_payment_id = pay_id p, rc_status = status, rc_amount_minor = pay_amount_minor p,
      rc_currency = pay_currency p, rc_failure_category = None, rc_next_action_at = None, rc_version = version,
      rc_created_at = t, rc_updated_at = t\<rparr>"

text \<open>The reference of the payment takes an identifier of its own, before the primary key does.\<close>

definition add_lab_payment :: "uuid \<Rightarrow> string \<Rightarrow> int \<Rightarrow> db \<Rightarrow> (payment \<times> db) res" where
  "add_lab_payment m prefix amount d =
     (let (h, d1) = new_uuid d; (u, d2) = new_uuid d1; p = lab_payment u m (prefix @ uuid_hex h) amount (clock d)
      in res_bind (insert_payment p d2) (\<lambda>d3. Inr (p, d3)))"

definition add_lab_case :: "string \<Rightarrow> int \<Rightarrow> recovery_case_status \<Rightarrow> int \<Rightarrow> db \<Rightarrow> ((uuid \<times> payment \<times> recovery_case) \<times> db) res" where
  "add_lab_case name amount status version d =
     res_bind (add_merchant name d) (\<lambda>(m, d1).
     res_bind (add_lab_payment m ''pay_lab_'' amount d1) (\<lambda>(p, d2).
     let (u, d3) = new_uuid d2; c = lab_case u m p status version (clock d) in
     res_bind (insert_case c d3) (\<lambda>d4. Inr ((m, p, c), d4))))"

subsection \<open>Two workers and one case\<close>

definition create_lab_case :: "db \<Rightarrow> (uuid \<times> uuid \<times> uuid) res \<times> db" where
  "create_lab_case d =
     in_transaction (\<lambda>d. res_bind (add_lab_case ''Concurrency Lab Merchant'' 9999 ELIGIBLE 1 d)
       (\<lambda>((m, p, c), d'). Inr ((m, pay_id p, rc_id c), d'))) d"

datatype lab_worker =
    Starting
  | At_barrier "recovery_case option"
  | Released "recovery_case option"
  | Ended

record lab_state =
  lab_db :: db
  lab_workers :: "lab_worker list"
  lab_results :: "nat list"
  lab_errors :: "exc list"

datatype lab_choice = Reads nat | Opens | Times_out nat | Writes nat

definition lab_audit :: "uuid \<Rightarrow> recovery_case \<Rightarrow> int \<Rightarrow> audit_event" where
  "lab_audit u c t =
     \<lparr>au_id = u, au_merchant_id = rc_merchant_id c, au_entity_type = ''recovery_case'', au_entity_id = uuid_str (rc_id c),
      au_event_type = ''recovery_case.analysis_started'', au_actor = ''lab_worker'', au_correlation_id = None,
      au_payload = [(''lab'', JStr ''concurrent_case_transition'')], au_created_at = t\<rparr>"

text \<open>The row count is recorded before the audit entry is flushed at the commit.\<close>

definition worker_write :: "recovery_case option \<Rightarrow> lab_state \<Rightarrow> lab_state" where
  "worker_write loaded s =
     (case loaded of
        None \<Rightarrow> s\<lparr>lab_errors := lab_errors s @ [OtherException ''AttributeError'']\<rparr>
      | Some c \<Rightarrow>
          (case atomic_transition_recovery_case (rc_id c) (rc_status c) (rc_version c) ANALYSING (lab_db s) of
             Inl e \<Rightarrow> s\<lparr>lab_errors := lab_errors s @ [e]\<rparr>
           | Inr (rowcount, d1) \<Rightarrow>
               let s1 = s\<lparr>lab_results := lab_results s @ [rowcount]\<rparr>; (u, d2) = new_uuid d1 in
               if rowcount = 1
               then (case insert_audit_row (lab_audit u c (clock d2)) d2 of
                       Inl e \<Rightarrow> s1\<lparr>lab_errors := lab_errors s @ [e]\<rparr>
                     | Inr d3 \<Rightarrow> s1\<lparr>lab_db := d3\<rparr>)
               else s1\<lparr>lab_db := d1\<rparr>))"

definition set_worker :: "nat \<Rightarrow> lab_worker \<Rightarrow> lab_state \<Rightarrow> lab_state" where
  "set_worker i w s = s\<lparr>lab_workers := (lab_workers s)[i := w]\<rparr>"

text \<open>
  One step of \<open>worker_transition\<close>; \<open>None\<close> when the choice is not possible. The barrier opens when
  both threads wait; once a wait has timed out the barrier is broken, and every other wait fails too.
\<close>

fun worker_transition :: "uuid \<Rightarrow> lab_choice \<Rightarrow> lab_state \<Rightarrow> lab_state option" where
  "worker_transition case_id (Reads i) s =
     (if i < length (lab_workers s) \<and> lab_workers s ! i = Starting
      then Some (set_worker i (At_barrier (get_case (lab_db s) case_id)) s) else None)"
| "worker_transition case_id Opens s =
     (case lab_workers s of
        [At_barrier a, At_barrier b] \<Rightarrow> Some (s\<lparr>lab_workers := [Released a, Released b]\<rparr>)
      | _ \<Rightarrow> None)"
| "worker_transition case_id (Times_out i) s =
     (if i < length (lab_workers s)
      then case lab_workers s ! i of
             At_barrier _ \<Rightarrow> Some (set_worker i Ended (s\<lparr>lab_errors := lab_errors s @ [OtherException ''BrokenBarrierError'']\<rparr>))
           | _ \<Rightarrow> None
      else None)"
| "worker_transition case_id (Writes i) s =
     (if i < length (lab_workers s)
      then case lab_workers s ! i of Released c \<Rightarrow> Some (set_worker i Ended (worker_write c s)) | _ \<Rightarrow> None
      else None)"

fun lab_run :: "uuid \<Rightarrow> lab_choice list \<Rightarrow> lab_state \<Rightarrow> lab_state option" where
  "lab_run case_id [] s = Some s"
| "lab_run case_id (x # xs) s = Option.bind (worker_transition case_id x s) (lab_run case_id xs)"

definition lab_start :: "db \<Rightarrow> lab_state" where
  "lab_start d = \<lparr>lab_db = d, lab_workers = [Starting, Starting], lab_results = [], lab_errors = []\<rparr>"

definition lab_audit_rows :: "uuid \<Rightarrow> db \<Rightarrow> audit_event list" where
  "lab_audit_rows case_id d = filter (\<lambda>a. au_entity_id a = uuid_str case_id) (audit_events d)"

definition lab_passed :: "uuid \<Rightarrow> lab_state \<Rightarrow> bool" where
  "lab_passed case_id s =
     (length (filter (\<lambda>n. n = 1) (lab_results s)) = 1 \<and> length (lab_audit_rows case_id (lab_db s)) = 1)"

definition cleanup :: "uuid \<Rightarrow> uuid \<Rightarrow> uuid \<Rightarrow> db \<Rightarrow> db" where
  "cleanup merchant_id payment_id case_id d =
     delete_merchants (\<lambda>m. m_id m = merchant_id) (delete_payments (\<lambda>p. pay_id p = payment_id)
       (delete_cases (\<lambda>c. rc_id c = case_id) (delete_audits (\<lambda>a. au_entity_id a = uuid_str case_id) d)))"

text \<open>\<open>main\<close> under a schedule: the final state, the status and version printed, the verdict, the database left.\<close>

definition concurrent_lab ::
  "db \<Rightarrow> lab_choice list \<Rightarrow> (lab_state \<times> (recovery_case_status \<times> int) option \<times> bool \<times> db) option" where
  "concurrent_lab d schedule =
     (case create_lab_case d of
        (Inl e, _) \<Rightarrow> None
      | (Inr (m, p, i), d0) \<Rightarrow>
          map_option
            (\<lambda>s. (s, map_option (\<lambda>c. (rc_status c, rc_version c)) (get_case (lab_db s) i), lab_passed i s, cleanup m p i (lab_db s)))
            (lab_run i schedule (lab_start d0)))"

subsection \<open>The rows of a lab can be written\<close>

definition with_lab_case :: "string \<Rightarrow> int \<Rightarrow> recovery_case_status \<Rightarrow> int \<Rightarrow> db \<Rightarrow> db" where
  "with_lab_case name amount status version d =
     (let p = lab_payment (draw d 2) (draw d 0) (''pay_lab_'' @ uuid_hex (draw d 1)) amount (clock d)
      in d\<lparr>uuid_drawn := uuid_drawn d + 4, merchants := merchants d @ [new_merchant (draw d 0) name (clock d)],
           payments := payments d @ [p],
           recovery_cases := recovery_cases d @ [lab_case (draw d 3) (draw d 0) p status version (clock d)]\<rparr>)"

lemma add_merchant_total:
  assumes "unused d (draw d 0)" and "length name \<le> 255"
  shows "add_merchant name d = Inr (draw d 0, d\<lparr>uuid_drawn := uuid_drawn d + 1,
    merchants := merchants d @ [new_merchant (draw d 0) name (clock d)]\<rparr>)"
  using assms
  by (simp add: add_merchant_def new_uuid_def insert_merchant_def new_merchant_def varchar_ok_def unused_def get_defs draw_def)

lemma length_uuid_hex [simp]: "length (uuid_hex u) = 32"
  by (simp add: uuid_hex_def)

lemma unused_neq:
  assumes "unused d u"
  shows "p \<in> set (payments d) \<Longrightarrow> pay_id p \<noteq> u" and "c \<in> set (recovery_cases d) \<Longrightarrow> rc_id c \<noteq> u"
    and "a \<in> set (recovery_actions d) \<Longrightarrow> ra_id a \<noteq> u"
  using assms by (auto simp: unused_def get_defs get_row_None_iff)

lemma no_rows_of:
  assumes "db_ok d" and "unused d u"
  shows "u \<notin> pay_merchant_id ` set (payments d)" and "u \<notin> rc_payment_id ` set (recovery_cases d)"
    and "u \<notin> ra_recovery_case_id ` set (recovery_actions d)" and "u \<notin> mp_merchant_id ` set (merchant_policies d)"
  using assms by (auto simp: db_ok_def table_ok_defs unused_def get_defs get_row_None_iff)

lemma add_lab_payment_total:
  assumes m: "get_merchant d m \<noteq> None" and un: "unused d (draw d 1)" and "length prefix \<le> 96" and "0 \<le> amount" and "bigint_ok amount"
    and new: "\<not> list_ex (\<lambda>q. pay_merchant_id q = m \<and> pay_provider_payment_id q = prefix @ uuid_hex (draw d 0)) (payments d)"
    and p: "p = lab_payment (draw d 1) m (prefix @ uuid_hex (draw d 0)) amount (clock d)"
  shows "add_lab_payment m prefix amount d = Inr (p, d\<lparr>uuid_drawn := uuid_drawn d + 2, payments := payments d @ [p]\<rparr>)"
proof -
  let ?d = "d\<lparr>uuid_drawn := Suc (Suc (uuid_drawn d))\<rparr>"
  have "payment_row_check p = Inr ()"
    using assms(3-5) INR_ok by (simp add: p payment_row_check_def lab_payment_def varchar_ok_def opt_varchar_ok_def)
  moreover have "get_payment ?d (pay_id p) = None" "get_merchant ?d (pay_merchant_id p) \<noteq> None"
    using un m by (simp_all add: p lab_payment_def unused_def get_defs)
  moreover have "\<not> list_ex (\<lambda>q. pay_merchant_id q = pay_merchant_id p \<and> pay_provider q = pay_provider p
      \<and> pay_provider_payment_id q = pay_provider_payment_id p) (payments ?d)"
    using new by (auto simp: list_ex_iff p lab_payment_def)
  ultimately have "insert_payment p ?d = Inr (?d\<lparr>payments := payments ?d @ [p]\<rparr>)" unfolding insert_payment_def by simp
  then show ?thesis by (simp add: add_lab_payment_def new_uuid_def Let_def p draw_def)
qed

lemma add_lab_case_ok:
  assumes ok: "db_ok d" and run: "add_lab_case name amount status version d = Inr ((m, p, c), d')"
  shows "db_ok d'"
proof -
  let ?m = "new_merchant m name (clock d)"
  from run obtain d1 d2 d3 where m: "insert_merchant ?m (snd (new_uuid d)) = Inr d1"
    and p: "insert_payment p (snd (new_uuid (snd (new_uuid d1)))) = Inr d2" and pm: "pay_merchant_id p = m"
    and c: "insert_case c (snd (new_uuid d2)) = Inr d'" and cp: "rc_payment_id c = pay_id p" "rc_merchant_id c = m"
    by (auto simp: add_lab_case_def add_merchant_def add_lab_payment_def case_prod_beta Let_def lab_payment_def lab_case_def new_uuid_def)
  have "db_ok (snd (new_uuid d))" using ok new_uuid_step db_step_ok by blast
  from insert_merchant_ok(1) [OF this m] have "db_ok d1" .
  then have "db_ok d2" using p new_uuid_step insert_payment_step db_step_ok by metis
  moreover have "get_payment (snd (new_uuid d2)) (rc_payment_id c) = Some p"
    using payment_table.get_added [OF p] cp by (simp add: new_uuid_def get_defs)
  ultimately show ?thesis using c insert_case_step [OF c, of p] pm cp new_uuid_step db_step_ok by metis
qed

lemma add_lab_case_total:
  assumes ok: "db_ok d" and fresh: "fresh_from (4 + k) d" and name: "length name \<le> 255"
    and a: "0 \<le> amount" "bigint_ok amount" and v: "0 < version" "integer_ok version"
    and p: "p = lab_payment (draw d 2) (draw d 0) (''pay_lab_'' @ uuid_hex (draw d 1)) amount (clock d)"
    and c: "c = lab_case (draw d 3) (draw d 0) p status version (clock d)"
  shows "add_lab_case name amount status version d = Inr ((draw d 0, p, c), with_lab_case name amount status version d)"
    and "db_ok (with_lab_case name amount status version d)" and "fresh_from k (with_lab_case name amount status version d)"
proof -
  define d1 where "d1 = d\<lparr>uuid_drawn := uuid_drawn d + 1, merchants := merchants d @ [new_merchant (draw d 0) name (clock d)]\<rparr>"
  define d2 where "d2 = d1\<lparr>uuid_drawn := uuid_drawn d1 + 2, payments := payments d1 @ [p]\<rparr>"
  note un = fresh_from_unused [OF fresh] and ne = fresh_from_eq [OF fresh]
  have dr: "draw d1 0 = draw d 1" "draw d1 1 = draw d 2" "draw d2 0 = draw d 3" by (simp_all add: numeral_eq_Suc draw_def d1_def d2_def)
  have m: "get_merchant d1 (draw d 0) \<noteq> None" by (simp add: get_defs get_row_None_iff new_merchant_def d1_def)
  have u1: "unused d1 (draw d1 1)"
    using un [of 2] ne [of 2 0] unfolding dr by (simp add: unused_def get_defs get_row_append new_merchant_def d1_def)
  have np: "\<not> list_ex (\<lambda>q. pay_merchant_id q = draw d 0 \<and> pay_provider_payment_id q = ''pay_lab_'' @ uuid_hex (draw d1 0)) (payments d1)"
    using no_rows_of(1) [OF ok un [of 0]] by (auto simp: list_ex_iff image_iff d1_def)
  have pay: "add_lab_payment (draw d 0) ''pay_lab_'' amount d1 = Inr (p, d2)"
    unfolding d2_def by (rule add_lab_payment_total [OF m u1 _ a np]) (simp_all only: p dr list.size, simp_all add: d1_def)
  have "draw d 2 \<notin> rc_payment_id ` set (recovery_cases d)" by (rule no_rows_of(2) [OF ok un]) simp
  then have "\<not> list_ex (\<lambda>q. rc_payment_id q = rc_payment_id c) (recovery_cases (snd (new_uuid d2)))"
    by (auto simp: list_ex_iff image_iff new_uuid_def d2_def d1_def c p lab_case_def lab_payment_def)
  moreover have "case_row_check c = Inr ()"
    using a v INR_ok by (simp add: case_row_check_def c p lab_case_def lab_payment_def varchar_ok_def opt_varchar_ok_def)
  moreover have "get_case (snd (new_uuid d2)) (rc_id c) = None" using un [of 3]
    by (simp add: unused_def get_defs new_uuid_def d2_def d1_def c lab_case_def)
  moreover have "get_merchant (snd (new_uuid d2)) (rc_merchant_id c) \<noteq> None" "get_payment (snd (new_uuid d2)) (rc_payment_id c) \<noteq> None"
    using m by (simp_all add: get_defs get_row_None_iff new_uuid_def d2_def c p lab_case_def lab_payment_def)
  ultimately have ins: "insert_case c (snd (new_uuid d2)) = Inr ((snd (new_uuid d2))\<lparr>recovery_cases := recovery_cases (snd (new_uuid d2)) @ [c]\<rparr>)"
    unfolding insert_case_def by simp
  have "(snd (new_uuid d2))\<lparr>recovery_cases := recovery_cases (snd (new_uuid d2)) @ [c]\<rparr> = with_lab_case name amount status version d"
    by (simp add: with_lab_case_def Let_def new_uuid_def d2_def d1_def c p)
  note ins = ins [unfolded this]
  have "fst (new_uuid d2) = draw d 3" "clock d1 = clock d" using dr by (simp_all add: new_uuid_def draw_def d1_def)
  then show run: "add_lab_case name amount status version d = Inr ((draw d 0, p, c), with_lab_case name amount status version d)"
    using add_merchant_total [OF un name, folded d1_def] pay ins by (simp add: add_lab_case_def Let_def case_prod_beta c)
  show "db_ok (with_lab_case name amount status version d)" by (rule add_lab_case_ok [OF ok run])
  show "fresh_from k (with_lab_case name amount status version d)"
  proof (rule fresh_from_drop [OF fresh])
    fix n assume u: "unused d (draw d n)" and n: "draw d n \<notin> draw d ` {..<4}"
    have "draw d n \<noteq> draw d 0" "draw d n \<noteq> draw d 2" "draw d n \<noteq> draw d 3" using n by auto
    with u show "unused (with_lab_case name amount status version d) (draw d n)"
      by (simp add: unused_def get_defs with_lab_case_def Let_def get_row_append new_merchant_def lab_payment_def lab_case_def)
  qed (simp_all add: with_lab_case_def Let_def)
qed

subsection \<open>One write takes effect\<close>

lemma first_write:
  assumes ok: "db_ok d" and c: "get_case d (rc_id c) = Some c" "rc_status c = ELIGIBLE" "integer_ok (rc_version c + 1)"
    and m: "get_merchant d (rc_merchant_id c) \<noteq> None" and au: "get_audit d (draw d 0) = None"
  obtains d1 where "\<And>s. lab_db s = d \<Longrightarrow> worker_write (Some c) s = s\<lparr>lab_results := lab_results s @ [1], lab_db := d1\<rparr>"
    and "\<And>s. lab_db s = d1 \<Longrightarrow> worker_write (Some c) s = s\<lparr>lab_results := lab_results s @ [0]\<rparr>"
    and "get_case d1 (rc_id c) = Some (c\<lparr>rc_status := ANALYSING, rc_version := rc_version c + 1, rc_updated_at := clock d\<rparr>)"
    and "audit_events d1 = audit_events d @ [lab_audit (draw d 0) c (clock d)]" and "db_step d d1" and "merchants d1 = merchants d"
    and "same_others (rc_merchant_id c) d d1" and "uuid4 d1 = uuid4 d" and "clock d1 = clock d"
proof -
  have can: "can_transition ELIGIBLE ANALYSING" by code_simp
  from atomic_transition_total [OF can c(3)] obtain n dA
    where t: "atomic_transition_recovery_case (rc_id c) ELIGIBLE (rc_version c) ANALYSING d = Inr (n, dA)" by blast
  note r = atomic_transition_Inr [OF ok t] and fr = atomic_transition_frame [OF t]
  have n: "n = 1" using r(1) c by simp
  define d1 where "d1 = dA\<lparr>uuid_drawn := Suc (uuid_drawn dA), audit_events := audit_events dA @ [lab_audit (draw d 0) c (clock d)]\<rparr>"
  have fA: "uuid_drawn dA = uuid_drawn d" "uuid4 dA = uuid4 d" "clock dA = clock d" "merchants dA = merchants d" "audit_events dA = audit_events d"
    by (subst fr, simp)+
  have ins: "insert_audit_row (lab_audit (draw d 0) c (clock d)) (snd (new_uuid dA)) = Inr d1"
    using m au by (simp add: insert_audit_row_def audit_row_check_def lab_audit_def varchar_ok_def opt_varchar_ok_def new_uuid_def get_defs fA d1_def)
  have u: "fst (new_uuid dA) = draw d 0" "clock (snd (new_uuid dA)) = clock d" by (simp_all add: new_uuid_def draw_def fA)
  have gA: "get_case dA (rc_id c) = Some (c\<lparr>rc_status := ANALYSING, rc_version := rc_version c + 1, rc_updated_at := clock d\<rparr>)"
    using r(3) c(1) n by auto
  then have g: "get_case d1 (rc_id c) = Some (c\<lparr>rc_status := ANALYSING, rc_version := rc_version c + 1, rc_updated_at := clock d\<rparr>)"
    by (simp add: d1_def get_defs)
  have sA: "db_step d dA" by (rule atomic_transition_step [OF t]) simp
  have s: "db_step d d1" using db_step_trans [OF sA db_step_trans [OF new_uuid_step insert_audit_row_step [OF ins]]] .
  then have ok1: "db_ok d1" using ok db_step_ok by blast
  from atomic_transition_total [OF can c(3)] obtain k dB
    where t2: "atomic_transition_recovery_case (rc_id c) ELIGIBLE (rc_version c) ANALYSING d1 = Inr (k, dB)" by blast
  have k: "k = 0" using atomic_transition_Inr(1) [OF ok1 t2] g by simp
  then have dB: "dB = d1" using atomic_transition_Inr(2) [OF ok1 t2] by simp
  have upd: "dA = d\<lparr>recovery_cases := upd_where (\<lambda>q. rc_id q = rc_id c \<and> rc_status q = ELIGIBLE \<and> rc_version q = rc_version c)
      (\<lambda>q. q\<lparr>rc_status := ANALYSING, rc_version := rc_version c + 1, rc_updated_at := clock d\<rparr>) (recovery_cases d)\<rparr>"
    using t by (auto simp: atomic_transition_recovery_case_def update_cases_def split: if_splits)
  have mine: "rc_merchant_id q = rc_merchant_id c" if "q \<in> set (recovery_cases d)" "rc_id q = rc_id c" for q
    using get_row_unique [OF db_ok_distinct(3) [OF ok]] c(1) that by (fastforce simp: get_defs)
  have "same_others (rc_merchant_id c) d dA"
    unfolding upd by (rule same_others_upd(2)) (use mine in auto)
  then have so: "same_others (rc_merchant_id c) d d1"
    using same_others_trans [OF _ same_others_trans [OF same_others_uuid same_others_insert(7) [OF ins]]] by (simp add: lab_audit_def)
  show ?thesis
  proof (rule that [of d1])
    fix s :: lab_state assume "lab_db s = d"
    then show "worker_write (Some c) s = s\<lparr>lab_results := lab_results s @ [1], lab_db := d1\<rparr>"
      using t ins u n c(2) by (simp add: worker_write_def Let_def case_prod_beta)
  next
    fix s :: lab_state assume "lab_db s = d1"
    then show "worker_write (Some c) s = s\<lparr>lab_results := lab_results s @ [0]\<rparr>"
      using t2 k dB c(2) by (simp add: worker_write_def Let_def case_prod_beta)
  qed (use g s so in \<open>simp_all add: d1_def fA\<close>)
qed

subsection \<open>Every schedule\<close>

text \<open>
  Where the two threads can be, \<open>c\<close> the row both read in \<open>d\<close> and \<open>d1\<close> the database after the first write.
\<close>

definition ended :: "lab_worker list \<Rightarrow> nat" where
  "ended ws = length (filter (\<lambda>w. w = Ended) ws)"

definition lab_inv :: "recovery_case option \<Rightarrow> db \<Rightarrow> db \<Rightarrow> lab_state \<Rightarrow> bool" where
  "lab_inv c d d1 s \<longleftrightarrow>
     (\<exists>a b. lab_workers s = [a, b]
        \<and> (lab_db s = d \<and> lab_results s = [] \<and> length (lab_errors s) = ended [a, b] \<and> {a, b} \<subseteq> {Starting, At_barrier c, Ended}
           \<or> lab_db s = d \<and> lab_results s = [] \<and> lab_errors s = [] \<and> a = Released c \<and> b = Released c
           \<or> lab_db s = d1 \<and> lab_results s = [1] \<and> lab_errors s = [] \<and> (a, b) \<in> {(Ended, Released c), (Released c, Ended)}
           \<or> lab_db s = d1 \<and> lab_results s = [1, 0] \<and> lab_errors s = [] \<and> a = Ended \<and> b = Ended))"

lemma less_2_cases: "i < Suc (Suc 0) \<longleftrightarrow> i = 0 \<or> i = Suc 0"
  by auto

lemma lab_inv_step:
  assumes w: "\<And>s :: lab_state. lab_db s = d \<Longrightarrow> worker_write c s = s\<lparr>lab_results := lab_results s @ [1], lab_db := d1\<rparr>"
    "\<And>s :: lab_state. lab_db s = d1 \<Longrightarrow> worker_write c s = s\<lparr>lab_results := lab_results s @ [0]\<rparr>"
    and g: "get_case d i = c" and inv: "lab_inv c d d1 s" and step: "worker_transition i x s = Some s'"
  shows "lab_inv c d d1 s'"
proof -
  from inv obtain a b where ws: "lab_workers s = [a, b]"
    and p: "lab_db s = d \<and> lab_results s = [] \<and> length (lab_errors s) = ended [a, b] \<and> {a, b} \<subseteq> {Starting, At_barrier c, Ended}
           \<or> lab_db s = d \<and> lab_results s = [] \<and> lab_errors s = [] \<and> a = Released c \<and> b = Released c
           \<or> lab_db s = d1 \<and> lab_results s = [1] \<and> lab_errors s = [] \<and> (a, b) \<in> {(Ended, Released c), (Released c, Ended)}
           \<or> lab_db s = d1 \<and> lab_results s = [1, 0] \<and> lab_errors s = [] \<and> a = Ended \<and> b = Ended"
    unfolding lab_inv_def by blast
  show ?thesis
  proof (cases x)
    case (Reads j)
    with step ws have j: "j = 0 \<and> a = Starting \<or> j = 1 \<and> b = Starting" and s': "s' = set_worker j (At_barrier (get_case (lab_db s) i)) s"
      by (auto simp: less_2_cases split: if_splits)
    with p have "lab_db s = d" "lab_results s = []" "length (lab_errors s) = ended [a, b]" "{a, b} \<subseteq> {Starting, At_barrier c, Ended}"
      by auto
    with j ws g show ?thesis unfolding s' by (elim disjE conjE) (simp_all add: lab_inv_def ended_def set_worker_def)
  next
    case Opens
    with step ws obtain p1 p2 where ab: "a = At_barrier p1" "b = At_barrier p2" and s': "s' = s\<lparr>lab_workers := [Released p1, Released p2]\<rparr>"
      by (auto split: lab_worker.splits)
    with p have "lab_db s = d" "lab_results s = []" "length (lab_errors s) = ended [a, b]" "p1 = c" "p2 = c" by auto
    with ab show ?thesis by (simp add: s' lab_inv_def ended_def)
  next
    case (Times_out j)
    with step ws obtain q where j: "j = 0 \<and> a = At_barrier q \<or> j = 1 \<and> b = At_barrier q"
      and s': "s' = set_worker j Ended (s\<lparr>lab_errors := lab_errors s @ [OtherException ''BrokenBarrierError'']\<rparr>)"
      by (auto simp: less_2_cases split: if_splits lab_worker.splits)
    with p have "lab_db s = d" "lab_results s = []" "length (lab_errors s) = ended [a, b]" "{a, b} \<subseteq> {Starting, At_barrier c, Ended}"
      by auto
    with j ws show ?thesis unfolding s' by (elim disjE conjE) (auto simp: lab_inv_def ended_def set_worker_def)
  next
    case (Writes j)
    with step ws obtain q where j: "j = 0 \<and> a = Released q \<or> j = 1 \<and> b = Released q" and s': "s' = set_worker j Ended (worker_write q s)"
      by (auto simp: less_2_cases split: if_splits lab_worker.splits)
    with p consider "lab_db s = d" "lab_results s = []" "lab_errors s = []" "a = Released c" "b = Released c"
      | "lab_db s = d1" "lab_results s = [1]" "lab_errors s = []" "a = Ended" "b = Released c" "j = 1"
      | "lab_db s = d1" "lab_results s = [1]" "lab_errors s = []" "a = Released c" "b = Ended" "j = 0"
      by auto
    then show ?thesis
    proof cases
      case 1
      with j have "q = c" by auto
      with j 1 w(1) [OF 1(1)] ws show ?thesis by (auto simp: s' lab_inv_def set_worker_def)
    next
      case 2
      with j have "q = c" by auto
      with 2 w(2) [OF 2(1)] ws show ?thesis by (simp add: s' lab_inv_def set_worker_def)
    next
      case 3
      with j have "q = c" by auto
      with 3 w(2) [OF 3(1)] ws show ?thesis by (simp add: s' lab_inv_def set_worker_def)
    qed
  qed
qed

lemma lab_inv_run:
  assumes w: "\<And>s :: lab_state. lab_db s = d \<Longrightarrow> worker_write c s = s\<lparr>lab_results := lab_results s @ [1], lab_db := d1\<rparr>"
    "\<And>s :: lab_state. lab_db s = d1 \<Longrightarrow> worker_write c s = s\<lparr>lab_results := lab_results s @ [0]\<rparr>"
    and g: "get_case d i = c" and inv: "lab_inv c d d1 s" and run: "lab_run i xs s = Some s'"
  shows "lab_inv c d d1 s'"
  using inv run
proof (induction xs arbitrary: s)
  case (Cons x xs)
  then obtain s1 where "worker_transition i x s = Some s1" "lab_run i xs s1 = Some s'" by (auto simp: bind_eq_Some_conv)
  with Cons.IH [OF lab_inv_step [OF w g Cons.prems(1)]] show ?case by simp
qed simp

subsection \<open>Cleaning up\<close>

lemma purged_same_others:
  assumes "same_others m a b"
  shows "purged m b = (purged m a)\<lparr>uuid4 := uuid4 b, uuid_drawn := uuid_drawn b, clock := clock b\<rparr>"
  using assms by (cases a, cases b) (simp add: purged_def same_others_def)

lemma purged_lab_case:
  assumes "db_ok d" and "unused d (draw d 0)"
  shows "purged (draw d 0) (with_lab_case name amount status version d) = d\<lparr>uuid_drawn := uuid_drawn d + 4\<rparr>"
proof -
  have "purged (draw d 0) d = d" by (rule purged_unknown) (use assms in \<open>simp_all add: unused_def\<close>)
  moreover have "purged (draw d 0) (with_lab_case name amount status version d) = (purged (draw d 0) d)\<lparr>uuid_drawn := uuid_drawn d + 4\<rparr>"
    by (simp add: purged_def with_lab_case_def Let_def new_merchant_def lab_payment_def lab_case_def)
  ultimately show ?thesis by simp
qed

lemma cleanup_purges:
  assumes ok: "db_ok d" and own: "\<And>p'. p' \<in> set (payments d) \<Longrightarrow> pay_id p' = p \<Longrightarrow> pay_merchant_id p' = m"
    "\<And>c. c \<in> set (recovery_cases d) \<Longrightarrow> rc_id c = i \<Longrightarrow> rc_merchant_id c = m"
    "\<And>a. a \<in> set (audit_events d) \<Longrightarrow> au_entity_id a = uuid_str i \<Longrightarrow> au_merchant_id a = m"
  shows "cleanup m p i d = purged m d"
proof -
  define d1 where "d1 = delete_audits (\<lambda>a. au_entity_id a = uuid_str i) d"
  define d2 where "d2 = delete_cases (\<lambda>c. rc_id c = i) d1"
  define d3 where "d3 = delete_payments (\<lambda>q. pay_id q = p) d2"
  have ok1: "db_ok d1" unfolding d1_def by (rule delete_audits_ok [OF ok])
  have ok2: "db_ok d2" unfolding d2_def by (rule delete_cases_ok [OF ok1])
  have ok3: "db_ok d3" unfolding d3_def by (rule delete_payments_ok [OF ok2])
  have "purged m d1 = purged m d" unfolding d1_def by (rule purged_delete_audits) (rule own(3))
  moreover have "purged m d2 = purged m d1"
    unfolding d2_def by (rule purged_delete_cases [OF ok1]) (use own(2) in \<open>simp add: d1_def delete_defs\<close>)
  moreover have "purged m d3 = purged m d2"
    unfolding d3_def by (rule purged_delete_payments [OF ok2]) (use own(1) in \<open>simp add: d2_def d1_def delete_defs\<close>)
  ultimately show ?thesis
    using delete_merchant_purges [OF ok3, of m] by (simp add: cleanup_def d3_def d2_def d1_def)
qed

lemma other_rows:
  assumes "same_others m a b"
  shows "p \<in> set (payments b) \<Longrightarrow> pay_merchant_id p \<noteq> m \<Longrightarrow> p \<in> set (payments a)"
    and "c \<in> set (recovery_cases b) \<Longrightarrow> rc_merchant_id c \<noteq> m \<Longrightarrow> c \<in> set (recovery_cases a)"
    and "u \<in> set (audit_events b) \<Longrightarrow> au_merchant_id u \<noteq> m \<Longrightarrow> u \<in> set (audit_events a)"
  using assms unfolding same_others_def by (metis (mono_tags, lifting) mem_Collect_eq set_filter)+

text \<open>What both threads find.\<close>

lemma lab_situation:
  assumes ok: "db_ok d" and fresh: "fresh_from 5 d"
    and m: "m = draw d 0" and p: "p = lab_payment (draw d 2) m (''pay_lab_'' @ uuid_hex (draw d 1)) 9999 (clock d)"
    and c: "c = lab_case (draw d 3) m p ELIGIBLE 1 (clock d)"
    and d0: "d0 = with_lab_case ''Concurrency Lab Merchant'' 9999 ELIGIBLE 1 d"
  shows "create_lab_case d = (Inr (m, pay_id p, rc_id c), d0)" and "db_ok d0" and "get_case d0 (rc_id c) = Some c"
    and "\<exists>d1. (\<forall>s :: lab_state. lab_db s = d0 \<longrightarrow> worker_write (Some c) s = s\<lparr>lab_results := lab_results s @ [1], lab_db := d1\<rparr>)
      \<and> (\<forall>s :: lab_state. lab_db s = d1 \<longrightarrow> worker_write (Some c) s = s\<lparr>lab_results := lab_results s @ [0]\<rparr>)
      \<and> get_case d1 (rc_id c) = Some (c\<lparr>rc_status := ANALYSING, rc_version := 2, rc_updated_at := clock d0\<rparr>)
      \<and> audit_events d1 = audit_events d0 @ [lab_audit (draw d0 0) c (clock d0)] \<and> db_step d0 d1
      \<and> same_others m d0 d1 \<and> uuid4 d1 = uuid4 d0 \<and> clock d1 = clock d0"
proof -
  have fr: "fresh_from (4 + 1) d" using fresh by simp
  have b: "bigint_ok 9999" "integer_ok 1" "integer_ok 2" by code_simp+
  note new = add_lab_case_total [OF ok fr, of "''Concurrency Lab Merchant''" 9999 1 _ _ ELIGIBLE, OF _ _ b(1) _ b(2) refl refl, folded m, folded p, folded c, folded d0]
  show mk: "create_lab_case d = (Inr (m, pay_id p, rc_id c), d0)" using new(1) by (simp add: create_lab_case_def in_transaction_def)
  show ok0: "db_ok d0" using new by simp
  have fr0: "fresh_from 1 d0" using new by simp
  show gc: "get_case d0 (rc_id c) = Some c" using fresh_from_unused [OF fresh, of 3]
    by (simp add: d0 with_lab_case_def Let_def get_defs get_row_append unused_def c p m lab_case_def)
  have gm: "get_merchant d0 (rc_merchant_id c) \<noteq> None"
    by (simp add: d0 with_lab_case_def Let_def get_defs get_row_None_iff new_merchant_def c m lab_case_def)
  have cv: "rc_status c = ELIGIBLE" "rc_version c = 1" "rc_merchant_id c = m" by (simp_all add: c lab_case_def)
  have au: "get_audit d0 (draw d0 0) = None" using fresh_from_unused [OF fr0, of 0] by (simp add: unused_def)
  obtain d1 where "\<And>s :: lab_state. lab_db s = d0 \<Longrightarrow> worker_write (Some c) s = s\<lparr>lab_results := lab_results s @ [1], lab_db := d1\<rparr>"
    "\<And>s :: lab_state. lab_db s = d1 \<Longrightarrow> worker_write (Some c) s = s\<lparr>lab_results := lab_results s @ [0]\<rparr>"
    and "get_case d1 (rc_id c) = Some (c\<lparr>rc_status := ANALYSING, rc_version := rc_version c + 1, rc_updated_at := clock d0\<rparr>)"
    "audit_events d1 = audit_events d0 @ [lab_audit (draw d0 0) c (clock d0)]" "db_step d0 d1" "merchants d1 = merchants d0"
    "same_others m d0 d1" "uuid4 d1 = uuid4 d0" "clock d1 = clock d0"
    using first_write [OF ok0 gc cv(1) _ gm au] b(3) cv by auto
  then show "\<exists>d1. (\<forall>s :: lab_state. lab_db s = d0 \<longrightarrow> worker_write (Some c) s = s\<lparr>lab_results := lab_results s @ [1], lab_db := d1\<rparr>)
      \<and> (\<forall>s :: lab_state. lab_db s = d1 \<longrightarrow> worker_write (Some c) s = s\<lparr>lab_results := lab_results s @ [0]\<rparr>)
      \<and> get_case d1 (rc_id c) = Some (c\<lparr>rc_status := ANALYSING, rc_version := 2, rc_updated_at := clock d0\<rparr>)
      \<and> audit_events d1 = audit_events d0 @ [lab_audit (draw d0 0) c (clock d0)] \<and> db_step d0 d1
      \<and> same_others m d0 d1 \<and> uuid4 d1 = uuid4 d0 \<and> clock d1 = clock d0"
    using cv by (intro exI [of _ d1]) simp
qed

text \<open>The regular schedule runs to its end, in either order of the writes.\<close>

lemma concurrent_lab_runs:
  assumes "db_ok d" and "fresh_from 5 d" and "(i, j) \<in> {(0, 1), (1, 0)}"
  shows "\<exists>s final passed d'. concurrent_lab d [Reads i, Reads j, Opens, Writes j, Writes i] = Some (s, final, passed, d')
    \<and> lab_workers s = [Ended, Ended] \<and> lab_errors s = []"
proof -
  define m where "m = draw d 0"
  define p where "p = lab_payment (draw d 2) m (''pay_lab_'' @ uuid_hex (draw d 1)) 9999 (clock d)"
  define c where "c = lab_case (draw d 3) m p ELIGIBLE 1 (clock d)"
  define d0 where "d0 = with_lab_case ''Concurrency Lab Merchant'' 9999 ELIGIBLE 1 d"
  note sit = lab_situation [OF assms(1,2) m_def p_def c_def d0_def]
  obtain d1 where w: "\<forall>s :: lab_state. lab_db s = d0 \<longrightarrow> worker_write (Some c) s = s\<lparr>lab_results := lab_results s @ [1], lab_db := d1\<rparr>"
      "\<forall>s :: lab_state. lab_db s = d1 \<longrightarrow> worker_write (Some c) s = s\<lparr>lab_results := lab_results s @ [0]\<rparr>"
    using sit(4) by blast
  have "\<exists>s. lab_run (rc_id c) [Reads i, Reads j, Opens, Writes j, Writes i] (lab_start d0) = Some s
      \<and> lab_workers s = [Ended, Ended] \<and> lab_errors s = []"
    using assms(3) sit(3) by (auto simp: lab_start_def set_worker_def w)
  then show ?thesis by (auto simp: concurrent_lab_def sit(1))
qed

text \<open>
  C38: the concurrency lab. Under every schedule of its two threads, on every consistent database with
  fresh identifiers, once both threads have ended exactly one of two things has happened: either one
  transition succeeded and one conflicted, the case is \<open>ANALYSING\<close> in version 2 and the lab reports
  success, or the barrier timed out, both threads reported an error, and the case is untouched. Never
  did both transitions succeed. The cleanup leaves every table as it was.
\<close>

theorem concurrent_lab_verdict:
  assumes ok: "db_ok d" and fresh: "fresh_from 5 d" and noaudit: "lab_audit_rows (draw d 3) d = []"
    and run: "concurrent_lab d schedule = Some (s, final, passed, d')" and fin: "lab_workers s = [Ended, Ended]"
  shows "(lab_errors s = [] \<and> lab_results s = [1, 0] \<and> final = Some (ANALYSING, 2) \<and> passed
      \<or> length (lab_errors s) = 2 \<and> lab_results s = [] \<and> final = Some (ELIGIBLE, 1) \<and> \<not> passed)
    \<and> d' = d\<lparr>uuid_drawn := uuid_drawn (lab_db s)\<rparr>"
proof -
  let ?d0 = "with_lab_case ''Concurrency Lab Merchant'' 9999 ELIGIBLE 1 d"
  define m where "m = draw d 0"
  define p where "p = lab_payment (draw d 2) m (''pay_lab_'' @ uuid_hex (draw d 1)) 9999 (clock d)"
  define c where "c = lab_case (draw d 3) m p ELIGIBLE 1 (clock d)"
  note sit = lab_situation [OF ok fresh m_def p_def c_def refl]
  note mk = sit(1) and ok0 = sit(2) and gc = sit(3)
  obtain d1 where wr: "\<forall>s :: lab_state. lab_db s = ?d0 \<longrightarrow> worker_write (Some c) s = s\<lparr>lab_results := lab_results s @ [1], lab_db := d1\<rparr>"
      "\<forall>s :: lab_state. lab_db s = d1 \<longrightarrow> worker_write (Some c) s = s\<lparr>lab_results := lab_results s @ [0]\<rparr>"
    and d1: "get_case d1 (rc_id c) = Some (c\<lparr>rc_status := ANALYSING, rc_version := 2, rc_updated_at := clock ?d0\<rparr>)"
      "audit_events d1 = audit_events ?d0 @ [lab_audit (draw ?d0 0) c (clock ?d0)]" "db_step ?d0 d1"
      "same_others m ?d0 d1" "uuid4 d1 = uuid4 ?d0" "clock d1 = clock ?d0"
    using sit(4) by blast
  note w = wr [rule_format]
  note un = fresh_from_unused [OF fresh]
  have cv: "rc_status c = ELIGIBLE" "rc_version c = 1" "rc_id c = draw d 3" by (simp_all add: c_def lab_case_def)
  from run obtain s0 where sched: "lab_run (rc_id c) schedule (lab_start ?d0) = Some s"
    and res: "final = map_option (\<lambda>c. (rc_status c, rc_version c)) (get_case (lab_db s) (rc_id c))" "passed = lab_passed (rc_id c) s"
      "d' = cleanup m (pay_id p) (rc_id c) (lab_db s)"
    by (auto simp: concurrent_lab_def mk)
  have "lab_inv (Some c) ?d0 d1 (lab_start ?d0)" by (simp add: lab_inv_def lab_start_def ended_def)
  from lab_inv_run [OF w gc this sched] fin
  have ends: "lab_db s = ?d0 \<and> lab_results s = [] \<and> length (lab_errors s) = 2
      \<or> lab_db s = d1 \<and> lab_results s = [1, 0] \<and> lab_errors s = []"
    unfolding lab_inv_def by (auto simp: ended_def)
  then consider "lab_db s = ?d0" "lab_results s = []" "length (lab_errors s) = 2"
    | "lab_db s = d1" "lab_results s = [1, 0]" "lab_errors s = []" by blast
  then have outcome: "(lab_errors s = [] \<and> lab_results s = [1, 0] \<and> final = Some (ANALYSING, 2) \<and> passed
      \<or> length (lab_errors s) = 2 \<and> lab_results s = [] \<and> final = Some (ELIGIBLE, 1) \<and> \<not> passed)"
  proof cases
    case 1
    then show ?thesis using gc cv res by (simp add: lab_passed_def)
  next
    case 2
    have "audit_events ?d0 = audit_events d" by (simp add: with_lab_case_def Let_def)
    then show ?thesis using 2 d1(1,2) cv res noaudit by (simp add: lab_passed_def lab_audit_rows_def lab_audit_def)
  qed
  have "lab_db s = ?d0 \<or> lab_db s = d1" using ends by auto
  moreover have "uuid4 ?d0 = uuid4 d" "clock ?d0 = clock d" by (simp_all add: with_lab_case_def Let_def)
  ultimately have so: "same_others m ?d0 (lab_db s)" and oks: "db_ok (lab_db s)" and env: "uuid4 (lab_db s) = uuid4 d" "clock (lab_db s) = clock d"
    using d1 ok0 db_step_ok by auto
  have t0: "payments ?d0 = payments d @ [p]" "recovery_cases ?d0 = recovery_cases d @ [c]" "audit_events ?d0 = audit_events d"
    by (simp_all add: with_lab_case_def Let_def c_def p_def m_def)
  have "cleanup m (pay_id p) (rc_id c) (lab_db s) = purged m (lab_db s)"
  proof (rule cleanup_purges [OF oks], rule_tac [!] ccontr)
    fix q assume "q \<in> set (payments (lab_db s))" and id: "pay_id q = pay_id p" and o: "pay_merchant_id q \<noteq> m"
    then have "q \<in> set (payments d @ [p])" using other_rows(1) [OF so] t0 by simp
    then show False using id o un [of 2] imageI [of q "set (payments d)" pay_id]
      by (auto simp: p_def lab_payment_def unused_def get_defs get_row_None_iff)
  next
    fix q assume "q \<in> set (recovery_cases (lab_db s))" and id: "rc_id q = rc_id c" and o: "rc_merchant_id q \<noteq> m"
    then have "q \<in> set (recovery_cases d @ [c])" using other_rows(2) [OF so] t0 by simp
    then show False using id o un [of 3] imageI [of q "set (recovery_cases d)" rc_id]
      by (auto simp: c_def lab_case_def unused_def get_defs get_row_None_iff)
  next
    fix q assume "q \<in> set (audit_events (lab_db s))" and id: "au_entity_id q = uuid_str (rc_id c)" and o: "au_merchant_id q \<noteq> m"
    then have "q \<in> set (audit_events d)" using other_rows(3) [OF so] t0 by simp
    then show False using id noaudit by (auto simp: cv lab_audit_rows_def filter_empty_conv)
  qed
  also have "\<dots> = (purged m ?d0)\<lparr>uuid4 := uuid4 d, uuid_drawn := uuid_drawn (lab_db s), clock := clock d\<rparr>"
    using purged_same_others [OF so] env by simp
  also have "\<dots> = d\<lparr>uuid_drawn := uuid_drawn (lab_db s)\<rparr>"
    using purged_lab_case [OF ok un [of 0]] by (simp add: m_def)
  finally show ?thesis using outcome res(3) by simp
qed

end
