(* ===== verification/Stale_Execution.thy ===== *)
theory Stale_Execution
  imports Labs Announcements
begin

text \<open>
  The stale-execution lab, \<^verbatim>\<open>src/labs/stale_execution_lab.py\<close>: an approved action of a case that recovers
  before the executor gets to it. \<open>AssertionError\<close> stands for a failed \<open>assert\<close>.
\<close>

subsection \<open>Definitions\<close>

definition stale_action :: "uuid \<Rightarrow> uuid \<Rightarrow> recovery_case \<Rightarrow> int \<Rightarrow> recovery_action" where
  "stale_action h u c t =
     \<lparr>ra_id = u, ra_merchant_id = rc_merchant_id c, ra_recovery_case_id = rc_id c, ra_action_type = CREATE_PAYMENT_LINK,
      ra_status = A_APPROVED, ra_idempotency_key = ''lab:'' @ uuid_hex h, ra_attempt_number = 1, ra_provider_reference = None,
      ra_scheduled_at = None, ra_executed_at = None, ra_failure_reason = None, ra_created_at = t, ra_updated_at = t\<rparr>"

definition stale_setup :: "db \<Rightarrow> ((uuid \<times> uuid \<times> uuid \<times> uuid) \<times> db) res" where
  "stale_setup d =
     res_bind (add_lab_case ''Stale Execution Lab'' 5000 ACTION_SCHEDULED 3 d) (\<lambda>((m, p, c), d1).
     let (h, d2) = new_uuid d1; (u, d3) = new_uuid d2 in
     res_bind (insert_action (stale_action h u c (clock d)) d3) (\<lambda>d4. Inr ((m, pay_id p, rc_id c, u), d4)))"

definition recover_case :: "uuid \<Rightarrow> db \<Rightarrow> (unit \<times> db) res" where
  "recover_case i d =
     (case get_case d i of
        None \<Rightarrow> Inl (OtherException ''AttributeError'')
      | Some c \<Rightarrow> res_bind (flush_case (c\<lparr>rc_status := RECOVERED\<rparr>) d) (\<lambda>d1. Inr ((), d1)))"

definition stale_cleanup :: "uuid \<Rightarrow> uuid \<Rightarrow> uuid \<Rightarrow> uuid \<Rightarrow> db \<Rightarrow> db" where
  "stale_cleanup m p i a d =
     delete_merchants (\<lambda>r. m_id r = m) (delete_payments (\<lambda>q. pay_id q = p) (delete_cases (\<lambda>c. rc_id c = i)
       (delete_actions (\<lambda>x. ra_id x = a) d)))"

definition stale_execution_lab :: "exec_env \<Rightarrow> exec_rivals \<Rightarrow> db \<Rightarrow> json_obj res \<times> db" where
  "stale_execution_lab env rv d =
     (case in_transaction stale_setup d of
        (Inl e, d1) \<Rightarrow> (Inl e, d1)
      | (Inr (m, p, i, a), d1) \<Rightarrow>
          (case in_transaction (recover_case i) d1 of
             (Inl e, d2) \<Rightarrow> (Inl e, d2)
           | (Inr _, d2) \<Rightarrow>
               (case execute_scheduled_action_from_outbox env rv [(''recovery_action_id'', JStr (uuid_str a))] d2 of
                  (Inl e, d3) \<Rightarrow> (Inl e, d3)
                | (Inr result, d3) \<Rightarrow>
                    (case (get_case d3 i, get_action d3 a) of
                       (Some c, Some x) \<Rightarrow>
                         if rc_status c = RECOVERED \<and> ra_status x = A_CANCELLED
                         then (Inr result, stale_cleanup m p i a d3)
                         else (Inl (OtherException ''AssertionError''), d3)
                     | _ \<Rightarrow> (Inl (OtherException ''AttributeError''), d3)))))"

subsection \<open>Cleaning up\<close>

lemma stale_cleanup_purges:
  assumes ok: "db_ok d" and own: "\<And>q. q \<in> set (payments d) \<Longrightarrow> pay_id q = p \<Longrightarrow> pay_merchant_id q = m"
    "\<And>c. c \<in> set (recovery_cases d) \<Longrightarrow> rc_id c = i \<Longrightarrow> rc_merchant_id c = m"
    "\<And>x. x \<in> set (recovery_actions d) \<Longrightarrow> ra_id x = a \<Longrightarrow> ra_merchant_id x = m"
  shows "stale_cleanup m p i a d = purged m d"
proof -
  define d1 where "d1 = delete_actions (\<lambda>x. ra_id x = a) d"
  define d2 where "d2 = delete_cases (\<lambda>c. rc_id c = i) d1"
  define d3 where "d3 = delete_payments (\<lambda>q. pay_id q = p) d2"
  have ok1: "db_ok d1" unfolding d1_def by (rule delete_actions_ok [OF ok])
  have ok2: "db_ok d2" unfolding d2_def by (rule delete_cases_ok [OF ok1])
  have ok3: "db_ok d3" unfolding d3_def by (rule delete_payments_ok [OF ok2])
  have "purged m d1 = purged m d" unfolding d1_def by (rule purged_delete_actions) (rule own(3))
  moreover have "purged m d2 = purged m d1"
    unfolding d2_def by (rule purged_delete_cases [OF ok1]) (use own(2) in \<open>simp add: d1_def delete_defs\<close>)
  moreover have "purged m d3 = purged m d2"
    unfolding d3_def by (rule purged_delete_payments [OF ok2]) (use own(1) in \<open>simp add: d2_def d1_def delete_defs\<close>)
  ultimately show ?thesis
    using delete_merchant_purges [OF ok3, of m] by (simp add: stale_cleanup_def d3_def d2_def d1_def)
qed

subsection \<open>The executor on an action of a terminal case\<close>

lemma executor_audit_merchant:
  assumes "get_merchant d (rc_merchant_id c) \<noteq> None" and "get_audit d (uuid4 d (uuid_drawn d)) = None" and "length ev \<le> 128"
  shows "\<exists>e. executor_audit c a ev p d = Inr (d\<lparr>uuid_drawn := Suc (uuid_drawn d), audit_events := audit_events d @ [e]\<rparr>)
     \<and> au_merchant_id e = rc_merchant_id c"
proof -
  obtain e where e: "executor_audit c a ev p d = Inr (d\<lparr>uuid_drawn := Suc (uuid_drawn d), audit_events := audit_events d @ [e]\<rparr>)"
    using executor_audit_total [OF assms] by blast
  then have "au_merchant_id e = rc_merchant_id c"
    by (auto simp: executor_audit_def new_uuid_def dest!: insert_Inr(7) dest: arg_cong [of _ _ audit_events])
  with e show ?thesis by blast
qed

text \<open>It gives the merchant his default policy, cancels the action and writes an audit entry.\<close>

lemma stale_action_cancelled:
  assumes m: "get_merchant d (rc_merchant_id c) \<noteq> None" and a: "get_action d a = Some x" "ra_status x = A_APPROVED"
    and c: "get_case d (ra_recovery_case_id x) = Some c" "is_terminal (rc_status c)"
    and pol: "policies_of (rc_merchant_id c) d = []" "get_policy d (draw d 0) = None" and au: "get_audit d (draw d 1) = None"
    and ok: "db_ok d"
  obtains e where "execute_scheduled_action_from_outbox env no_exec_rivals [(''recovery_action_id'', JStr (uuid_str a))] d =
      (Inr [(''status'', JStr ''cancelled''), (''reason'', JStr ''terminal_state_protected'')],
       d\<lparr>uuid_drawn := uuid_drawn d + 2, merchant_policies := merchant_policies d @ [default_policy (draw d 0) (rc_merchant_id c) (clock d)],
         recovery_actions := upd_where (\<lambda>y. ra_id y = a \<and> ra_status y = A_APPROVED)
           (\<lambda>y. y\<lparr>ra_status := A_CANCELLED, ra_updated_at := clock d\<rparr>) (recovery_actions d),
         audit_events := audit_events d @ [e]\<rparr>)" and "au_merchant_id e = rc_merchant_id c"
proof -
  define d1 where "d1 = d\<lparr>uuid_drawn := uuid_drawn d + 1, merchant_policies := merchant_policies d @ [default_policy (draw d 0) (rc_merchant_id c) (clock d)]\<rparr>"
  obtain mr where "get_merchant d (rc_merchant_id c) = Some mr" using m by auto
  then have "get_or_create_default_policy (\<lambda>d. d) (rc_merchant_id c) d = Inr (default_policy (draw d 0) (rc_merchant_id c) (clock d), d1)"
    using pol by (simp add: get_or_create_default_policy_def one_or_none_def new_uuid_def insert_default_policy draw_def Let_def get_defs
        policies_of_def d1_def)
  moreover define dec where "dec = claim_decision (default_policy (draw d 0) (rc_merchant_id c) (clock d)) c x d1"
  have dec: "pd_reason dec = ''terminal_state_protected''"
    using c(2) by (simp add: dec_def claim_decision_def evaluate_policy_def build_policy_input_def Let_def)
  moreover have x: "ra_id x = a" using get_row_SomeD [of ra_id a "recovery_actions d" x] a(1) by (simp add: get_defs)
  define d2 where "d2 = d1\<lparr>recovery_actions := upd_where (\<lambda>y. ra_id y = a \<and> ra_status y = A_APPROVED)
           (\<lambda>y. y\<lparr>ra_status := A_CANCELLED, ra_updated_at := clock d\<rparr>) (recovery_actions d)\<rparr>"
  have "count_where (\<lambda>y. ra_id y = a \<and> ra_status y = A_APPROVED) (recovery_actions d) = 1"
    unfolding count_where_key [OF db_ok_distinct(4) [OF ok]] using a by (simp add: get_defs)
  then have upd: "atomic_action_transition (ra_id x) A_APPROVED A_CANCELLED d1 = (1, d2)"
    by (simp add: atomic_action_transition_def update_actions_def x d1_def d2_def)
  have "get_merchant d2 (rc_merchant_id c) \<noteq> None" "get_audit d2 (uuid4 d2 (uuid_drawn d2)) = None"
    using m au by (simp_all add: get_defs d2_def d1_def draw_def)
  from executor_audit_merchant [OF this, of "''recovery_action.cancelled''" x
      "[(''reason'', JStr ''terminal_state_protected''), (''case_status'', JStr (recovery_case_status_value (rc_status c)))]"]
  obtain e where e: "executor_audit c x ''recovery_action.cancelled''
      [(''reason'', JStr ''terminal_state_protected''), (''case_status'', JStr (recovery_case_status_value (rc_status c)))] d2
      = Inr (d2\<lparr>uuid_drawn := Suc (uuid_drawn d2), audit_events := audit_events d2 @ [e]\<rparr>)" "au_merchant_id e = rc_merchant_id c"
    by auto
  have "claim_action no_exec_rivals a d = Inr (Not_claimed [(''status'', JStr ''cancelled''), (''reason'', JStr ''terminal_state_protected'')],
      d2\<lparr>uuid_drawn := Suc (uuid_drawn d2), audit_events := audit_events d2 @ [e]\<rparr>)"
    using a(1) c calculation upd e(1) dec
    by (simp add: claim_action_def Let_def dec_def [symmetric] claim_allowed_def cancel_action_def)
  then show ?thesis
    by (intro that [OF _ e(2)]) (simp add: execute_scheduled_action_from_outbox_def in_transaction_def d2_def d1_def)
qed

subsection \<open>What the lab shows\<close>

text \<open>The rows of the lab after the executor ran, on top of a database \<open>d\<close>.\<close>

definition with_stale :: "uuid \<Rightarrow> payment \<Rightarrow> recovery_case \<Rightarrow> recovery_action \<Rightarrow> merchant_policy \<Rightarrow> audit_event \<Rightarrow> db \<Rightarrow> db" where
  "with_stale m p c x pol e d =
     d\<lparr>uuid_drawn := uuid_drawn d + 8, merchants := merchants d @ [new_merchant m ''Stale Execution Lab'' (clock d)],
       payments := payments d @ [p], recovery_cases := recovery_cases d @ [c], recovery_actions := recovery_actions d @ [x],
       merchant_policies := merchant_policies d @ [pol], audit_events := audit_events d @ [e]\<rparr>"

lemma stale_cleans_up:
  assumes ok: "db_ok (with_stale m p c x pol e d)" "db_ok d" and m: "get_merchant d m = None"
    and own: "pay_merchant_id p = m" "rc_merchant_id c = m" "ra_merchant_id x = m" "mp_merchant_id pol = m" "au_merchant_id e = m"
    and new: "get_payment d (pay_id p) = None" "get_case d (rc_id c) = None" "get_action d (ra_id x) = None"
  shows "stale_cleanup m (pay_id p) (rc_id c) (ra_id x) (with_stale m p c x pol e d) = d\<lparr>uuid_drawn := uuid_drawn d + 8\<rparr>"
proof -
  have "stale_cleanup m (pay_id p) (rc_id c) (ra_id x) (with_stale m p c x pol e d) = purged m (with_stale m p c x pol e d)"
  proof (rule stale_cleanup_purges [OF ok(1)])
    have "\<forall>q \<in> set (payments d). pay_id q \<noteq> pay_id p" "\<forall>q \<in> set (recovery_cases d). rc_id q \<noteq> rc_id c"
      "\<forall>q \<in> set (recovery_actions d). ra_id q \<noteq> ra_id x"
      using new by (metis get_defs(2) get_row_None_iff imageI, metis get_defs(3) get_row_None_iff imageI, metis get_defs(4) get_row_None_iff imageI)
    note fresh = this
    show "q \<in> set (payments (with_stale m p c x pol e d)) \<Longrightarrow> pay_id q = pay_id p \<Longrightarrow> pay_merchant_id q = m" for q
      using fresh(1) own(1) by (auto simp: with_stale_def)
    show "q \<in> set (recovery_cases (with_stale m p c x pol e d)) \<Longrightarrow> rc_id q = rc_id c \<Longrightarrow> rc_merchant_id q = m" for q
      using fresh(2) own(2) by (auto simp: with_stale_def)
    show "q \<in> set (recovery_actions (with_stale m p c x pol e d)) \<Longrightarrow> ra_id q = ra_id x \<Longrightarrow> ra_merchant_id q = m" for q
      using fresh(3) own(3) by (auto simp: with_stale_def)
  qed
  also have "\<dots> = (purged m d)\<lparr>uuid_drawn := uuid_drawn d + 8\<rparr>"
    using own by (simp add: purged_def with_stale_def new_merchant_def)
  finally show ?thesis using purged_unknown [OF ok(2) m] by simp
qed

text \<open>The key of the lab's action is not a key the application makes.\<close>

lemma lab_key_unused: "canonical_keys d \<Longrightarrow> ''lab:'' @ s \<notin> ra_idempotency_key ` set (recovery_actions d)"
  by (force simp: canonical_keys_def list_all_iff canonical_key_def recovery_action_idempotency_key_def)

text \<open>
  The stale-execution lab. On every consistent database with fresh identifiers, whatever the
  settings and the provider, the executor answers that the action was cancelled because its case is in a
  protected terminal state; both assertions of the lab hold; and the cleanup leaves every table as it
  was, although the executor gave the merchant a policy and wrote an audit entry.
\<close>

theorem stale_execution_lab_passes:
  assumes ok: "db_ok d" and keys: "canonical_keys d" and fresh: "fresh_from 8 d"
  shows "stale_execution_lab env no_exec_rivals d =
    (Inr [(''status'', JStr ''cancelled''), (''reason'', JStr ''terminal_state_protected'')], d\<lparr>uuid_drawn := uuid_drawn d + 8\<rparr>)"
proof -
  define m where "m = draw d 0"
  define p where "p = lab_payment (draw d 2) m (''pay_lab_'' @ uuid_hex (draw d 1)) 5000 (clock d)"
  define c where "c = lab_case (draw d 3) m p ACTION_SCHEDULED 3 (clock d)"
  define dA where "dA = with_lab_case ''Stale Execution Lab'' 5000 ACTION_SCHEDULED 3 d"
  note un = fresh_from_unused [OF fresh] and ne = fresh_from_eq [OF fresh]
  have fr: "fresh_from (4 + 4) d" using fresh by simp
  have b: "bigint_ok 5000" "integer_ok 3" by code_simp+
  note new = add_lab_case_total [OF ok fr, of "''Stale Execution Lab''" 5000 3 _ _ ACTION_SCHEDULED, OF _ _ b(1) _ b(2) refl refl,
      folded m_def, folded p_def, folded c_def, folded dA_def]
  have okA: "db_ok dA" and frA: "fresh_from 4 dA" and mk: "add_lab_case ''Stale Execution Lab'' 5000 ACTION_SCHEDULED 3 d = Inr ((m, p, c), dA)"
    using new by simp_all
  have tA: "merchants dA = merchants d @ [new_merchant m ''Stale Execution Lab'' (clock d)]" "payments dA = payments d @ [p]"
    "recovery_cases dA = recovery_cases d @ [c]" "recovery_actions dA = recovery_actions d" "merchant_policies dA = merchant_policies d"
    "audit_events dA = audit_events d" "uuid_drawn dA = uuid_drawn d + 4" "uuid4 dA = uuid4 d" "clock dA = clock d"
    by (simp_all add: dA_def with_lab_case_def Let_def m_def p_def c_def)
  have eqA: "dA = d\<lparr>uuid_drawn := uuid_drawn d + 4, merchants := merchants d @ [new_merchant m ''Stale Execution Lab'' (clock d)],
      payments := payments d @ [p], recovery_cases := recovery_cases d @ [c]\<rparr>"
    by (simp add: dA_def with_lab_case_def Let_def m_def p_def c_def)
  have cc: "rc_id c = draw d 3" "rc_merchant_id c = m" "pay_id p = draw d 2" "pay_merchant_id p = m"
    by (simp_all add: c_def p_def lab_case_def lab_payment_def)
  have dr: "draw dA n = draw d (4 + n)" for n by (simp add: draw_def tA ac_simps)
  define x where "x = stale_action (draw d 4) (draw d 5) c (clock d)"
  have xx: "ra_id x = draw d 5" "ra_merchant_id x = m" "ra_recovery_case_id x = rc_id c" "ra_status x = A_APPROVED"
    by (simp_all add: x_def stale_action_def cc)
  define dB where "dB = dA\<lparr>uuid_drawn := uuid_drawn d + 6, recovery_actions := recovery_actions d @ [x]\<rparr>"
  let ?dA2 = "snd (new_uuid (snd (new_uuid dA)))"
  have gc: "get_case ?dA2 (ra_recovery_case_id x) = Some c"
    using un [of 3] by (simp add: get_defs tA get_row_append unused_def cc xx new_uuid_def)
  have "action_row_check x = Inr ()"
    by (simp add: action_row_check_def x_def stale_action_def varchar_ok_def opt_varchar_ok_def integer_ok_def)
  moreover have "get_action ?dA2 (ra_id x) = None" using un [of 5] by (simp add: get_defs tA unused_def xx new_uuid_def)
  moreover have "get_merchant ?dA2 (ra_merchant_id x) \<noteq> None" by (simp add: get_defs get_row_None_iff tA xx new_merchant_def new_uuid_def)
  moreover have "\<not> list_ex (\<lambda>q. ra_idempotency_key q = ra_idempotency_key x \<or> ra_recovery_case_id q = ra_recovery_case_id x
      \<and> ra_action_type q = ra_action_type x \<and> ra_attempt_number q = ra_attempt_number x) (recovery_actions ?dA2)"
    using lab_key_unused [OF keys, of "uuid_hex (draw d 4)"] no_rows_of(3) [OF ok un [of 3]]
    by (auto simp: list_ex_iff tA xx cc new_uuid_def image_iff x_def stale_action_def)
  ultimately have ins: "insert_action x ?dA2 = Inr dB"
    using gc unfolding insert_action_def by (simp add: dB_def tA new_uuid_def)
  have okB: "db_ok dB"
    using insert_action_step [OF ins gc] okA new_uuid_step db_step_ok xx cc by metis
  define dA1 dA2 where "dA1 = snd (new_uuid dA)" and "dA2 = snd (new_uuid dA1)"
  have u: "new_uuid dA = (draw d 4, dA1)" "new_uuid dA1 = (draw d 5, dA2)"
    using dr [of 0] dr [of 1] by (simp_all add: new_uuid_def draw_def tA dA1_def dA2_def)
  have init: "stale_setup d = Inr ((m, pay_id p, rc_id c, ra_id x), dB)"
    unfolding stale_setup_def mk res_bind.simps prod.case u Let_def x_def [symmetric] ins [folded dA1_def, folded dA2_def] xx(1) by simp
  define c' where "c' = c\<lparr>rc_status := RECOVERED, rc_updated_at := clock d\<rparr>"
  define dC where "dC = dB\<lparr>recovery_cases := recovery_cases d @ [c']\<rparr>"
  have rowc: "case_row_check c = Inr ()" using okB by (simp add: db_ok_def cases_ok_def dB_def tA)
  have "\<forall>q \<in> set (recovery_cases d). \<not> rc_id q = rc_id c" using unused_neq(2) [OF un [of 3]] by (simp add: cc)
  then have rec: "recover_case (rc_id c) dB = Inr ((), dC)"
    using rowc gc upd_where_none [of "recovery_cases d" "\<lambda>q. rc_id q = rc_id c"]
    by (simp add: recover_case_def flush_case_def dC_def c'_def dB_def tA get_defs xx new_uuid_def)
  have okC: "db_ok dC" using okB by (auto simp: db_ok_def table_ok_defs dC_def c'_def dB_def tA)
  have gm: "get_merchant dC (rc_merchant_id c') \<noteq> None" by (simp add: get_defs get_row_None_iff dC_def dB_def tA c'_def cc new_merchant_def)
  have ga: "get_action dC (ra_id x) = Some x" using un [of 5] by (simp add: get_defs dC_def dB_def get_row_append unused_def xx)
  have gcC: "get_case dC (ra_recovery_case_id x) = Some c'"
    using un [of 3] by (simp add: get_defs dC_def get_row_append unused_def xx cc c'_def)
  have pol: "policies_of (rc_merchant_id c') dC = []"
    using no_rows_of(4) [OF ok un [of 0]] by (auto simp: policies_of_def filter_empty_conv dC_def dB_def tA c'_def cc m_def image_iff)
  have drC: "draw dC 0 = draw d 6" "draw dC 1 = draw d 7" by (simp_all add: draw_def dC_def dB_def tA numeral_eq_Suc)
  have "get_policy dC (draw dC 0) = None" "get_audit dC (draw dC 1) = None"
    using un [of 6] un [of 7] unfolding drC by (simp_all add: get_defs unused_def dC_def dB_def tA)
  from stale_action_cancelled [OF gm ga xx(4) gcC _ pol this okC, of env]
  obtain e where run: "execute_scheduled_action_from_outbox env no_exec_rivals [(''recovery_action_id'', JStr (uuid_str (ra_id x)))] dC =
      (Inr [(''status'', JStr ''cancelled''), (''reason'', JStr ''terminal_state_protected'')],
       dC\<lparr>uuid_drawn := uuid_drawn dC + 2, merchant_policies := merchant_policies dC @ [default_policy (draw dC 0) (rc_merchant_id c') (clock dC)],
         recovery_actions := upd_where (\<lambda>y. ra_id y = ra_id x \<and> ra_status y = A_APPROVED)
           (\<lambda>y. y\<lparr>ra_status := A_CANCELLED, ra_updated_at := clock dC\<rparr>) (recovery_actions dC),
         audit_events := audit_events dC @ [e]\<rparr>)" and e: "au_merchant_id e = rc_merchant_id c'"
    by (auto simp: c'_def is_terminal_iff)
  define x' where "x' = x\<lparr>ra_status := A_CANCELLED, ra_updated_at := clock d\<rparr>"
  define dD where "dD = with_stale m p c' x' (default_policy (draw d 6) m (clock d)) e d"
  have "\<forall>q \<in> set (recovery_actions d). \<not> (ra_id q = ra_id x \<and> ra_status q = A_APPROVED)"
    using unused_neq(3) [OF un [of 5]] by (simp add: xx)
  then have run: "execute_scheduled_action_from_outbox env no_exec_rivals [(''recovery_action_id'', JStr (uuid_str (ra_id x)))] dC =
      (Inr [(''status'', JStr ''cancelled''), (''reason'', JStr ''terminal_state_protected'')], dD)"
    unfolding run drC using upd_where_none [of "recovery_actions d" "\<lambda>y. ra_id y = ra_id x \<and> ra_status y = A_APPROVED"]
    by (simp add: dD_def with_stale_def dC_def dB_def eqA c'_def cc x'_def xx add.commute)
  have "db_step dC dD" using execute_scheduled_action_step [OF no_exec_rivals_ok] run by (metis snd_conv)
  then have okD: "db_ok dD" using okC db_step_ok by blast
  have x': "ra_id x' = ra_id x" "ra_status x' = A_CANCELLED" "rc_id c' = rc_id c" "rc_status c' = RECOVERED" by (simp_all add: x'_def c'_def)
  have "stale_cleanup m (pay_id p) (rc_id c') (ra_id x') dD = d\<lparr>uuid_drawn := uuid_drawn d + 8\<rparr>"
    unfolding dD_def
    by (rule stale_cleans_up [OF okD [unfolded dD_def] ok])
      (use un [of 0] un [of 2] un [of 3] un [of 5] e in \<open>simp_all add: unused_def m_def cc xx x'_def c'_def default_policy_def\<close>)
  moreover have "get_case dD (rc_id c) = Some c'" "get_action dD (ra_id x) = Some x'"
    using un [of 3] un [of 5] by (simp_all add: dD_def with_stale_def get_defs get_row_append unused_def x' cc xx)
  ultimately show ?thesis
    by (simp add: stale_execution_lab_def in_transaction_def init rec run x')
qed

end
