(* ===== verification/Dual_Write.thy ===== *)
theory Dual_Write
  imports Labs Webhook_Handlers
begin

text \<open>
  The outbox lab, \<^verbatim>\<open>src/labs/dual_write_lab.py\<close>: a payment written by itself, with the announcement left
  to a queue that fails, and a payment written together with its outbox row.
\<close>

subsection \<open>Definitions\<close>

definition publish_to_queue :: "uuid \<Rightarrow> unit res" where
  "publish_to_queue payment_id = Inl (OtherException ''RuntimeError'')"

definition naive_write :: "uuid \<Rightarrow> db \<Rightarrow> (payment \<times> db) res" where
  "naive_write m d = add_lab_payment m ''pay_naive_'' 1000 d"

definition failed_payment_event :: "uuid \<Rightarrow> uuid \<Rightarrow> payment \<Rightarrow> int \<Rightarrow> outbox_event" where
  "failed_payment_event u m p t =
     new_outbox_event u m ''payment'' (uuid_str (pay_id p)) ''payment.failed'' (''payment.failed:'' @ uuid_str (pay_id p))
       [(''provider_payment_id'', JStr (pay_provider_payment_id p)), (''amount_minor'', JInt (pay_amount_minor p)),
        (''currency'', JStr (pay_currency p))] t"

definition outbox_write :: "uuid \<Rightarrow> db \<Rightarrow> (payment \<times> db) res" where
  "outbox_write m d =
     res_bind (add_lab_payment m ''pay_outbox_'' 2000 d) (\<lambda>(p, d1).
     let (u, d2) = new_uuid d1 in
     res_bind (insert_outbox (failed_payment_event u m p (clock d2)) d2) (\<lambda>d3. Inr (p, d3)))"

definition rows_for :: "uuid \<Rightarrow> db \<Rightarrow> outbox_event list" where
  "rows_for payment_id d = filter (\<lambda>b. ob_aggregate_id b = uuid_str payment_id) (outbox_events d)"

definition dual_write_cleanup :: "uuid \<Rightarrow> db \<Rightarrow> db" where
  "dual_write_cleanup m d =
     delete_merchants (\<lambda>r. m_id r = m) (delete_payments (\<lambda>p. pay_merchant_id p = m) (delete_outbox (\<lambda>b. ob_merchant_id b = m) d))"

text \<open>
  \<open>except RuntimeError\<close> around the publication swallows its failure; any other exception would leave
  the script. The result is the outbox rows found for the two payments.
\<close>

definition try_publish :: "uuid \<Rightarrow> unit res" where
  "try_publish payment_id =
     (case publish_to_queue payment_id of Inl (OtherException e) \<Rightarrow> if e = ''RuntimeError'' then Inr () else Inl (OtherException e) | r \<Rightarrow> r)"

definition dual_write_lab :: "db \<Rightarrow> (outbox_event list \<times> outbox_event list) res \<times> db" where
  "dual_write_lab d =
     (case in_transaction (add_merchant ''Dual Write Lab Merchant'') d of
        (Inl e, d1) \<Rightarrow> (Inl e, d1)
      | (Inr m, d1) \<Rightarrow>
          (case in_transaction (naive_write m) d1 of
             (Inl e, d2) \<Rightarrow> (Inl e, d2)
           | (Inr p, d2) \<Rightarrow>
               (case try_publish (pay_id p) of
                  Inl e \<Rightarrow> (Inl e, d2)
                | Inr _ \<Rightarrow>
                    (case in_transaction (outbox_write m) d2 of
                       (Inl e, d3) \<Rightarrow> (Inl e, d3)
                     | (Inr q, d3) \<Rightarrow>
                         (case try_publish (pay_id q) of
                            Inl e \<Rightarrow> (Inl e, d3)
                          | Inr _ \<Rightarrow> (Inr (rows_for (pay_id p) d2, rows_for (pay_id q) d3), dual_write_cleanup m d3))))))"

subsection \<open>What the lab shows\<close>

text \<open>The rows of the lab, on top of a database \<open>d\<close>.\<close>

definition with_dual_write :: "uuid \<Rightarrow> payment \<Rightarrow> payment \<Rightarrow> outbox_event \<Rightarrow> db \<Rightarrow> db" where
  "with_dual_write m p q b d =
     d\<lparr>uuid_drawn := uuid_drawn d + 6, merchants := merchants d @ [new_merchant m ''Dual Write Lab Merchant'' (clock d)],
       payments := payments d @ [p, q], outbox_events := outbox_events d @ [b]\<rparr>"

lemma dual_write_cleans_up:
  assumes ok: "db_ok (with_dual_write m p q b d)" "db_ok d" and m: "get_merchant d m = None"
    and own: "pay_merchant_id p = m" "pay_merchant_id q = m" "ob_merchant_id b = m"
  shows "dual_write_cleanup m (with_dual_write m p q b d) = d\<lparr>uuid_drawn := uuid_drawn d + 6\<rparr>"
proof -
  let ?d = "with_dual_write m p q b d"
  define d1 where "d1 = delete_outbox (\<lambda>b. ob_merchant_id b = m) ?d"
  define d2 where "d2 = delete_payments (\<lambda>p. pay_merchant_id p = m) d1"
  have ok1: "db_ok d1" unfolding d1_def by (rule delete_outbox_ok [OF ok(1)])
  have ok2: "db_ok d2" unfolding d2_def by (rule delete_payments_ok [OF ok1])
  have "dual_write_cleanup m ?d = purged m d2"
    using delete_merchant_purges [OF ok2] by (simp add: dual_write_cleanup_def d2_def d1_def)
  also have "\<dots> = purged m d1" unfolding d2_def by (rule purged_delete_payments [OF ok1])
  also have "\<dots> = purged m ?d" unfolding d1_def by (rule purged_delete_outbox)
  also have "\<dots> = (purged m d)\<lparr>uuid_drawn := uuid_drawn d + 6\<rparr>"
    using own by (simp add: purged_def with_dual_write_def new_merchant_def)
  finally show ?thesis using purged_unknown [OF ok(2) m] by simp
qed

text \<open>
  The outbox lab. On every consistent database with fresh identifiers the payment written by
  itself leaves no outbox row when its publication fails, the payment written with its outbox row leaves
  exactly one \<open>PENDING\<close> row for the dispatcher, and the cleanup leaves every table as it was.
\<close>

theorem dual_write_lab_spec:
  assumes ok: "db_ok d" and fresh: "fresh_from 6 d"
    and new: "rows_for (draw d 2) d = []" "rows_for (draw d 4) d = []"
      "\<not> list_ex (\<lambda>b. ob_idempotency_key b = ''payment.failed:'' @ uuid_str (draw d 4)) (outbox_events d)"
  shows "\<exists>row. dual_write_lab d = (Inr ([], [row]), d\<lparr>uuid_drawn := uuid_drawn d + 6\<rparr>)
    \<and> ob_status row = O_PENDING \<and> ob_event_type row = ''payment.failed'' \<and> ob_aggregate_id row = uuid_str (draw d 4)
    \<and> obj_get (ob_payload row) ''amount_minor'' = JInt 2000"
proof -
  define m where "m = draw d 0"
  note un = fresh_from_unused [OF fresh] and ne = fresh_from_eq [OF fresh]
  define d1 where "d1 = d\<lparr>uuid_drawn := uuid_drawn d + 1, merchants := merchants d @ [new_merchant m ''Dual Write Lab Merchant'' (clock d)]\<rparr>"
  define p where "p = lab_payment (draw d1 1) m (''pay_naive_'' @ uuid_hex (draw d1 0)) 1000 (clock d1)"
  define d2 where "d2 = d1\<lparr>uuid_drawn := uuid_drawn d1 + 2, payments := payments d1 @ [p]\<rparr>"
  define q where "q = lab_payment (draw d2 1) m (''pay_outbox_'' @ uuid_hex (draw d2 0)) 2000 (clock d2)"
  define d3 where "d3 = d2\<lparr>uuid_drawn := uuid_drawn d2 + 2, payments := payments d2 @ [q]\<rparr>"
  define b where "b = failed_payment_event (draw d3 0) m q (clock d3)"
  have dr: "draw d1 0 = draw d 1" "draw d1 1 = draw d 2" "draw d2 0 = draw d 3" "draw d2 1 = draw d 4" "draw d3 0 = draw d 5"
    by (simp_all add: numeral_eq_Suc draw_def d1_def d2_def d3_def)
  have pid: "pay_id p = draw d 2" "pay_id q = draw d 4" unfolding p_def q_def dr by (simp_all add: lab_payment_def)
  have one: "add_merchant ''Dual Write Lab Merchant'' d = Inr (m, d1)"
    using add_merchant_total [OF un, of "''Dual Write Lab Merchant''"] by (simp add: d1_def m_def)
  have "db_ok (snd (new_uuid d))" using ok new_uuid_step db_step_ok by blast
  moreover from one obtain e where im: "insert_merchant e (snd (new_uuid d)) = Inr d1"
    by (auto simp: add_merchant_def Let_def case_prod_beta)
  ultimately have ok1: "db_ok d1" using insert_merchant_ok(1) by blast
  have gm: "get_merchant d1 m \<noteq> None" "get_merchant d2 m \<noteq> None" "get_merchant d3 m \<noteq> None"
    by (simp_all add: get_defs get_row_None_iff new_merchant_def d1_def d2_def d3_def)
  have mine: "\<not> list_ex (\<lambda>r. pay_merchant_id r = m \<and> pay_provider_payment_id r = x) (payments d)" for x
    using no_rows_of(1) [OF ok un [of 0]] by (auto simp: list_ex_iff image_iff m_def)
  have "unused d1 (draw d1 1)" unfolding dr
    using un [of 2] ne [of 2 0] by (simp add: unused_def get_defs get_row_append new_merchant_def d1_def m_def)
  then have two: "add_lab_payment m ''pay_naive_'' 1000 d1 = Inr (p, d2)"
    unfolding d2_def by (rule add_lab_payment_total [OF gm(1)]) (use mine in \<open>simp_all add: bigint_ok_def d1_def p_def\<close>)
  have "unused d2 (draw d2 1)" unfolding dr
    using un [of 4] ne [of 4 0] ne [of 4 2]
    by (simp add: unused_def get_defs get_row_append new_merchant_def d1_def d2_def m_def pid)
  moreover have "\<not> list_ex (\<lambda>r. pay_merchant_id r = m \<and> pay_provider_payment_id r = ''pay_outbox_'' @ uuid_hex (draw d2 0)) (payments d2)"
    using mine by (auto simp: d2_def d1_def p_def lab_payment_def)
  ultimately have three: "add_lab_payment m ''pay_outbox_'' 2000 d2 = Inr (q, d3)"
    unfolding d3_def by (intro add_lab_payment_total [OF gm(2)]) (simp_all add: bigint_ok_def q_def)
  have f3: "outbox_events d3 = outbox_events d" "outbox_events d2 = outbox_events d" by (simp_all add: d3_def d2_def d1_def)
  have bk: "ob_idempotency_key b = ''payment.failed:'' @ uuid_str (draw d 4)" "ob_id b = draw d 5" "ob_merchant_id b = m"
      "ob_aggregate_id b = uuid_str (draw d 4)"
    by (simp_all add: b_def failed_payment_event_def new_outbox_event_def dr pid)
  have "outbox_row_check b = Inr ()"
    by (simp add: outbox_row_check_def b_def failed_payment_event_def new_outbox_event_def varchar_ok_def opt_varchar_ok_def integer_ok_def)
  moreover have "get_outbox (snd (new_uuid d3)) (ob_id b) = None" using un [of 5] f3 by (simp add: unused_def bk get_defs new_uuid_def)
  ultimately have four: "insert_outbox b (snd (new_uuid d3)) = Inr ((snd (new_uuid d3))\<lparr>outbox_events := outbox_events d @ [b]\<rparr>)"
    using gm(3) new(3) f3 unfolding insert_outbox_def bk by (simp add: get_defs new_uuid_def)
  have eq: "(snd (new_uuid d3))\<lparr>outbox_events := outbox_events d @ [b]\<rparr> = with_dual_write m p q b d"
    by (simp add: with_dual_write_def new_uuid_def d3_def d2_def d1_def)
  have u: "new_uuid d3 = (draw d3 0, snd (new_uuid d3))" "clock (snd (new_uuid d3)) = clock d3" by (simp_all add: new_uuid_def draw_def)
  have safe: "outbox_write m d2 = Inr (q, with_dual_write m p q b d)"
    unfolding outbox_write_def three res_bind.simps prod.case
    by (subst u(1)) (simp add: u(2) b_def [symmetric] four eq)
  have "db_ok d2" using two ok1 insert_payment_step new_uuid_step db_step_ok
    by (auto simp: add_lab_payment_def Let_def case_prod_beta) metis
  then have "db_ok d3" using three insert_payment_step new_uuid_step db_step_ok
    by (auto simp: add_lab_payment_def Let_def case_prod_beta) metis
  then have "db_ok (with_dual_write m p q b d)" using four eq insert_outbox_step new_uuid_step db_step_ok by metis
  then have clean: "dual_write_cleanup m (with_dual_write m p q b d) = d\<lparr>uuid_drawn := uuid_drawn d + 6\<rparr>"
    by (rule dual_write_cleans_up [OF _ ok]) (use un [of 0] in \<open>simp_all add: bk unused_def m_def p_def q_def lab_payment_def\<close>)
  have tp: "try_publish i = Inr ()" for i by (simp add: try_publish_def publish_to_queue_def)
  have "rows_for (pay_id p) d2 = []" using new(1) by (simp add: rows_for_def f3 pid)
  moreover have "rows_for (pay_id q) (with_dual_write m p q b d) = [b]"
    using new(2) by (simp add: rows_for_def with_dual_write_def bk pid)
  ultimately have "dual_write_lab d = (Inr ([], [b]), d\<lparr>uuid_drawn := uuid_drawn d + 6\<rparr>)"
    by (simp add: dual_write_lab_def in_transaction_def one naive_write_def two safe tp clean)
  moreover have "ob_status b = O_PENDING" "ob_event_type b = ''payment.failed''" "obj_get (ob_payload b) ''amount_minor'' = JInt 2000"
    by (simp_all add: b_def failed_payment_event_def new_outbox_event_def q_def lab_payment_def)
  ultimately show ?thesis using bk by blast
qed

end
