(* ===== verification/Labs_Pure.thy ===== *)
theory Labs_Pure
  imports Agent Policy Recovery_Engine
begin

text \<open>
  The labs without a database: \<^verbatim>\<open>src/labs/llm_failure_lab.py\<close>, \<^verbatim>\<open>policy_bypass_lab.py\<close>,
  \<^verbatim>\<open>naive_state_lab.py\<close> and \<^verbatim>\<open>pure_vs_coupled_lab.py\<close>.
\<close>

subsection \<open>Failures of the language model\<close>

definition make_request :: agent_decision_request where
  "make_request =
     \<lparr>req_merchant_id = ''00000000-0000-0000-0000-000000000000'', req_recovery_case_id = ''11111111-1111-1111-1111-111111111111'',
      req_amount_minor = 5000, req_currency = ''INR'', req_failure_category = Some ''expired_instrument'',
      req_engine_candidate_action = CREATE_PAYMENT_LINK, req_deterministic_final_action = STOP,
      req_total_action_count = 0, req_reminder_count = 0, req_active_payment_link_count = 0\<rparr>"

definition run_mode :: "agent_env \<Rightarrow> string \<Rightarrow> agent_decision" where
  "run_mode env mode =
     run_recovery_agent
       (env\<lparr>env_settings := (env_settings env)\<lparr>llm_enabled := True, llm_provider := ''mock'', llm_mock_mode := mode\<rparr>\<rparr>)
       make_request"

text \<open>The four runs and the assertions of \<open>main\<close>.\<close>

definition llm_failure_lab :: "agent_env \<Rightarrow> bool" where
  "llm_failure_lab env =
     (let normal = run_mode env ''normal''; timeout = run_mode env ''timeout'';
          malformed = run_mode env ''malformed''; illegal = run_mode env ''illegal_action''
      in ad_source normal = ''llm'' \<and> ad_selected_action normal = CREATE_PAYMENT_LINK
         \<and> ad_source timeout = ''deterministic_fallback'' \<and> ad_selected_action timeout = STOP
         \<and> ad_source malformed = ''deterministic_fallback'' \<and> ad_selected_action malformed = STOP
         \<and> ad_source illegal = ''deterministic_fallback'' \<and> ad_selected_action illegal = STOP)"

lemma llm_failure_lab_passes:
  assumes "langgraph_sequential env" and "lax_float_ok env"
  shows "llm_failure_lab env"
proof -
  let ?env = "\<lambda>mode. env\<lparr>env_settings := (env_settings env)\<lparr>llm_enabled := True, llm_provider := ''mock'', llm_mock_mode := mode\<rparr>\<rparr>"
  have "langgraph_sequential (?env mode)" "lax_float_ok (?env mode)" for mode
    using assms by (simp_all add: langgraph_sequential_def lax_float_ok_def)
  note run = run_recovery_agent_cases [OF this, of _ make_request, folded run_mode_def]
  show ?thesis
    using run [of "''normal''"] run [of "''timeout''"] run [of "''malformed''"] run [of "''illegal_action''"]
    by (simp add: llm_failure_lab_def Let_def llm_usable_def make_request_def)
qed

subsection \<open>The policy against the engine\<close>

definition policy_bypass_lab :: "recovery_decision \<times> policy_decision" where
  "policy_bypass_lab =
     (let amount_minor = 600000;
          engine_decision = evaluate_recovery amount_minor (Some ''expired_instrument'');
          limits = \<lparr>max_actions_per_case = 3, max_reminders_per_case = 2, one_active_payment_link = True,
            high_value_escalation_enabled = True, high_value_threshold_minor = 500000\<rparr>;
          policy_input = \<lparr>pi_case_status = ANALYSING, pi_amount_minor = amount_minor,
            pi_candidate_action = rd_action engine_decision, pi_total_action_count = 0, pi_reminder_count = 0,
            pi_active_payment_link_count = 0\<rparr>
      in (engine_decision, evaluate_policy limits policy_input (rd_delay_hours engine_decision)))"

lemma policy_bypass_lab_passes:
  "rd_action (fst policy_bypass_lab) = CREATE_PAYMENT_LINK" "pd_final_action (snd policy_bypass_lab) = ESCALATE"
  "\<not> pd_approved (snd policy_bypass_lab)"
  by code_simp+

subsection \<open>State in the memory of a process\<close>

record naive_state =
  processed_events :: "string list"
  processed_count :: nat

definition naive_start :: naive_state where
  "naive_start = \<lparr>processed_events = [], processed_count = 0\<rparr>"

definition receive_event :: "string \<Rightarrow> naive_state \<Rightarrow> json_obj \<times> naive_state" where
  "receive_event event_id s =
     (if event_id \<notin> set (processed_events s)
      then let s1 = s\<lparr>processed_events := event_id # processed_events s, processed_count := processed_count s + 1\<rparr>
           in ([(''event_id'', JStr event_id), (''processed'', JBool True), (''local_count'', JInt (int (processed_count s1)))], s1)
      else ([(''event_id'', JStr event_id), (''processed'', JBool False), (''local_count'', JInt (int (processed_count s)))], s))"

text \<open>Requests spread over the processes of a deployment; each process has its own memory.\<close>

definition naive_run :: "string list \<Rightarrow> naive_state" where
  "naive_run events = fold (\<lambda>e s. snd (receive_event e s)) events naive_start"

definition naive_deployment :: "(nat \<times> string) list \<Rightarrow> nat \<Rightarrow> naive_state" where
  "naive_deployment requests process = naive_run (map snd (filter (\<lambda>r. fst r = process) requests))"

lemma naive_counts_once:
  "processed_count (naive_run events) = card (set events)"
proof -
  have "distinct (processed_events s) \<Longrightarrow> processed_count s = length (processed_events s) \<Longrightarrow>
      (let s' = fold (\<lambda>e s. snd (receive_event e s)) events s
       in processed_count s' = card (set (processed_events s) \<union> set events))" for s
  proof (induction events arbitrary: s)
    case (Cons e es)
    let ?s = "snd (receive_event e s)"
    have "distinct (processed_events ?s)" "processed_count ?s = length (processed_events ?s)"
      using Cons.prems by (auto simp: receive_event_def Let_def)
    moreover have "set (processed_events ?s) = insert e (set (processed_events s))"
      by (auto simp: receive_event_def Let_def)
    ultimately show ?case using Cons.IH [of ?s] by simp
  qed (simp add: distinct_card)
  from this [of naive_start] show ?thesis by (simp add: naive_run_def naive_start_def)
qed

text \<open>Each process counts an event once; an event that reaches two processes is processed twice.\<close>

lemma naive_duplicates_across_processes:
  assumes "i \<noteq> j"
  shows "processed_count (naive_deployment [(i, e), (i, e), (j, e)] i) + processed_count (naive_deployment [(i, e), (i, e), (j, e)] j) = 2"
  using assms by (simp add: naive_deployment_def naive_counts_once)

subsection \<open>The coupled task\<close>

definition simulate_coupled_task :: "int \<Rightarrow> string \<Rightarrow> string" where
  "simulate_coupled_task amount category =
     (if amount < 1000 then ''STOP''
      else if category = ''expired_instrument'' then ''CREATE_PAYMENT_LINK''
      else ''SEND_REMINDER'')"

text \<open>It decides as the engine on small amounts, expired instruments and network failures, and never waits.\<close>

lemma coupled_task_agrees:
  assumes "amount < 1000 \<or> category \<in> {''expired_instrument'', ''temporary_network''}"
  shows "simulate_coupled_task amount category = recovery_action_type_value (rd_action (evaluate_recovery amount (Some category)))"
proof -
  have "normalize_category (Some ''expired_instrument'') = ''expired_instrument''"
    "normalize_category (Some ''temporary_network'') = ''temporary_network''" by code_simp+
  with assms show ?thesis
    by (auto simp: simulate_coupled_task_def evaluate_recovery_def MIN_RECOVERABLE_AMOUNT_MINOR_def Let_def)
qed

lemma coupled_task_differs:
  "simulate_coupled_task 5000 ''insufficient_funds'' = ''SEND_REMINDER''"
  "rd_action (evaluate_recovery 5000 (Some ''insufficient_funds'')) = WAIT"
  by code_simp+

text \<open>
  The whole lab: both loops over the same cases, then the comparison of the times. The four readings of
  the clock are arguments; dividing by a time of zero raises. The result is the actions of both loops
  and the two times with their ratio.
\<close>

definition coupled_lab_cases :: "(int \<times> string) list" where
  "coupled_lab_cases =
     concat (replicate 2500
       [(500, ''expired_instrument''), (5000, ''expired_instrument''), (5000, ''insufficient_funds''),
        (5000, ''temporary_network'')])"

definition pure_vs_coupled_lab :: "rat \<Rightarrow> rat \<Rightarrow> rat \<Rightarrow> rat \<Rightarrow> (string list \<times> recovery_action_type list \<times> rat \<times> rat \<times> rat) res" where
  "pure_vs_coupled_lab t0 t1 t2 t3 =
     (let coupled = map (\<lambda>(amount, category). simulate_coupled_task amount category) coupled_lab_cases;
          coupled_time = t1 - t0;
          pure = map (\<lambda>(amount, category). rd_action (evaluate_recovery amount (Some category))) coupled_lab_cases;
          pure_time = t3 - t2
      in if pure_time = 0 then Inl (OtherException ''ZeroDivisionError'')
         else Inr (coupled, pure, coupled_time, pure_time, coupled_time / pure_time))"

text \<open>
  The lab compares two programs that do not compute the same: on the 10000 cases it announces, the
  coupled task and the engine disagree on every fourth.
\<close>

lemma count_replicate:
  "length (filter p (concat (replicate n xs))) = n * length (filter p xs)"
  by (induction n) simp_all

lemma coupled_lab_disagrees:
  "length coupled_lab_cases = 10000"
  "length (filter (\<lambda>(amount, category). simulate_coupled_task amount category
      \<noteq> recovery_action_type_value (rd_action (evaluate_recovery amount (Some category)))) coupled_lab_cases) = 2500"
proof -
  show "length coupled_lab_cases = 10000"
    using count_replicate [of "\<lambda>_. True"] by (simp add: coupled_lab_cases_def length_concat sum_list_replicate)
  show "length (filter (\<lambda>(amount, category). simulate_coupled_task amount category
      \<noteq> recovery_action_type_value (rd_action (evaluate_recovery amount (Some category)))) coupled_lab_cases) = 2500"
    unfolding coupled_lab_cases_def count_replicate
    using coupled_task_differs coupled_task_agrees [of 500 "''expired_instrument''"]
      coupled_task_agrees [of 5000 "''expired_instrument''"] coupled_task_agrees [of 5000 "''temporary_network''"]
    by simp
qed

end
