(* ===== verification/Run_Simulation.thy ===== *)
theory Run_Simulation
  imports Simulation "HOL-Library.List_Lexorder" "HOL-Library.Char_ord"
begin

text \<open>
  The script that runs the experiment, \<^verbatim>\<open>src/scripts/run_simulation.py\<close>, and the dashboard page that
  shows what it saved, \<^verbatim>\<open>src/dashboard/pages/3_Simulation.py\<close>. The page is the list of the texts it shows,
  without the layout; the script is the table it prints, without the frame, and the JSON object it saves.
  Floats are rationals; the rupee sign and the arrow are their UTF-8 encodings.
\<close>

subsection \<open>Number formats\<close>

fun group_rev :: "string \<Rightarrow> string" where
  "group_rev (a # b # c # d # rest) = a # b # c # CHR '','' # group_rev (d # rest)"
| "group_rev s = s"

definition group_digits :: "string \<Rightarrow> string" where
  "group_digits s = rev (group_rev (rev s))"

text \<open>\<open>f"{n:,}"\<close>\<close>

definition commas :: "int \<Rightarrow> string" where
  "commas n = (if n < 0 then ''-'' else []) @ group_digits (show_nat (nat \<bar>n\<bar>))"

definition pad_zeros :: "nat \<Rightarrow> string \<Rightarrow> string" where
  "pad_zeros n s = replicate (n - length s) (CHR ''0'') @ s"

text \<open>\<open>f"{x:.nf}"\<close>, and \<open>f"{x:,.nf}"\<close> with \<open>grouped\<close>.\<close>

definition fixed_point :: "bool \<Rightarrow> nat \<Rightarrow> rat \<Rightarrow> string" where
  "fixed_point grouped n x =
     (let k = nat (round_half_even (\<bar>x\<bar> * 10 ^ n));
          whole = show_nat (k div 10 ^ n);
          frac = pad_zeros n (show_nat (k mod 10 ^ n))
      in (if x < 0 then ''-'' else []) @ (if grouped then group_digits whole else whole) @ ''.'' @ frac)"

definition percent1 :: "rat \<Rightarrow> string" where
  "percent1 x = fixed_point False 1 (x * 100) @ ''%''"

definition RUPEE :: string where
  "RUPEE = map char_of [226, 130, 185 :: nat]"

definition ARROW :: string where
  "ARROW = map char_of [226, 134, 146 :: nat]"

definition format_inr :: "int \<Rightarrow> string" where
  "format_inr amount_minor = RUPEE @ fixed_point True 2 (of_int amount_minor / 100)"

subsection \<open>The script\<close>

definition count_of :: "(string \<times> int) list \<Rightarrow> string \<Rightarrow> int" where
  "count_of counts k = (case map_of counts k of None \<Rightarrow> 0 | Some n \<Rightarrow> n)"

text \<open>The rows of the table and of the action distribution.\<close>

definition result_rows :: "strategy_result \<Rightarrow> strategy_result \<Rightarrow> (string \<times> string \<times> string) list" where
  "result_rows b r =
     [(''Recovery Rate'', percent1 (recovery_rate b), percent1 (recovery_rate r)),
      (''Recovered Cases'', commas (recovered_cases b), commas (recovered_cases r)),
      (RUPEE @ '' Recovered'', format_inr (recovered_amount_minor b), format_inr (recovered_amount_minor r)),
      (RUPEE @ '' At Risk'', format_inr (total_amount_at_risk_minor b), format_inr (total_amount_at_risk_minor r)),
      (''Contacts'', commas (total_contacts b), commas (total_contacts r)),
      (''Contacts/Case'', fixed_point False 2 (contacts_per_case b), fixed_point False 2 (contacts_per_case r)),
      (''Avg Time (hrs)'', fixed_point False 1 (avg_time_to_recovery_hours b), fixed_point False 1 (avg_time_to_recovery_hours r))]"

definition action_rows :: "strategy_result \<Rightarrow> strategy_result \<Rightarrow> (string \<times> string \<times> string) list" where
  "action_rows b r =
     map (\<lambda>action. (action, commas (count_of (action_counts b) action), commas (count_of (action_counts r) action)))
       (sort (remdups (map fst (action_counts b) @ map fst (action_counts r))))"

record printed_results =
  printed_population :: string
  printed_seed :: string
  printed_rows :: "(string \<times> string \<times> string) list"
  printed_incremental :: string
  printed_actions :: "(string \<times> string \<times> string) list"

definition print_results :: "strategy_result \<Rightarrow> strategy_result \<Rightarrow> int \<Rightarrow> int \<Rightarrow> int \<Rightarrow> printed_results" where
  "print_results baseline recoverai incremental population_size seed =
     \<lparr>printed_population = commas population_size, printed_seed = show_int seed, printed_rows = result_rows baseline recoverai,
      printed_incremental = format_inr incremental, printed_actions = action_rows baseline recoverai\<rparr>"

definition strategy_json :: "strategy_result \<Rightarrow> json" where
  "strategy_json r =
     JObj [(''total_cases'', JInt (total_cases r)), (''recovered_cases'', JInt (recovered_cases r)),
       (''recovery_rate'', JFloat (recovery_rate r)),
       (''total_amount_at_risk_minor'', JInt (total_amount_at_risk_minor r)),
       (''recovered_amount_minor'', JInt (recovered_amount_minor r)),
       (''total_contacts'', JInt (total_contacts r)),
       (''avg_time_to_recovery_hours'', JFloat (avg_time_to_recovery_hours r)),
       (''action_counts'', JObj (map (\<lambda>(k, n). (k, JInt n)) (action_counts r)))]"

definition results_for_dashboard :: "strategy_result \<Rightarrow> strategy_result \<Rightarrow> int \<Rightarrow> int \<Rightarrow> int \<Rightarrow> json" where
  "results_for_dashboard baseline recoverai incremental size_n seed =
     JObj [(''baseline'', strategy_json baseline), (''recoverai'', strategy_json recoverai),
       (''incremental_recovered_revenue_minor'', JInt incremental), (''population_size'', JInt size_n), (''seed'', JInt seed)]"

text \<open>\<open>seeded\<close> is \<open>random.Random(seed)\<close>; the default arguments are 10000 and 42.\<close>

definition run_simulation :: "'s rng \<Rightarrow> (int \<Rightarrow> 's) \<Rightarrow> int \<Rightarrow> int \<Rightarrow> printed_results \<times> json" where
  "run_simulation g seeded size_n seed =
     (let population = generate_population g size_n (seeded seed) None;
          (baseline, recoverai) = run_experiment g SIMULATED_RECOVERY_PROBABILITIES population (seeded seed);
          incremental = calculate_incremental_recovered_revenue baseline recoverai
      in (print_results baseline recoverai incremental size_n seed,
          results_for_dashboard baseline recoverai incremental size_n seed))"

subsection \<open>The page\<close>

text \<open>\<open>obj.get(k, default)\<close>; a value that is not the expected kind of number would raise: \<open>None\<close>.\<close>

definition get_or :: "json_obj \<Rightarrow> string \<Rightarrow> json \<Rightarrow> json" where
  "get_or obj k dflt = (case map_of obj k of None \<Rightarrow> dflt | Some v \<Rightarrow> v)"

definition as_obj :: "json \<Rightarrow> json_obj option" where
  "as_obj v = (case v of JObj kvs \<Rightarrow> Some kvs | _ \<Rightarrow> None)"

definition as_number :: "json \<Rightarrow> rat option" where
  "as_number v = (case v of JInt i \<Rightarrow> Some (of_int i) | JFloat x \<Rightarrow> Some x | _ \<Rightarrow> None)"

definition as_int :: "json \<Rightarrow> int option" where
  "as_int v = (case v of JInt i \<Rightarrow> Some i | _ \<Rightarrow> None)"

record shown_strategy =
  shown_rate :: string
  shown_total :: string
  shown_recovered :: string
  shown_amount :: string
  shown_contacts :: string
  shown_contacts_per_case :: string
  shown_time :: string
  shown_actions :: "(string \<times> string) list"

definition show_strategy :: "json_obj \<Rightarrow> shown_strategy option" where
  "show_strategy s =
     Option.bind (as_number (get_or s ''recovery_rate'' (JInt 0))) (\<lambda>rate.
     Option.bind (as_int (get_or s ''total_cases'' (JInt 0))) (\<lambda>total.
     Option.bind (as_int (get_or s ''recovered_cases'' (JInt 0))) (\<lambda>recovered.
     Option.bind (as_int (get_or s ''recovered_amount_minor'' (JInt 0))) (\<lambda>amount.
     Option.bind (as_int (get_or s ''total_contacts'' (JInt 0))) (\<lambda>contacts.
     Option.bind (as_int (get_or s ''total_cases'' (JInt 1))) (\<lambda>divisor.
     Option.bind (as_number (get_or s ''avg_time_to_recovery_hours'' (JInt 0))) (\<lambda>time.
     Option.bind (as_obj (get_or s ''action_counts'' (JObj []))) (\<lambda>counts.
     Option.bind (those (map (\<lambda>(k, v). map_option (\<lambda>n. (k, commas n)) (as_int v)) (sort_key fst counts))) (\<lambda>actions.
       Some \<lparr>shown_rate = percent1 rate, shown_total = commas total, shown_recovered = commas recovered,
         shown_amount = RUPEE @ fixed_point True 2 (of_int amount / 100), shown_contacts = commas contacts,
         shown_contacts_per_case = fixed_point False 2 (of_int contacts / of_int (max divisor 1)),
         shown_time = fixed_point False 1 time, shown_actions = actions\<rparr>)))))))))"

record simulation_page =
  page_baseline :: shown_strategy
  page_recoverai :: shown_strategy
  page_delta :: string
  page_incremental :: string

text \<open>\<open>None\<close>, the outer one: there is no file, and the page says how to make one.\<close>

definition show_simulation :: "json option \<Rightarrow> simulation_page option option" where
  "show_simulation file =
     map_option (\<lambda>results.
       Option.bind (as_obj results) (\<lambda>r.
       Option.bind (as_obj (get_or r ''baseline'' (JObj []))) (\<lambda>b.
       Option.bind (as_obj (get_or r ''recoverai'' (JObj []))) (\<lambda>a.
       Option.bind (as_int (get_or r ''incremental_recovered_revenue_minor'' (JInt 0))) (\<lambda>incremental.
       Option.bind (as_number (get_or a ''recovery_rate'' (JInt 0))) (\<lambda>rate_a.
       Option.bind (as_number (get_or b ''recovery_rate'' (JInt 0))) (\<lambda>rate_b.
       Option.bind (show_strategy b) (\<lambda>sb. Option.bind (show_strategy a) (\<lambda>sa.
         Some \<lparr>page_baseline = sb, page_recoverai = sa,
           page_delta = ''+'' @ fixed_point False 1 ((rate_a - rate_b) * 100) @ '' pp'',
           page_incremental = RUPEE @ fixed_point True 2 (of_int incremental / 100)\<rparr>)))))))))
       file"

subsection \<open>The page shows what the script printed\<close>

lemma group_rev_digits: "CHR '','' \<notin> set s \<Longrightarrow> filter (\<lambda>c. c \<noteq> CHR '','') (group_rev s) = s"
  by (induction s rule: group_rev.induct) (auto simp: filter_id_conv)

text \<open>The separators only group: without them a number reads as \<open>str(n)\<close>.\<close>

lemma show_nat_digits: "c \<in> set (show_nat n) \<Longrightarrow> \<exists>d < 10. c = digit_char d"
proof (induction n rule: show_nat.induct)
  case (1 n)
  then have "c = digit_char (n mod 10) \<or> \<not> n < 10 \<and> c \<in> set (show_nat (n div 10))"
    by (subst (asm) (2) show_nat.simps) (auto split: if_splits)
  moreover have "n mod 10 < 10" by simp
  ultimately show ?case using 1 by blast
qed

lemma show_nat_no_comma: "CHR '','' \<notin> set (show_nat n)"
proof
  assume "CHR '','' \<in> set (show_nat n)"
  then obtain d where d: "d < 10" "CHR '','' = digit_char d" using show_nat_digits by blast
  have "list_all (\<lambda>d. CHR '','' \<noteq> digit_char d) [0..<10]" by code_simp
  then have "CHR '','' \<noteq> digit_char d" using d(1) by (simp add: list_all_iff)
  with d(2) show False by simp
qed

lemma commas_digits: "filter (\<lambda>c. c \<noteq> CHR '','') (commas n) = (if n < 0 then ''-'' else []) @ show_nat (nat \<bar>n\<bar>)"
proof -
  have "filter (\<lambda>c. c \<noteq> CHR '','') (group_digits s) = s" if "CHR '','' \<notin> set s" for s
    using group_rev_digits [of "rev s"] that by (simp add: group_digits_def rev_filter [symmetric])
  then show ?thesis using show_nat_no_comma by (simp add: commas_def)
qed

lemma those_map_Some: "those (map (\<lambda>x. Some (f x)) xs) = Some (map f xs)"
  by (induction xs) auto

lemma sort_key_map_snd: "sort_key fst (map (\<lambda>(k, n). (k, f n)) xs) = map (\<lambda>(k, n). (k, f n)) (sort_key fst xs)"
proof (induction xs)
  case (Cons x xs)
  have ins: "insort_key fst (k, f n) (map (\<lambda>(k, n). (k, f n)) ys) = map (\<lambda>(k, n). (k, f n)) (insort_key fst (k, n) ys)" for k n ys
    by (induction ys) auto
  obtain k n where "x = (k, n)" by (cases x)
  with Cons show ?case by (simp add: ins)
qed simp

definition shown :: "strategy_result \<Rightarrow> shown_strategy" where
  "shown r =
     \<lparr>shown_rate = percent1 (recovery_rate r), shown_total = commas (total_cases r), shown_recovered = commas (recovered_cases r),
      shown_amount = format_inr (recovered_amount_minor r), shown_contacts = commas (total_contacts r),
      shown_contacts_per_case = fixed_point False 2 (contacts_per_case r),
      shown_time = fixed_point False 1 (avg_time_to_recovery_hours r),
      shown_actions = map (\<lambda>(k, n). (k, commas n)) (sort_key fst (action_counts r))\<rparr>"

lemma show_strategy_json:
  assumes "strategy_json r = JObj kvs" and "0 \<le> total_cases r" and "total_cases r = 0 \<Longrightarrow> total_contacts r = 0"
  shows "show_strategy kvs = Some (shown r)"
proof -
  have "of_int (total_contacts r) / of_int (max (total_cases r) 1) = contacts_per_case r"
    using assms(2,3) by (auto simp: contacts_per_case_def max_def)
  then show ?thesis
    using assms(1) unfolding strategy_json_def
    by (auto simp: show_strategy_def get_or_def as_number_def as_int_def as_obj_def sort_key_map_snd split_beta comp_def
        those_map_Some shown_def format_inr_def)
qed

lemma run_experiment_totals:
  assumes "run_experiment g table population seed = (b, r)"
  shows "total_cases b = int (length population)" and "total_cases r = int (length population)"
    and "population = [] \<Longrightarrow> total_contacts b = 0 \<and> total_contacts r = 0"
  using assms by (auto simp: run_experiment_runs strategy_run_total new_strategy_result_def) (auto simp: strategy_run_def)

text \<open>
  The dashboard page and the terminal agree: on the file a run saved, the page shows for both
  strategies the figures the run printed (all rows but the amount at risk, which the page leaves out), and the
  same incremental revenue, whatever the size, the empty population included.
\<close>

lemma simulation_page_agrees:
  assumes "run_simulation g seeded size_n seed = (p, file)"
  shows "\<exists>page. show_simulation (Some file) = Some (Some page) \<and> page_incremental page = printed_incremental p
    \<and> map snd (filter (\<lambda>row. fst row \<noteq> RUPEE @ '' At Risk'') (printed_rows p)) =
        (let b = page_baseline page; r = page_recoverai page
         in [(shown_rate b, shown_rate r), (shown_recovered b, shown_recovered r), (shown_amount b, shown_amount r),
             (shown_contacts b, shown_contacts r), (shown_contacts_per_case b, shown_contacts_per_case r), (shown_time b, shown_time r)])"
proof -
  define population where "population = generate_population g size_n (seeded seed) None"
  obtain b r where ex: "run_experiment g SIMULATED_RECOVERY_PROBABILITIES population (seeded seed) = (b, r)" by fastforce
  note tot = run_experiment_totals [OF ex]
  obtain kb kr where k: "strategy_json b = JObj kb" "strategy_json r = JObj kr" by (simp add: strategy_json_def)
  have rate: "as_number (get_or kb ''recovery_rate'' (JInt 0)) = Some (recovery_rate b)"
    "as_number (get_or kr ''recovery_rate'' (JInt 0)) = Some (recovery_rate r)"
    using k by (auto simp: strategy_json_def get_or_def as_number_def)
  have "total_cases b = 0 \<Longrightarrow> total_contacts b = 0" "total_cases r = 0 \<Longrightarrow> total_contacts r = 0" using tot by auto
  then have sh: "show_strategy kb = Some (shown b)" "show_strategy kr = Some (shown r)"
    using show_strategy_json [OF k(1)] show_strategy_json [OF k(2)] tot by simp_all
  define inc where "inc = calculate_incremental_recovered_revenue b r"
  have run: "p = print_results b r inc size_n seed" "file = results_for_dashboard b r inc size_n seed"
    using assms ex by (simp_all add: run_simulation_def Let_def population_def [symmetric] inc_def)
  have "show_simulation (Some file) = Some (Some \<lparr>page_baseline = shown b, page_recoverai = shown r,
      page_delta = ''+'' @ fixed_point False 1 ((recovery_rate r - recovery_rate b) * 100) @ '' pp'', page_incremental = format_inr inc\<rparr>)"
    using rate sh by (simp add: show_simulation_def run(2) results_for_dashboard_def as_obj_def get_or_def k as_int_def format_inr_def)
  moreover have "filter (\<lambda>row. fst row \<noteq> RUPEE @ '' At Risk'') (printed_rows p) =
      filter (\<lambda>row. fst row \<noteq> RUPEE @ '' At Risk'') (result_rows b r)" by (simp add: run(1) print_results_def)
  moreover have "RUPEE = [CHR 0xE2, CHR 0x82, CHR 0xB9]" by code_simp
  ultimately show ?thesis
    by (simp add: result_rows_def shown_def run(1) print_results_def Let_def)
qed

end
