(* ===== verification/Dashboard_Pages.thy ===== *)
theory Dashboard_Pages
  imports Dashboard Run_Simulation
begin

text \<open>
  The dashboard's client of the API, \<^verbatim>\<open>src/dashboard/api_client.py\<close>, and the pages
  \<^verbatim>\<open>pages/1_Metrics.py\<close> and \<^verbatim>\<open>pages/2_Cases.py\<close> as the values they put on the screen. The client's
  functions call the endpoints on the database directly; the transport in between (HTTP, JSON) is not
  modelled, \<open>raise_for_status()\<close> turns an error status into an exception, and \<open>except Exception\<close> of a
  page into its error message. \<open>show_time\<close> formats an instant. A selection is the position the user chose
  in a selection box; \<open>None\<close> leaves the default.
\<close>

subsection \<open>The client\<close>

definition raise_for_status :: "'a reply \<Rightarrow> 'a res" where
  "raise_for_status r = (case r of Reply x \<Rightarrow> Inr x | Http_Error _ \<Rightarrow> Inl (OtherException ''HTTPStatusError''))"

definition client_merchants :: "db \<Rightarrow> (uuid \<times> string) list res" where
  "client_merchants d = raise_for_status (Reply (read_merchants d))"

definition client_metrics :: "db \<Rightarrow> uuid \<Rightarrow> (uuid \<times> merchant_metrics) res" where
  "client_metrics d merchant_id = raise_for_status (Reply (read_metrics d merchant_id))"

text \<open>The query parameter is left out when \<open>status\<close> is empty; a text that is no status is refused with 422.\<close>

definition all_case_statuses :: "recovery_case_status list" where
  "all_case_statuses = [FAILED, ELIGIBLE, ANALYSING, ACTION_SELECTED, ACTION_SCHEDULED, WAITING, RECOVERED, STOPPED, ESCALATED]"

definition case_status_of_value :: "string \<Rightarrow> recovery_case_status option" where
  "case_status_of_value s = find (\<lambda>x. recovery_case_status_value x = s) all_case_statuses"

definition client_cases ::
  "db \<Rightarrow> uuid \<Rightarrow> int \<Rightarrow> int \<Rightarrow> string option \<Rightarrow> (case_summary list \<times> nat \<times> int \<times> int) res" where
  "client_cases d merchant_id limit offset status =
     (case (case status of None \<Rightarrow> Some None | Some s \<Rightarrow> if s = [] then Some None else map_option Some (case_status_of_value s)) of
        None \<Rightarrow> raise_for_status (Http_Error 422)
      | Some st \<Rightarrow> raise_for_status (read_cases d merchant_id limit offset st))"

definition client_case_detail ::
  "db \<Rightarrow> uuid \<Rightarrow> uuid \<Rightarrow> (case_summary \<times> action_summary list \<times> audit_timeline_entry list) res" where
  "client_case_detail d merchant_id case_id =
     (case read_case_detail d case_id merchant_id of
        Inl _ \<Rightarrow> raise_for_status (Http_Error 500)
      | Inr reply \<Rightarrow> raise_for_status reply)"

subsection \<open>Choosing a merchant\<close>

fun index_of :: "string \<Rightarrow> string list \<Rightarrow> nat option" where
  "index_of x [] = None"
| "index_of x (y # ys) = (if y = x then Some 0 else map_option Suc (index_of x ys))"

definition selected_name :: "string list \<Rightarrow> nat option \<Rightarrow> string" where
  "selected_name names choice =
     names ! (case choice of
                Some i \<Rightarrow> i
              | None \<Rightarrow> (case index_of ''Demo Merchant'' names of Some i \<Rightarrow> i | None \<Rightarrow> 0))"

text \<open>\<open>next(m for m in merchants if m["name"] == selected_name)["id"]\<close>\<close>

definition selected_merchant :: "(uuid \<times> string) list \<Rightarrow> nat option \<Rightarrow> uuid option" where
  "selected_merchant ms choice =
     map_option fst (find (\<lambda>m. snd m = selected_name (map snd ms) choice) ms)"

datatype 'a page = Shown 'a | No_merchants | Backend_unreachable | Load_failed

definition with_merchant :: "db \<Rightarrow> nat option \<Rightarrow> (uuid \<Rightarrow> 'a res) \<Rightarrow> 'a page" where
  "with_merchant d choice body =
     (case client_merchants d of
        Inl _ \<Rightarrow> Backend_unreachable
      | Inr ms \<Rightarrow>
          if ms = [] then No_merchants
          else case selected_merchant ms choice of
                 None \<Rightarrow> Load_failed
               | Some i \<Rightarrow> (case body i of Inl _ \<Rightarrow> Load_failed | Inr x \<Rightarrow> Shown x))"

subsection \<open>Metrics\<close>

definition metrics_figures :: "merchant_metrics \<Rightarrow> (string \<times> string) list" where
  "metrics_figures m =
     [(''Revenue at Risk'', RUPEE @ fixed_point True 2 (of_int (mm_total_amount_at_risk_minor m) / 100)),
      (''Recovered Revenue'', RUPEE @ fixed_point True 2 (of_int (mm_recovered_amount_minor m) / 100)),
      (''Recovered Revenue delta'', fixed_point False 1 (mm_recovery_rate_percent m) @ ''% recovery rate''),
      (''Total Cases'', commas (mm_total_cases m)), (''Recovered Cases'', commas (mm_recovered_cases m)),
      (''Recovery Actions'', commas (mm_total_actions m)),
      (''Avg Time to Recovery'', fixed_point False 1 (mm_avg_time_to_recovery_hours m) @ '' hrs''),
      (''Stopped Cases'', commas (mm_stopped_cases m)), (''Escalated Cases'', commas (mm_escalated_cases m))]"

definition metrics_page :: "db \<Rightarrow> nat option \<Rightarrow> (string \<times> string) list page" where
  "metrics_page d choice =
     with_merchant d choice (\<lambda>i. res_bind (client_metrics d i) (\<lambda>(_, m). Inr (metrics_figures m)))"

subsection \<open>Cases\<close>

text \<open>\<open>value.replace("_", " ").title()\<close> on ASCII text.\<close>

fun title_from :: "bool \<Rightarrow> string \<Rightarrow> string" where
  "title_from after_letter [] = []"
| "title_from after_letter (c # cs) =
     (if after_letter then [py_lower_char c] else py_upper_char c) @ title_from (py_isalpha_char c) cs"

definition humanize :: "string \<Rightarrow> string" where
  "humanize s = title_from False (map (\<lambda>c. if c = CHR ''_'' then CHR '' '' else c) s)"

definition status_options :: "string list" where
  "status_options =
     [''All'', ''ELIGIBLE'', ''ANALYSING'', ''ACTION_SELECTED'', ''ACTION_SCHEDULED'', ''WAITING'', ''RECOVERED'', ''STOPPED'', ''ESCALATED'']"

record case_line =
  line_id :: uuid
  line_status :: string
  line_category :: "string option"
  line_amount :: rat
  line_created :: string

definition case_line_of :: "(int \<Rightarrow> string) \<Rightarrow> case_summary \<Rightarrow> case_line" where
  "case_line_of show_time c =
     \<lparr>line_id = cs_id c, line_status = humanize (recovery_case_status_value (cs_status c)), line_category = cs_failure_category c,
      line_amount = of_int (cs_amount_minor c) / 100, line_created = show_time (cs_created_at c)\<rparr>"

record action_line =
  line_action :: string
  line_action_status :: string
  line_attempt :: int
  line_reference :: string
  line_action_created :: string

definition action_line_of :: "(int \<Rightarrow> string) \<Rightarrow> action_summary \<Rightarrow> action_line" where
  "action_line_of show_time a =
     \<lparr>line_action = humanize (recovery_action_type_value (as_action_type a)),
      line_action_status = humanize (recovery_action_status_value (as_status a)), line_attempt = as_attempt_number a,
      line_reference = (case as_provider_reference a of None \<Rightarrow> ''-'' | Some r \<Rightarrow> r),
      line_action_created = show_time (as_created_at a)\<rparr>"

record detail_view =
  view_status :: string
  view_amount :: string
  view_failure :: string
  view_actions :: "action_line list"
  view_audits :: "(string \<times> string \<times> int \<times> json_obj) list"

text \<open>\<open>case_info.get("failure_category") or "N/A"\<close>\<close>

definition detail_view_of :: "(int \<Rightarrow> string) \<Rightarrow> case_summary \<times> action_summary list \<times> audit_timeline_entry list \<Rightarrow> detail_view" where
  "detail_view_of show_time detail =
     (let (c, actions, audits) = detail
      in \<lparr>view_status = humanize (recovery_case_status_value (cs_status c)),
          view_amount = RUPEE @ fixed_point True 2 (of_int (cs_amount_minor c) / 100),
          view_failure = (case cs_failure_category c of None \<Rightarrow> ''N/A'' | Some f \<Rightarrow> if f = [] then ''N/A'' else f),
          view_actions = map (action_line_of show_time) actions,
          view_audits = map (\<lambda>e. (at_event_type e, at_actor e, at_created_at e, at_payload e)) audits\<rparr>)"

record cases_view =
  view_count :: nat
  view_total :: nat
  view_lines :: "case_line list"
  view_detail :: "detail_view option"

text \<open>\<open>st.stop()\<close> on an empty list ends the page before the detail; \<open>k\<close> is the case chosen, the first by default.\<close>

definition cases_body :: "(int \<Rightarrow> string) \<Rightarrow> db \<Rightarrow> string \<Rightarrow> nat \<Rightarrow> uuid \<Rightarrow> cases_view res" where
  "cases_body show_time d status_filter k i =
     res_bind (client_cases d i 50 0 (if status_filter = ''All'' then None else Some status_filter)) (\<lambda>(items, total, _, _).
       if items = [] then Inr \<lparr>view_count = 0, view_total = total, view_lines = [], view_detail = None\<rparr>
       else
         res_bind (client_case_detail d i (cs_id (items ! k))) (\<lambda>detail.
           Inr \<lparr>view_count = length items, view_total = total, view_lines = map (case_line_of show_time) items,
             view_detail = Some (detail_view_of show_time detail)\<rparr>))"

definition cases_page :: "(int \<Rightarrow> string) \<Rightarrow> db \<Rightarrow> nat option \<Rightarrow> string \<Rightarrow> nat \<Rightarrow> cases_view page" where
  "cases_page show_time d choice status_filter k = with_merchant d choice (cases_body show_time d status_filter k)"

subsection \<open>What the pages show\<close>

lemma case_status_of_value_inverse: "case_status_of_value (recovery_case_status_value s) = Some s"
  by (cases s) (simp_all add: case_status_of_value_def all_case_statuses_def)

text \<open>The filter offers every status but \<open>FAILED\<close>.\<close>

lemma status_options_values:
  "set (tl status_options) = recovery_case_status_value ` (set all_case_statuses - {FAILED})"
  by code_simp

text \<open>
  Every case the list shows can be opened: for each filter and each line, the detail loads, and it is the
  detail of that very case, of the chosen merchant and with the wanted status.
\<close>

lemma listed_case_opens:
  assumes ok: "db_ok d" and status: "status_filter \<in> set status_options"
    and items: "client_cases d i 50 0 (if status_filter = ''All'' then None else Some status_filter) = Inr (items, n, l, off)"
    and k: "k < length items"
  shows "\<exists>view. cases_body show_time d status_filter k i = Inr view
    \<and> view_count view = length items \<and> length items = min 50 n
    \<and> cs_merchant_id (items ! k) = i
    \<and> (status_filter = ''All'' \<or> recovery_case_status_value (cs_status (items ! k)) = status_filter)
    \<and> map_option view_status (view_detail view) = Some (line_status (view_lines view ! k))"
proof -
  obtain st where st: "read_cases d i 50 0 st = Reply (items, n, l, off)"
    and stv: "status_filter = ''All'' \<and> st = None \<or> (\<exists>s. st = Some s \<and> recovery_case_status_value s = status_filter)"
  proof (cases "status_filter = ''All''")
    case True
    with items show ?thesis by (intro that [of None]) (auto simp: client_cases_def raise_for_status_def split: reply.splits)
  next
    case False
    with status have "status_filter \<in> set (tl status_options)" by (simp add: status_options_def)
    then obtain s where s: "status_filter = recovery_case_status_value s" unfolding status_options_values by blast
    moreover have "status_filter \<noteq> []" unfolding s by (cases s) simp_all
    ultimately show ?thesis using items False
      by (intro that [of "Some s"])
        (auto simp: client_cases_def raise_for_status_def case_status_of_value_inverse split: reply.splits)
  qed
  let ?m = "matching_cases d i st"
  have it: "items = map case_summary_of (take 50 (sort_key (\<lambda>c. - rc_created_at c) ?m))" "n = length ?m"
    using st by (simp_all add: read_cases_def get_paginated_cases_def Let_def)
  define c where "c = take 50 (sort_key (\<lambda>c. - rc_created_at c) ?m) ! k"
  have "c \<in> set (take 50 (sort_key (\<lambda>c. - rc_created_at c) ?m))" unfolding c_def by (rule nth_mem) (use k it in simp)
  then have "c \<in> set ?m" using set_take_subset by fastforce
  then have c: "c \<in> set (recovery_cases d)" "rc_merchant_id c = i" "\<And>s. st = Some s \<Longrightarrow> rc_status c = s"
    by (auto simp: matching_cases_def)
  have ik: "items ! k = case_summary_of c" using k by (simp add: it c_def)
  have "get_case d (rc_id c) = Some c"
    using get_row_distinct [OF db_ok_distinct(3) [OF ok] c(1)] by (simp add: get_defs)
  then obtain actions audits where "read_case_detail d (rc_id c) i
      = Inr (Reply (case_summary_of c, map action_summary_of actions, map audit_entry_of audits))"
    using case_detail_cases [OF ok, of "rc_id c" i] c(2) by auto
  then have det: "client_case_detail d i (cs_id (items ! k)) = Inr (case_summary_of c, map action_summary_of actions, map audit_entry_of audits)"
    by (simp add: client_case_detail_def raise_for_status_def ik case_summary_of_def)
  have "items \<noteq> []" using k by auto
  then have "cases_body show_time d status_filter k i = Inr \<lparr>view_count = length items, view_total = n,
      view_lines = map (case_line_of show_time) items,
      view_detail = Some (detail_view_of show_time (case_summary_of c, map action_summary_of actions, map audit_entry_of audits))\<rparr>"
    using items det by (simp add: cases_body_def)
  moreover have "length items = min 50 n" by (simp add: it min_def)
  ultimately show ?thesis
    using c(2,3) stv k
    by (auto simp: ik case_summary_of_def detail_view_of_def case_line_of_def)
qed

text \<open>
  Of two merchants with one name the later one can never be chosen: whatever the selection, the pages show
  a merchant whose name no earlier merchant has.
\<close>

lemma selected_merchant_first:
  assumes "selected_merchant ms choice = Some i"
  shows "\<exists>k < length ms. fst (ms ! k) = i \<and> (\<forall>j < k. snd (ms ! j) \<noteq> snd (ms ! k))"
proof -
  from assms obtain x where "find (\<lambda>m. snd m = selected_name (map snd ms) choice) ms = Some x" "i = fst x"
    by (auto simp: selected_merchant_def)
  then show ?thesis unfolding find_Some_iff by auto
qed

lemma same_name_unreachable:
  assumes "distinct (map fst ms)" and "j < k" and "k < length ms" and "snd (ms ! j) = snd (ms ! k)"
  shows "selected_merchant ms choice \<noteq> Some (fst (ms ! k))"
proof
  assume "selected_merchant ms choice = Some (fst (ms ! k))"
  then obtain k' where k': "k' < length ms" "fst (ms ! k') = fst (ms ! k)" "\<forall>j < k'. snd (ms ! j) \<noteq> snd (ms ! k')"
    using selected_merchant_first by blast
  have "k' = k" using assms(1,3) k'(1,2) by (metis length_map nth_eq_iff_index_eq nth_map)
  with k'(3) assms(2,4) show False by blast
qed

subsection \<open>The overview\<close>

text \<open>
  The row of the pipeline on the page \<^verbatim>\<open>src/dashboard/Overview.py\<close>: a column per step and a narrow one
  with an arrow between two steps. \<open>None\<close> is a column without text.
\<close>

definition overview_pipeline :: "string list" where
  "overview_pipeline = [''Detect'', ''Understand'', ''Decide'', ''Policy Check'', ''Act'', ''Observe'', ''Measure'']"

definition overview_columns :: "string list \<Rightarrow> string option list" where
  "overview_columns pipeline =
     foldl (\<lambda>cols (i, step).
              let cols1 = cols[i * 2 := Some (''**'' @ step @ ''**'')]
              in if i + 1 < length pipeline then cols1[i * 2 + 1 := Some (''--'' @ ARROW)] else cols1)
       (replicate (length pipeline * 2 - 1) None) (enumerate 0 pipeline)"

lemma overview_columns_filled:
  "map (map_option length) (overview_columns overview_pipeline)
     = [Some 10, Some 5, Some 14, Some 5, Some 10, Some 5, Some 16, Some 5, Some 7, Some 5, Some 11, Some 5, Some 11]"
  by code_simp

end
