(* ===== verification/Assumption_Lab.thy ===== *)
theory Assumption_Lab
  imports Run_Simulation "HOL-Library.AList"
begin

text \<open>
  The lab on the simulation's assumptions, \<^verbatim>\<open>src/labs/simulation_assumption_lab.py\<close>: the experiment under
  the original table of probabilities and under two tables with one changed entry. The table is the
  state the lab works on; it returns what it prints for each run and the table it leaves behind.
\<close>

subsection \<open>The lab\<close>

text \<open>\<open>table[category][action]\<close>, read and written; a missing key raises \<open>KeyError\<close>.\<close>

definition table_entry :: "probability_table \<Rightarrow> string \<Rightarrow> string \<Rightarrow> rat res" where
  "table_entry table category action =
     (case map_of table category of
        None \<Rightarrow> Inl (OtherException ''KeyError'')
      | Some row \<Rightarrow> (case map_of row action of None \<Rightarrow> Inl (OtherException ''KeyError'') | Some x \<Rightarrow> Inr x))"

definition set_table_entry :: "string \<Rightarrow> string \<Rightarrow> rat \<Rightarrow> probability_table \<Rightarrow> probability_table res" where
  "set_table_entry category action x table =
     (case map_of table category of
        None \<Rightarrow> Inl (OtherException ''KeyError'')
      | Some row \<Rightarrow> Inr (AList.update category (AList.update action x row) table))"

record lab_report =
  report_label :: string
  report_baseline_rate :: string
  report_recoverai_rate :: string
  report_incremental :: string

definition report :: "string \<Rightarrow> strategy_result \<times> strategy_result \<Rightarrow> lab_report" where
  "report label results =
     (let (baseline, recoverai) = results;
          incremental = recovered_amount_minor recoverai - recovered_amount_minor baseline
      in \<lparr>report_label = label, report_baseline_rate = percent1 (recovery_rate baseline),
          report_recoverai_rate = percent1 (recovery_rate recoverai),
          report_incremental = RUPEE @ fixed_point True 2 (of_int incremental / 100)\<rparr>)"

definition assumption_results :: "'s rng \<Rightarrow> (int \<Rightarrow> 's) \<Rightarrow> probability_table \<Rightarrow> strategy_result \<times> strategy_result" where
  "assumption_results g seeded table =
     (let population = generate_population g 5000 (seeded 42) None in run_experiment g table population (seeded 42))"

definition run_with_label :: "'s rng \<Rightarrow> (int \<Rightarrow> 's) \<Rightarrow> string \<Rightarrow> probability_table \<Rightarrow> lab_report" where
  "run_with_label g seeded label table = report label (assumption_results g seeded table)"

definition LAB_LABELS :: "string list" where
  "LAB_LABELS =
     [''Original assumptions'',
      ''Reduced payment link effectiveness (0.45 '' @ ARROW @ '' 0.10)'',
      ''Increased reminder effectiveness (0.20 '' @ ARROW @ '' 0.50)'']"

definition simulation_assumption_lab ::
  "'s rng \<Rightarrow> (int \<Rightarrow> 's) \<Rightarrow> probability_table \<Rightarrow> (lab_report list \<times> probability_table) res" where
  "simulation_assumption_lab g seeded table =
     (let first = run_with_label g seeded (LAB_LABELS ! 0) table in
      res_bind (table_entry table ''expired_instrument'' ''CREATE_PAYMENT_LINK'') (\<lambda>original.
      res_bind (set_table_entry ''expired_instrument'' ''CREATE_PAYMENT_LINK'' (10 / 100) table) (\<lambda>t1.
      let second = run_with_label g seeded (LAB_LABELS ! 1) t1 in
      res_bind (set_table_entry ''expired_instrument'' ''CREATE_PAYMENT_LINK'' original t1) (\<lambda>t2.
      res_bind (table_entry t2 ''insufficient_funds'' ''SEND_REMINDER'') (\<lambda>original_reminder.
      res_bind (set_table_entry ''insufficient_funds'' ''SEND_REMINDER'' (50 / 100) t2) (\<lambda>t3.
      let third = run_with_label g seeded (LAB_LABELS ! 2) t3 in
      res_bind (set_table_entry ''insufficient_funds'' ''SEND_REMINDER'' original_reminder t3) (\<lambda>t4.
        Inr ([first, second, third], t4))))))))"

subsection \<open>One changed entry\<close>

lemma table_entry_of:
  "table_entry table c a = Inr x \<Longrightarrow> get_recovery_probability table c a = x"
  by (auto simp: table_entry_def get_recovery_probability_def split: option.splits)

lemma get_set_table_entry:
  assumes "set_table_entry c a x table = Inr table'"
  shows "get_recovery_probability table' c' a' =
    (if c' = c \<and> a' = a then x else get_recovery_probability table c' a')"
proof -
  obtain row where row: "map_of table c = Some row" "table' = AList.update c (AList.update a x row) table"
    using assms by (auto simp: set_table_entry_def split: option.splits)
  then show ?thesis by (cases "c' = c") (simp_all add: get_recovery_probability_def update_conv')
qed

lemma update_same: "map_of xs k = Some v \<Longrightarrow> AList.update k v xs = xs"
  by (induction xs) auto

lemma update_update_same: "map_of xs k = Some v \<Longrightarrow> AList.update k v (AList.update k w xs) = xs"
  by (induction xs) (auto simp: update_same)

text \<open>Writing the old value back restores the table, including the order of its entries.\<close>

lemma restore_table_entry:
  assumes "table_entry table c a = Inr x" and "set_table_entry c a y table = Inr table'"
  shows "set_table_entry c a x table' = Inr table"
proof -
  obtain row where row: "map_of table c = Some row" "map_of row a = Some x"
    using assms(1) by (auto simp: table_entry_def split: option.splits)
  have t': "table' = AList.update c (AList.update a y row) table"
    using assms(2) row(1) by (simp add: set_table_entry_def)
  have "set_table_entry c a x table' = Inr (AList.update c (AList.update a x (AList.update a y row)) table')"
    by (simp add: set_table_entry_def t' update_conv')
  also have "AList.update a x (AList.update a y row) = row" using row(2) by (rule update_update_same)
  also have "AList.update c row table' = table" unfolding t' using row(1) by (rule update_update_same)
  finally show ?thesis .
qed

subsection \<open>Runs under two tables\<close>

text \<open>A run depends on the table only through the entries its decisions look up.\<close>

lemma strategy_run_cong:
  assumes "\<And>p. p \<in> set ps \<Longrightarrow>
      get_recovery_probability table (sp_failure_category p) (recovery_action_type_value (decide p))
    = get_recovery_probability table' (sp_failure_category p) (recovery_action_type_value (decide p))"
  shows "strategy_run g table decide ps x = strategy_run g table' decide ps x"
proof -
  have "run_case g table (decide p) p acc = run_case g table' (decide p) p acc" if "p \<in> set ps" for p acc
    using assms [OF that] by (simp add: run_case_def simulate_outcome_def)
  then show ?thesis unfolding strategy_run_def by (intro fold_cong) auto
qed

lemma baseline_unaffected:
  assumes "set_table_entry c a x table = Inr table'" and "a \<noteq> ''SEND_REMINDER''"
  shows "strategy_run g table' baseline_decide ps s = strategy_run g table baseline_decide ps s"
  by (rule strategy_run_cong) (use assms(2) in \<open>simp add: get_set_table_entry [OF assms(1)] baseline_decide_def\<close>)

text \<open>RecoverAI never sends a reminder to a customer without funds.\<close>

lemma no_reminder_without_funds:
  assumes "sp_failure_category p = ''insufficient_funds''" and "1000 \<le> sp_amount_minor p"
  shows "recoverai_decide p None \<noteq> SEND_REMINDER"
  using recoverai_action [of p] assms by (simp add: known_category_def)

lemma recoverai_unaffected:
  assumes "set_table_entry ''insufficient_funds'' ''SEND_REMINDER'' x table = Inr table'"
    and "\<forall>p \<in> set ps. 1000 \<le> sp_amount_minor p"
  shows "strategy_run g table' (\<lambda>p. recoverai_decide p None) ps s = strategy_run g table (\<lambda>p. recoverai_decide p None) ps s"
proof (rule strategy_run_cong)
  fix p assume "p \<in> set ps"
  then have "sp_failure_category p = ''insufficient_funds'' \<Longrightarrow> recoverai_decide p None \<noteq> SEND_REMINDER"
    using assms(2) no_reminder_without_funds by blast
  then show "get_recovery_probability table' (sp_failure_category p) (recovery_action_type_value (recoverai_decide p None))
      = get_recovery_probability table (sp_failure_category p) (recovery_action_type_value (recoverai_decide p None))"
    by (cases "recoverai_decide p None") (auto simp: get_set_table_entry [OF assms(1)])
qed

lemma changed_table_dominated:
  assumes "set_table_entry c a x table = Inr table'" and "\<forall>p \<in> set ps. 0 \<le> sp_amount_minor p"
  shows "x \<le> get_recovery_probability table c a \<Longrightarrow> dominated (strategy_run g table' decide ps s) (strategy_run g table decide ps s)"
    and "get_recovery_probability table c a \<le> x \<Longrightarrow> dominated (strategy_run g table decide ps s) (strategy_run g table' decide ps s)"
  using assms(2)
  by (auto intro!: strategy_run_dominated simp: get_set_table_entry [OF assms(1)]) (simp_all add: dominated_def)

subsection \<open>What the lab shows\<close>

text \<open>
  C39: the lab changes the increment it reports in the direction its labels suggest, on every run and
  not only on average: with less effective payment links the baseline's results are the same to the
  last figure and RecoverAI recovers at most as much as before; with more effective reminders
  RecoverAI's results are the same and the baseline recovers at least as much. So neither change can
  raise the incremental revenue. The lab raises nothing and leaves the table as it was.
\<close>

theorem assumption_lab_directions:
  assumes "rng_ok g"
  shows "\<exists>b r r' b'.
      simulation_assumption_lab g seeded SIMULATED_RECOVERY_PROBABILITIES
        = Inr ([report (LAB_LABELS ! 0) (b, r), report (LAB_LABELS ! 1) (b, r'), report (LAB_LABELS ! 2) (b', r)],
               SIMULATED_RECOVERY_PROBABILITIES)
    \<and> recovered_cases r' \<le> recovered_cases r \<and> recovered_cases b \<le> recovered_cases b'
    \<and> calculate_incremental_recovered_revenue b r' \<le> calculate_incremental_recovered_revenue b r
    \<and> calculate_incremental_recovered_revenue b' r \<le> calculate_incremental_recovered_revenue b r"
proof -
  let ?t = SIMULATED_RECOVERY_PROBABILITIES
  let ?e = "''expired_instrument''" let ?l = "''CREATE_PAYMENT_LINK''"
  let ?f = "''insufficient_funds''" let ?m = "''SEND_REMINDER''"
  define ps where "ps = generate_population g 5000 (seeded 42) None"
  have amounts: "\<forall>p \<in> set ps. 1000 \<le> sp_amount_minor p" "\<forall>p \<in> set ps. 0 \<le> sp_amount_minor p"
    using generate_population_ok [OF assms, of 5000 "seeded 42" None]
    by (fastforce simp: ps_def MIN_RECOVERABLE_AMOUNT_MINOR_def)+
  have old: "table_entry ?t ?e ?l = Inr (45 / 100)" "table_entry ?t ?f ?m = Inr (20 / 100)"
    by (simp_all add: table_entry_def SIMULATED_RECOVERY_PROBABILITIES_def)
  obtain t1 where t1: "set_table_entry ?e ?l (10 / 100) ?t = Inr t1"
    using old(1) by (fastforce simp: set_table_entry_def table_entry_def split: option.splits)
  obtain t3 where t3: "set_table_entry ?f ?m (50 / 100) ?t = Inr t3"
    using old(2) by (fastforce simp: set_table_entry_def table_entry_def split: option.splits)
  define base where "base = (\<lambda>t. strategy_run g t baseline_decide ps (new_strategy_result ''Baseline'', seeded 42))"
  define reco where "reco = (\<lambda>t. strategy_run g t (\<lambda>p. recoverai_decide p None) ps (new_strategy_result ''RecoverAI'', seeded 42))"
  have res: "assumption_results g seeded t = (fst (base t), fst (reco t))" for t
    by (simp add: assumption_results_def run_experiment_runs ps_def [symmetric] base_def reco_def)
  have same: "base t1 = base ?t" "reco t3 = reco ?t"
    using baseline_unaffected [OF t1] recoverai_unaffected [OF t3 amounts(1)] by (simp_all add: base_def reco_def)
  have "dominated (reco t1) (reco ?t)" "dominated (base ?t) (base t3)"
    using changed_table_dominated [OF t1 amounts(2)] changed_table_dominated [OF t3 amounts(2)] old [THEN table_entry_of]
    by (simp_all add: base_def reco_def)
  then have "recovered_cases (fst (reco t1)) \<le> recovered_cases (fst (reco ?t)) \<and> recovered_cases (fst (base ?t)) \<le> recovered_cases (fst (base t3))
    \<and> calculate_incremental_recovered_revenue (fst (base ?t)) (fst (reco t1)) \<le> calculate_incremental_recovered_revenue (fst (base ?t)) (fst (reco ?t))
    \<and> calculate_incremental_recovered_revenue (fst (base t3)) (fst (reco ?t)) \<le> calculate_incremental_recovered_revenue (fst (base ?t)) (fst (reco ?t))"
    by (simp add: dominated_def calculate_incremental_recovered_revenue_def)
  moreover have "simulation_assumption_lab g seeded ?t
      = Inr ([report (LAB_LABELS ! 0) (assumption_results g seeded ?t), report (LAB_LABELS ! 1) (assumption_results g seeded t1),
              report (LAB_LABELS ! 2) (assumption_results g seeded t3)], ?t)"
    unfolding simulation_assumption_lab_def run_with_label_def Let_def old(1) res_bind.simps t1
      restore_table_entry [OF old(1) t1] old(2) t3 restore_table_entry [OF old(2) t3] ..
  ultimately show ?thesis
    by (intro exI [of _ "fst (base ?t)"] exI [of _ "fst (reco ?t)"] exI [of _ "fst (reco t1)"] exI [of _ "fst (base t3)"])
      (simp add: res same)
qed

text \<open>
  The guarantee of \<open>recoverai_dominates_baseline\<close> does rest on the table: under the lab's second table
  one draw of a fifth makes RecoverAI lose a payment that a reminder recovers.
\<close>

definition fifth :: "unit rng" where
  "fifth = \<lparr>rng_random = (\<lambda>s. (1 / 5, s)), rng_randint = (\<lambda>a b s. (a, s)), rng_choice = (\<lambda>cs s. (hd cs, s)),
     rng_choices = (\<lambda>xs ws s. (hd xs, s))\<rparr>"

lemma fifth_ok: "rng_ok fifth"
  by (simp add: rng_ok_def fifth_def)

lemma reduced_table_loses:
  assumes "set_table_entry ''expired_instrument'' ''CREATE_PAYMENT_LINK'' (10 / 100) SIMULATED_RECOVERY_PROBABILITIES = Inr table"
    and "sp_failure_category p = ''expired_instrument''" and "1000 \<le> sp_amount_minor p" and "sp_amount_minor p < 5000000"
  shows "case run_experiment fifth table [p] () of (b, r) \<Rightarrow>
    calculate_incremental_recovered_revenue b r = - sp_amount_minor p"
proof -
  have "recoverai_decide p None = CREATE_PAYMENT_LINK"
    using recoverai_action [of p] assms(2-4) by (simp add: known_category_def)
  moreover have "get_recovery_probability table ''expired_instrument'' ''SEND_REMINDER'' = 25 / 100"
    by (simp add: get_set_table_entry [OF assms(1)]) (simp add: get_recovery_probability_def SIMULATED_RECOVERY_PROBABILITIES_def)
  moreover have "get_recovery_probability table ''expired_instrument'' ''CREATE_PAYMENT_LINK'' = 10 / 100"
    by (simp add: get_set_table_entry [OF assms(1)])
  ultimately show ?thesis
    using assms(2)
    by (simp add: run_experiment_runs strategy_run_def run_case_def simulate_outcome_def fifth_def baseline_decide_def
        Let_def new_strategy_result_def calculate_incremental_recovered_revenue_def)
qed

end
