(* ===== verification/Witnesses_Labs.thy ===== *)
theory Witnesses_Labs
  imports Witnesses_Scripts Stale_Execution Dual_Write Labs_Pure Dashboard_Pages Assumption_Lab
begin

text \<open>The theorems on the labs, applied to the small database.\<close>

theorem concurrent_lab_verdict_witness:
  "\<exists>s d'. concurrent_lab base_db [Reads 1, Reads 0, Opens, Writes 0, Writes 1] = Some (s, Some (ANALYSING, 2), True, d')
     \<and> lab_results s = [1, 0] \<and> d' = base_db\<lparr>uuid_drawn := uuid_drawn (lab_db s)\<rparr>"
proof -
  have fresh: "fresh_from 5 base_db" by (rule base_fresh) simp
  obtain s final passed d' where run: "concurrent_lab base_db [Reads 1, Reads 0, Opens, Writes 0, Writes 1] = Some (s, final, passed, d')"
    and fin: "lab_workers s = [Ended, Ended]" and err: "lab_errors s = []"
    using concurrent_lab_runs [OF demo_db_ok(1) fresh, of 1 0] by auto
  have "lab_audit_rows (draw base_db 3) base_db = []" by code_simp
  from concurrent_lab_verdict [OF demo_db_ok(1) fresh this run fin] run err show ?thesis by auto
qed

theorem stale_execution_lab_passes_witness:
  "\<exists>d. db_ok d \<and> stale_execution_lab demo_exec_env no_exec_rivals d =
    (Inr [(''status'', JStr ''cancelled''), (''reason'', JStr ''terminal_state_protected'')], d\<lparr>uuid_drawn := uuid_drawn d + 8\<rparr>)"
proof -
  have "canonical_keys base_db" by code_simp
  from stale_execution_lab_passes [OF demo_db_ok(1) this base_fresh, of demo_exec_env] demo_db_ok(1) show ?thesis by auto
qed

theorem dual_write_lab_spec_witness:
  "\<exists>row. dual_write_lab base_db = (Inr ([], [row]), base_db\<lparr>uuid_drawn := 6\<rparr>) \<and> ob_status row = O_PENDING"
proof -
  have "rows_for (draw base_db 2) base_db = []" "rows_for (draw base_db 4) base_db = []" "uuid_drawn base_db = 0"
    "\<not> list_ex (\<lambda>b. ob_idempotency_key b = ''payment.failed:'' @ uuid_str (draw base_db 4)) (outbox_events base_db)"
    by code_simp+
  then show ?thesis using dual_write_lab_spec [OF demo_db_ok(1) base_fresh] by auto
qed

text \<open>The assumption lab, with a generator that always draws a fifth.\<close>

theorem assumption_lab_directions_witness:
  "\<exists>b r r' b'.
      simulation_assumption_lab fifth (\<lambda>_. ()) SIMULATED_RECOVERY_PROBABILITIES
        = Inr ([report (LAB_LABELS ! 0) (b, r), report (LAB_LABELS ! 1) (b, r'), report (LAB_LABELS ! 2) (b', r)],
               SIMULATED_RECOVERY_PROBABILITIES)
    \<and> recovered_cases r' \<le> recovered_cases r \<and> recovered_cases b \<le> recovered_cases b'
    \<and> calculate_incremental_recovered_revenue b r' \<le> calculate_incremental_recovered_revenue b r
    \<and> calculate_incremental_recovered_revenue b' r \<le> calculate_incremental_recovered_revenue b r"
  by (rule assumption_lab_directions [OF fifth_ok])

end
