(* ===== verification/Pipeline.thy ===== *)
theory Pipeline
  imports System Webhook_Outcomes
begin

text \<open>
  The parts in a row: from a scheduled action to the record of its outcome, from an eligible case to
  that record, and from the webhook of a failed payment to it. Each stage is a run of \<open>System\<close> in which
  broker and workers do their work; the lemmas of the stages are composed.
\<close>

subsection \<open>The executor's stage\<close>

text \<open>
  \<open>settled env cx c d\<close>: the database holds the outcome of the call made in context \<open>cx\<close>, where \<open>c\<close> is
  the case before.
\<close>

definition settled :: "exec_env \<Rightarrow> exec_context \<Rightarrow> recovery_case \<Rightarrow> db \<Rightarrow> bool" where
  "settled env cx c d \<longleftrightarrow>
     (\<exists>a c'. get_action d (cx_action_id cx) = Some a \<and> get_case d (cx_case_id cx) = Some c'
    \<and> (case execute_external env cx of
         Inl e \<Rightarrow> ra_status a = A_FAILED \<and> ra_failure_reason a = Some (take 512 (exc_str env e)) \<and> c' = c
       | Inr (ref, details) \<Rightarrow>
           if storable_reference ref
           then ra_status a = A_EXECUTED \<and> json_opt_str (ra_provider_reference a) = ref
             \<and> rc_status c' = WAITING \<and> rc_version c' = rc_version c + 1
           else ra_status a = A_EXECUTING \<and> c' = c))"

lemma recorded_settled:
  assumes x: "executing cx a c d" and c: "rc_status c = ACTION_SCHEDULED"
  shows "settled env cx c (snd (execute_claimed env no_exec_rivals cx d))"
proof -
  have out: "executing cx a c (during_call no_exec_rivals d)" using x by simp
  show ?thesis
  proof (cases "execute_external env cx")
    case (Inl e)
    from execution_outcome [OF out, of env] Inl show ?thesis by (auto simp: settled_def)
  next
    case (Inr y)
    obtain ref details where y: "y = (ref, details)" by (cases y)
    show ?thesis
    proof (cases "storable_reference ref")
      case True
      with execution_outcome [OF out, of env] Inr y c show ?thesis by (auto simp: settled_def case_after_def)
    next
      case False
      with execution_outcome [OF out, of env] Inr y x show ?thesis by (auto simp: settled_def executing_def)
    qed
  qed
qed

text \<open>The two identifiers the executor's audit entries get are unused.\<close>

definition unused_audits :: "db \<Rightarrow> bool" where
  "unused_audits d \<longleftrightarrow> get_audit d (draw d 0) = None \<and> get_audit d (draw d 1) = None \<and> draw d 0 \<noteq> draw d 1"

lemma action_executed:
  assumes ok: "db_ok (store s)" and a: "get_action (store s) x = Some a" "ra_status a = A_APPROVED"
    and c: "get_case (store s) (ra_recovery_case_id a) = Some c" "rc_status c = ACTION_SCHEDULED" "integer_ok (rc_version c + 1)"
    and b: "b \<in> set (outbox_events (store s))" "b = action_scheduled_event (ob_id b) c0 a m (ob_created_at b)"
    and p: "policy \<in> set (merchant_policies (store s))" "mp_merchant_id policy = rc_merchant_id c"
    and perm: "permitted (policy_limits_from policy) (build_policy_input (store s) c (ra_action_type a) (rc_status c) (Some x))"
    and ids: "unused_audits (store s)"
  shows "\<exists>s'. sys_run w s s' \<and> called s' = x # called s
    \<and> settled (exec_side w) (context_of (store s) c a) c (store s')"
proof -
  define t where "t = (case m of None \<Rightarrow> clock (store s) | Some t \<Rightarrow> max t (clock (store s)))"
  define s0 where "s0 = s\<lparr>store := (store s)\<lparr>clock := t\<rparr>\<rparr>"
  have tick: "sys_step w s s0" unfolding s0_def by (rule Tick) (simp add: t_def split: option.split)
  have ok0: "db_ok (store s0)" using sys_step_db [OF tick ok] ok db_step_ok by blast
  have b': "ob_event_type b = ''recovery_case.action_scheduled''" "ob_attempts b = 0" "ob_status b = O_PENDING"
    "ob_deliver_at b = m" "obj_get (ob_payload b) ''recovery_action_id'' = JStr (uuid_str x)"
    using action_table.get_key [OF a(1)] by (subst b(2); simp add: action_scheduled_event_def obj_get_def)+
  have "get_outbox (store s0) (ob_id b) = Some b"
    using get_row_distinct [OF db_ok_distinct(7) [OF ok] b(1)] by (simp add: s0_def get_defs)
  moreover have "due (clock (store s0)) b" "integer_ok (ob_attempts b + 1)"
    using b' by (simp_all add: due_def s0_def t_def integer_ok_def split: option.split)
  ultimately obtain os b1 where
    disp: "sys_step w s0 (s0\<lparr>store := (store s0)\<lparr>outbox_events := os\<rparr>, broker := broker s0 @ [uuid_str (ob_id b)]\<rparr>)"
    and b1: "get_row ob_id (ob_id b) os = Some b1" "ob_event_type b1 = ob_event_type b" "ob_payload b1 = ob_payload b"
    and ok1: "db_ok ((store s0)\<lparr>outbox_events := os\<rparr>)"
    using dispatch_step [OF ok0] by metis
  define d1 where "d1 = (store s)\<lparr>clock := t, outbox_events := os\<rparr>"
  have d1: "d1 = (store s0)\<lparr>outbox_events := os\<rparr>" by (simp add: d1_def s0_def)
  define s1 where "s1 = s0\<lparr>store := d1, broker := broker s0 @ [uuid_str (ob_id b)]\<rparr>"
  have perm1: "permitted (policy_limits_from policy) (build_policy_input d1 c (ra_action_type a) (rc_status c) (Some x))"
    using perm build_policy_input_actions [of d1 "store s"] by (simp add: d1_def)
  have rows1: "db_ok d1" "get_action d1 x = Some a" "get_case d1 (ra_recovery_case_id a) = Some c"
    "policy \<in> set (merchant_policies d1)" "get_audit d1 (uuid4 d1 (uuid_drawn d1)) = None"
    using ok1 a(1) c(1) p(1) ids by (simp_all add: d1 s0_def get_defs unused_audits_def draw_def)
  have "\<not> is_terminal (rc_status c)" using c(2) by (simp add: is_terminal_def TERMINAL_STATES_def)
  from claim_action_total [OF rows1(1,2) a(2) rows1(3) this rows1(4) p(2) perm1 rows1(5)]
  obtain d2 e where cl: "claim_action no_exec_rivals x d1 = Inr (Claimed (context_of d1 c a), d2)"
    and a2: "get_action d2 x = Some (a\<lparr>ra_status := A_EXECUTING, ra_updated_at := clock d1\<rparr>)"
    and f2: "d2 = d1\<lparr>uuid_drawn := Suc (uuid_drawn d1), recovery_actions := recovery_actions d2, audit_events := audit_events d1 @ [e]\<rparr>"
    and e: "au_id e = uuid4 d1 (uuid_drawn d1)"
    by blast
  define cx where "cx = context_of (store s) c a"
  have cx: "context_of d1 c a = cx" by (simp add: cx_def context_of_def d1_def get_defs)
  define s2 where "s2 = start_call (Inr (Claimed cx)) (s1\<lparr>store := d2, broker := broker s1\<rparr>)"
  have claim: "sys_step w s1 s2" unfolding s2_def
    by (rule Claim [where i = "uuid_str (ob_id b)" and a = x and b = b1])
      (use b1 b' cl in \<open>simp_all add: s1_def d1 get_defs delivered_def message_event_def in_transaction_def cx [unfolded d1]\<close>)
  have x2: "store s2 = d2" "in_flight s2 = cx # in_flight s" "called s2 = x # called s"
    using action_table.get_key [OF a(1)] by (simp_all add: s2_def s1_def s0_def cx_def context_of_def)
  have run2: "sys_run w s s2"
    using tick disp claim unfolding s1_def d1 by (meson rtranclp.rtrancl_into_rtrancl rtranclp.rtrancl_refl)
  define rows where "rows = recovery_actions d2"
  have f2': "d2 = d1\<lparr>uuid_drawn := Suc (uuid_drawn d1), recovery_actions := rows, audit_events := audit_events d1 @ [e]\<rparr>"
    using f2 by (simp add: rows_def)
  have "executing cx (a\<lparr>ra_status := A_EXECUTING, ra_updated_at := clock d1\<rparr>) c d2"
    unfolding executing_def
  proof (intro conjI)
    show "db_ok d2" using sys_run_db [OF run2 ok] x2(1) by simp
    show "get_action d2 (cx_action_id cx) = Some (a\<lparr>ra_status := A_EXECUTING, ra_updated_at := clock d1\<rparr>)"
      using a2 action_table.get_key [OF a(1)] by (simp add: cx_def context_of_def)
    show "get_case d2 (cx_case_id cx) = Some c"
      using c(1) case_table.get_key [OF c(1)] by (simp add: f2' d1_def get_defs cx_def context_of_def)
    show "get_audit d2 (uuid4 d2 (uuid_drawn d2)) = None"
      using ids e by (auto simp: f2' d1_def get_defs unused_audits_def draw_def get_row_None_iff)
  qed (use c(3) in simp_all)
  then have "settled (exec_side w) cx c (snd (execute_claimed (exec_side w) no_exec_rivals cx d2))"
    using c(2) by (rule recorded_settled)
  moreover define s3 where "s3 = s2\<lparr>store := snd (execute_claimed (exec_side w) no_exec_rivals cx (store s2)),
      in_flight := remove1 cx (in_flight s2)\<rparr>"
  have "sys_step w s2 s3" unfolding s3_def by (rule Record) (simp add: x2(2))
  with run2 have "sys_run w s s3" by (rule rtranclp.rtrancl_into_rtrancl)
  ultimately show ?thesis
    using x2 by (intro exI [of _ s3]) (simp add: s3_def cx_def)
qed

subsection \<open>The worker's and the executor's stage\<close>

text \<open>The action of the first run meets the policy again when it is claimed, itself not counted.\<close>

lemma permitted_again:
  assumes "permitted l (build_policy_input d c t ANALYSING None)"
    and "list_all (\<lambda>a. ra_recovery_case_id a \<noteq> rc_id c) (recovery_actions d)"
    and "recovery_actions d' = recovery_actions d @ [a]"
    and "rc_id c' = rc_id c" "rc_amount_minor c' = rc_amount_minor c" "rc_status c' = ACTION_SCHEDULED"
  shows "permitted l (build_policy_input d' c' t (rc_status c') (Some (ra_id a)))"
proof -
  have "build_policy_input d' c' t ACTION_SCHEDULED (Some (ra_id a))
      = (build_policy_input d c t ANALYSING None)\<lparr>pi_case_status := ACTION_SCHEDULED\<rparr>"
    using assms(2) by (auto simp: build_policy_input_def Let_def assms(3-5) list_all_iff count_where_def intro: filter_cong)
  moreover have "\<not> is_terminal ACTION_SCHEDULED" by (simp add: is_terminal_def TERMINAL_STATES_def)
  ultimately show ?thesis using assms(1,6) by (simp add: permitted_def high_value_def)
qed

text \<open>No event has the key of an announcement the next \<open>k\<close> identifiers could lead to for case \<open>i\<close>.\<close>

definition new_keys :: "nat \<Rightarrow> uuid \<Rightarrow> db \<Rightarrow> bool" where
  "new_keys k i d \<longleftrightarrow>
     list_all (\<lambda>b. list_all (\<lambda>n. ob_idempotency_key b \<noteq> action_scheduled_key i (draw d n)) [0..<k]) (outbox_events d)"

text \<open>
  \<open>pursued w s s' i\<close>: on the way from \<open>s\<close> to \<open>s'\<close> case \<open>i\<close> got its decision, and if that was to act, the
  one call for its action was made, for the action's type, under its key and over the amount of the
  case, and the outcome is recorded.
\<close>

definition pursued :: "world \<Rightarrow> system \<Rightarrow> system \<Rightarrow> uuid \<Rightarrow> bool" where
  "pursued w s s' i \<longleftrightarrow>
     (\<exists>c. get_case (store s') i = Some c \<and> rc_status c \<in> {STOPPED, ESCALATED}) \<and> called s' = called s
   \<or> (\<exists>a cx c. get_action (store s') (ra_id a) = Some a \<and> ra_recovery_case_id a = i \<and> cx_action_id cx = ra_id a
        \<and> cx_case_id cx = i \<and> cx_action_type cx = ra_action_type a \<and> cx_idempotency_key cx = ra_idempotency_key a
        \<and> cx_amount_minor cx = rc_amount_minor c \<and> rc_status c = ACTION_SCHEDULED
        \<and> called s' = ra_id a # called s \<and> settled (exec_side w) cx c (store s'))"

lemma case_pursued:
  assumes ok: "db_ok (store s)" and c: "get_case (store s) i = Some c" "rc_status c = ELIGIBLE"
    and b: "get_outbox (store s) (ob_id b) = Some b" "announces i b" "due (clock (store s)) b" "integer_ok (ob_attempts b + 1)"
    and room: "integer_ok (rc_version c + 4)"
    and none: "list_all (\<lambda>a. ra_recovery_case_id a \<noteq> i) (recovery_actions (store s))" and keys: "canonical_keys (store s)"
    and ids: "fresh_from 6 (store s)" and events: "new_keys 2 i (store s)"
  shows "\<exists>s'. sys_run w s s' \<and> pursued w s s' i"
proof -
  define d where "d = store s"
  have i: "rc_id c = i" by (rule case_table.get_key [OF c(1)])
  have "0 < rc_version c" using ok c(1) by (auto simp: db_ok_def cases_ok_def case_row_check_iff get_defs dest!: get_row_SomeD)
  then have room3: "integer_ok (rc_version c + 3)" using room by (simp add: integer_ok_def)
  have "unused_rows 2 d" "unused_ids 4 d"
    using ids by (simp_all add: fresh_from_def unused_def unused_rows_def unused_ids_def list_all_iff d_def draw_def)
  moreover have "list_all (\<lambda>n. list_all (\<lambda>b. ob_idempotency_key b \<noteq> action_scheduled_key i (uuid4 d (uuid_drawn d + n)))
       (outbox_events d)) [0..<2]"
    using events by (auto simp: new_keys_def list_all_iff d_def draw_def)
  ultimately obtain s1 r where run1: "sys_run w s s1" "called s1 = called s" "db_ok (store s1)"
    and h: "handled d (store s1) i c r" and fu: "follow_up d (store s1) c"
    using decision_reached [OF ok c b room3 none keys] unfolding d_def by blast
  define d1 where "d1 = store s1"
  obtain c1 a b1 where c1: "get_case d1 i = Some c1" "rc_status c1 = final_status_of (ra_action_type a)" "rc_version c1 = rc_version c + 3"
    and a: "recovery_actions d1 = recovery_actions d @ [a]" "ra_recovery_case_id a = i" "ra_status a = A_APPROVED"
    and b1: "rc_status c1 = ACTION_SCHEDULED \<Longrightarrow> b1 \<in> set (outbox_events d1)"
      "rc_status c1 = ACTION_SCHEDULED \<Longrightarrow> b1 = action_scheduled_event (ob_id b1) c a (rc_next_action_at c1) (ob_created_at b1)"
    using h unfolding handled_def d1_def by blast
  show ?thesis
  proof (cases "rc_status c1 = ACTION_SCHEDULED")
    case False
    then have "pursued w s s1 i"
      using c1(1,2) run1(2) by (auto simp: pursued_def d1_def final_status_of_def split: if_splits)
    with run1(1) show ?thesis by blast
  next
    case True
    obtain policy e where e: "logged d d1 e" "uuid_drawn d1 \<le> uuid_drawn d + 4"
      and p: "policy \<in> set (merchant_policies d1)" "mp_merchant_id policy = rc_merchant_id c"
        "permitted (policy_limits_from policy) (build_policy_input d c (ra_action_type a) ANALYSING None)"
      using fu a(1) True c1(2) unfolding follow_up_def d1_def by auto
    have ev: "case_evolves c c1"
      using sys_run_db [OF run1(1) ok] c(1) c1(1) db_evolves_case by (fastforce simp: d1_def)
    have ga: "get_action d1 (ra_id a) = Some a"
      using get_row_distinct [OF db_ok_distinct(4) [OF run1(3)], of a] a(1) by (simp add: get_defs d1_def)
    obtain k where k: "uuid_drawn d1 = uuid_drawn d + Suc k" "k < 4"
      using e by (auto simp: logged_def dest!: less_imp_Suc_add)
    have dr: "draw d1 0 = draw d (Suc k)" "draw d1 1 = draw d (Suc (Suc k))" "au_id e = draw d k"
      and aud: "audit_events d1 = audit_events d @ [e]"
      using e(1) k(1) by (simp_all add: logged_def draw_def)
    have "draw d (Suc k) \<noteq> draw d k" "draw d (Suc (Suc k)) \<noteq> draw d k" "draw d (Suc k) \<noteq> draw d (Suc (Suc k))"
      "get_audit d (draw d (Suc k)) = None" "get_audit d (draw d (Suc (Suc k))) = None"
      using k(2) fresh_from_eq [OF ids] fresh_from_unused [OF ids] by (simp_all add: d_def unused_def)
    then have audits: "unused_audits d1"
      unfolding unused_audits_def dr by (simp add: aud get_defs get_row_None_iff dr(3))
    have perm: "permitted (policy_limits_from policy) (build_policy_input d1 c1 (ra_action_type a) (rc_status c1) (Some (ra_id a)))"
      by (rule permitted_again [OF p(3) _ a(1)]) (use none i ev True in \<open>simp_all add: d_def case_evolves_def\<close>)
    obtain s2 where run2: "sys_run w s1 s2" "called s2 = ra_id a # called s1"
      "settled (exec_side w) (context_of d1 c1 a) c1 (store s2)"
      using action_executed [where s = s1 and x = "ra_id a" and c = c1 and w = w and policy = policy and b = b1, folded d1_def,
          OF run1(3) [folded d1_def] ga a(3) _ True _ b1(1) [OF True] b1(2) [OF True] p(1) _ perm audits]
        c1 a(2) p(2) ev room by (auto simp: case_evolves_def add.commute)
    obtain a2 where "get_action (store s2) (ra_id a) = Some a2" "action_evolves a a2"
      using db_evolves_action [OF _ ga [unfolded d1_def]] sys_run_db [OF run2(1) run1(3)] by blast
    then have "pursued w s s2 i"
      using run2 run1(2) a(2) c1(1) True case_table.get_key [OF c1(1)] unfolding pursued_def
      by (intro disjI2 exI [of _ a2] exI [of _ "context_of d1 c1 a"] exI [of _ c1]) (simp add: action_evolves_def context_of_def)
    with run1(1) run2(1) show ?thesis by (meson rtranclp_trans)
  qed
qed

subsection \<open>From the webhook on\<close>

lemma no_actions_of_new_case:
  assumes "db_ok d" and "get_case d i = None"
  shows "list_all (\<lambda>a. ra_recovery_case_id a \<noteq> i) (recovery_actions d)"
  using assms by (auto simp: db_ok_def actions_ok_def list_all_iff get_defs get_row_None_iff)

lemma after_failure_fresh:
  assumes "fresh_from 11 d" and d1: "d1 = after_failure m ev dto e cur rid d"
  shows "fresh_from 6 d1"
proof (rule fresh_from_drop [where j = 5 and d = d])
  show "uuid4 d1 = uuid4 d" "uuid_drawn d1 = uuid_drawn d + 5" by (simp_all add: d1 after_failure_def Let_def)
  fix n assume "unused d (draw d n)" "draw d n \<notin> draw d ` {..<5}"
  then show "unused d1 (draw d n)"
    by (simp add: unused_def d1 after_failure_def Let_def get_defs get_row_None_iff numeral_eq_Suc lessThan_Suc
        new_failed_payment_def opened_case_def new_failed_case_def eligible_audit_def eligible_event_def new_outbox_event_def)
qed (use assms(1) in simp)


end
