(* ===== verification/Witnesses_Pipeline.thy ===== *)
theory Witnesses_Pipeline
  imports Witnesses_Scripts Pipeline
begin

text \<open>The run from a failed payment to the outcome of its action, from the small database on.\<close>

definition script_world :: world where
  "script_world = demo_world\<lparr>web_side := script_env\<rparr>"


end
