(* ===== verification/Process_Setup.thy ===== *)
theory Process_Setup
  imports App
begin

text \<open>
  What a process sets up before it works: log level and log processors, \<^verbatim>\<open>src/app/observability.py\<close>; the
  options of the Celery application, \<^verbatim>\<open>src/app/celery_app.py\<close>; the clients it creates on first use,
  \<^verbatim>\<open>src/app/db.py\<close> and \<^verbatim>\<open>src/app/redis_client.py\<close>, with the readiness endpoint on top of them; and the
  environment of the migrations, \<^verbatim>\<open>src/alembic/env.py\<close>.

  The libraries are arguments: \<open>create_engine\<close>, \<open>sessionmaker\<close>, \<open>from_url\<close> make a client from its options,
  \<open>select_1\<close> and \<open>ping\<close> talk to the servers, \<open>logging_attr\<close> looks up an attribute of the module \<open>logging\<close>.
\<close>

subsection \<open>Logging and Celery\<close>

record logging_config =
  logging_level :: int
  logging_format :: string
  logging_processors :: "string list"
  cache_logger_on_first_use :: bool

definition setup_logging :: "(string \<Rightarrow> int option) \<Rightarrow> settings \<Rightarrow> logging_config" where
  "setup_logging logging_attr s =
     (let level = (case logging_attr (py_upper (log_level s)) of None \<Rightarrow> 20 | Some n \<Rightarrow> n)
      in \<lparr>logging_level = level, logging_format = ''%(message)s'',
          logging_processors =
            [''merge_contextvars'', ''add_log_level'', ''TimeStamper'', ''StackInfoRenderer'', ''format_exc_info'',
             ''UnicodeDecoder'', ''JSONRenderer''],
          cache_logger_on_first_use = True\<rparr>)"

record celery_config =
  celery_name :: string
  celery_broker :: string
  celery_backend :: string
  celery_include :: "string list"
  task_serializer :: string
  result_serializer :: string
  accept_content :: "string list"
  task_acks_late :: bool
  task_reject_on_worker_lost :: bool
  worker_prefetch_multiplier :: nat
  task_default_queue :: string
  task_time_limit :: rat
  task_soft_time_limit :: rat
  broker_connection_retry_on_startup :: bool
  broker_connection_timeout :: rat

definition celery_app :: "settings \<Rightarrow> celery_config" where
  "celery_app s =
     \<lparr>celery_name = ''recoverai'', celery_broker = celery_broker_url s, celery_backend = celery_result_backend s,
      celery_include = [''app.tasks.recovery''],
      task_serializer = ''json'', result_serializer = ''json'', accept_content = [''json''],
      task_acks_late = True, task_reject_on_worker_lost = True, worker_prefetch_multiplier = 1,
      task_default_queue = celery_task_default_queue s, task_time_limit = 30, task_soft_time_limit = 20,
      broker_connection_retry_on_startup = True, broker_connection_timeout = 5\<rparr>"

text \<open>
  With the default timeouts the longest wait of a task, for the model or for the provider, ends before
  the soft time limit, so a slow service is met by the code's own error handling.
\<close>

lemma default_timeouts_within_limits:
  "llm_timeout_seconds default_settings < task_soft_time_limit (celery_app default_settings)
   \<and> razorpay_timeout_seconds default_settings < task_soft_time_limit (celery_app default_settings)
   \<and> task_soft_time_limit (celery_app s) < task_time_limit (celery_app s)"
  by (simp add: celery_app_def default_settings_def)

subsection \<open>Clients\<close>

record engine_options =
  engine_url :: string
  pool_size :: int
  max_overflow :: int
  pool_timeout :: int
  pool_pre_ping :: bool
  pool_recycle :: int
  connect_timeout :: int

definition engine_options_of :: "settings \<Rightarrow> engine_options" where
  "engine_options_of s =
     \<lparr>engine_url = database_url s, pool_size = db_pool_size s, max_overflow = db_max_overflow s,
      pool_timeout = db_pool_timeout s, pool_pre_ping = True, pool_recycle = 1800,
      connect_timeout = db_connect_timeout s\<rparr>"

record ('e, 'f, 'r) clients =
  db_engine :: "'e option"
  session_factory :: "'f option"
  redis_client :: "'r option"

record ('e, 'f, 'r) client_libs =
  create_engine :: "engine_options \<Rightarrow> 'e res"
  sessionmaker :: "'e \<Rightarrow> bool \<Rightarrow> bool \<Rightarrow> 'f"
  redis_from_url :: "string \<Rightarrow> bool \<Rightarrow> int \<Rightarrow> int \<Rightarrow> 'r res"
  select_1 :: "'e \<Rightarrow> unit res"
  redis_ping :: "'r \<Rightarrow> bool res"

type_synonym ('a, 'e, 'f, 'r) with_clients = "('e, 'f, 'r) clients \<Rightarrow> 'a res \<times> ('e, 'f, 'r) clients"

definition get_engine :: "('e, 'f, 'r) client_libs \<Rightarrow> settings \<Rightarrow> ('e, 'e, 'f, 'r) with_clients" where
  "get_engine lib s p =
     (case db_engine p of
        Some e \<Rightarrow> (Inr e, p)
      | None \<Rightarrow>
          (case create_engine lib (engine_options_of s) of
             Inl x \<Rightarrow> (Inl x, p)
           | Inr e \<Rightarrow> (Inr e, p\<lparr>db_engine := Some e\<rparr>)))"

text \<open>\<open>lru_cache\<close> keeps the value of the first call that returns; one that raises is not kept.\<close>

definition get_session_factory :: "('e, 'f, 'r) client_libs \<Rightarrow> settings \<Rightarrow> ('f, 'e, 'f, 'r) with_clients" where
  "get_session_factory lib s p =
     (case session_factory p of
        Some f \<Rightarrow> (Inr f, p)
      | None \<Rightarrow>
          (case get_engine lib s p of
             (Inl x, p1) \<Rightarrow> (Inl x, p1)
           | (Inr e, p1) \<Rightarrow>
               (let expire_on_commit = False; autoflush = False; f = sessionmaker lib e expire_on_commit autoflush
                in (Inr f, p1\<lparr>session_factory := Some f\<rparr>))))"

definition check_database :: "('e, 'f, 'r) client_libs \<Rightarrow> settings \<Rightarrow> (bool, 'e, 'f, 'r) with_clients" where
  "check_database lib s p =
     (case get_engine lib s p of
        (Inl x, p1) \<Rightarrow> (Inl x, p1)
      | (Inr e, p1) \<Rightarrow> (res_bind (select_1 lib e) (\<lambda>_. Inr True), p1))"

definition get_redis :: "('e, 'f, 'r) client_libs \<Rightarrow> settings \<Rightarrow> ('r, 'e, 'f, 'r) with_clients" where
  "get_redis lib s p =
     (case redis_client p of
        Some r \<Rightarrow> (Inr r, p)
      | None \<Rightarrow>
          (case redis_from_url lib (redis_url s) True (redis_socket_timeout s) (redis_socket_timeout s) of
             Inl x \<Rightarrow> (Inl x, p)
           | Inr r \<Rightarrow> (Inr r, p\<lparr>redis_client := Some r\<rparr>)))"

definition check_redis :: "('e, 'f, 'r) client_libs \<Rightarrow> settings \<Rightarrow> (bool, 'e, 'f, 'r) with_clients" where
  "check_redis lib s p =
     (case get_redis lib s p of
        (Inl x, p1) \<Rightarrow> (Inl x, p1)
      | (Inr r, p1) \<Rightarrow> (redis_ping lib r, p1))"

text \<open>The readiness endpoint with the two checks it makes. It looks only at whether they raise.\<close>

definition ready_request :: "('e, 'f, 'r) client_libs \<Rightarrow> settings \<Rightarrow> ('e, 'f, 'r) clients \<Rightarrow> http_answer \<times> ('e, 'f, 'r) clients" where
  "ready_request lib s p =
     (let (database, p1) = check_database lib s p; (redis, p2) = check_redis lib s p1
      in (ready (res_bind database (\<lambda>_. Inr ())) (res_bind redis (\<lambda>_. Inr ())), p2))"

text \<open>A client, once created, stays the process's client.\<close>

definition kept_clients :: "('e, 'f, 'r) clients \<Rightarrow> ('e, 'f, 'r) clients \<Rightarrow> bool" where
  "kept_clients p p' \<longleftrightarrow> (\<forall>e. db_engine p = Some e \<longrightarrow> db_engine p' = Some e)
     \<and> (\<forall>f. session_factory p = Some f \<longrightarrow> session_factory p' = Some f)
     \<and> (\<forall>r. redis_client p = Some r \<longrightarrow> redis_client p' = Some r)"

interpretation client_order: state_preorder kept_clients
  by unfold_locales (auto simp: kept_clients_def)

lemma get_engine_kept: "kept_clients p (snd (get_engine lib s p))"
  by (auto simp: kept_clients_def get_engine_def split: option.split sum.split)

lemma get_redis_kept: "kept_clients p (snd (get_redis lib s p))"
  by (auto simp: kept_clients_def get_redis_def split: option.split sum.split)

lemma get_session_factory_kept: "kept_clients p (snd (get_session_factory lib s p))"
proof (cases "session_factory p")
  case None
  have "session_factory (snd (get_engine lib s p)) = session_factory p"
    by (auto simp: get_engine_def split: option.split sum.split)
  then have "kept_clients (snd (get_engine lib s p)) ((snd (get_engine lib s p))\<lparr>session_factory := Some f\<rparr>)" for f
    using None by (simp add: kept_clients_def)
  with get_engine_kept [of p lib s] client_order.state_trans None show ?thesis
    by (fastforce simp: get_session_factory_def Let_def split: prod.split sum.split)
qed (simp add: get_session_factory_def client_order.state_refl)

text \<open>
  Clients are created at most once: what a call returned, every later call returns again, whatever was
  called in between and whatever the settings have become.
\<close>

lemma engine_created_once:
  assumes "get_engine lib s p = (Inr e, p')" and "kept_clients p' q"
  shows "get_engine lib' s' q = (Inr e, q)"
proof -
  have "db_engine p' = Some e" using assms(1) by (auto simp: get_engine_def split: option.splits sum.splits)
  with assms(2) show ?thesis by (simp add: kept_clients_def get_engine_def)
qed

lemma session_factory_created_once:
  assumes "get_session_factory lib s p = (Inr f, p')" and "kept_clients p' q"
  shows "get_session_factory lib' s' q = (Inr f, q)"
proof -
  have "session_factory p' = Some f"
    using assms(1) by (auto simp: get_session_factory_def Let_def split: option.splits sum.splits prod.splits)
  with assms(2) show ?thesis by (simp add: kept_clients_def get_session_factory_def)
qed

lemma redis_created_once:
  assumes "get_redis lib s p = (Inr r, p')" and "kept_clients p' q"
  shows "get_redis lib' s' q = (Inr r, q)"
proof -
  have "redis_client p' = Some r" using assms(1) by (auto simp: get_redis_def split: option.splits sum.splits)
  with assms(2) show ?thesis by (simp add: kept_clients_def get_redis_def)
qed

text \<open>A ping that returns false counts as ready: only an exception makes the process not ready.\<close>

lemma false_ping_is_ready:
  assumes "get_engine lib s p = (Inr e, p1)" and "select_1 lib e = Inr ()"
    and "get_redis lib s p1 = (Inr r, p2)" and "redis_ping lib r = Inr False"
  shows "status_code (fst (ready_request lib s p)) = 200"
proof -
  have "check_database lib s p = (Inr True, p1)" "check_redis lib s p1 = (Inr False, p2)"
    using assms by (simp_all add: check_database_def check_redis_def)
  then show ?thesis unfolding ready_request_def ready_def Let_def by auto
qed

subsection \<open>The environment of the migrations\<close>

text \<open>
  Alembic keeps its options in a \<open>ConfigParser\<close> with the standard interpolation: \<open>%%\<close> stands for a percent
  sign and \<open>%(name)s\<close> for the value of another option. Setting an option checks the syntax, reading one
  interpolates. \<open>reference\<close> reads the rest of a reference after its percent sign.
\<close>

definition reference :: "string \<Rightarrow> (string \<times> string) option" where
  "reference xs =
     (case xs of
        x # ys \<Rightarrow>
          (let name = takeWhile (\<lambda>c. c \<noteq> CHR '')'') ys; rest = dropWhile (\<lambda>c. c \<noteq> CHR '')'') ys in
           if x = CHR ''('' \<and> name \<noteq> [] \<and> take 2 rest = '')s'' then Some (name, drop 2 rest) else None)
      | [] \<Rightarrow> None)"

lemma reference_shorter: "reference xs = Some (name, rest) \<Longrightarrow> length rest < length xs"
proof -
  assume r: "reference xs = Some (name, rest)"
  then obtain x ys where xs: "xs = x # ys" by (cases xs) (simp_all add: reference_def)
  with r have "rest = drop 2 (dropWhile (\<lambda>c. c \<noteq> CHR '')'') ys)" by (simp add: reference_def Let_def split: if_splits)
  then show ?thesis using length_dropWhile_le [of "\<lambda>c. c \<noteq> CHR '')''" ys] by (simp add: xs)
qed

text \<open>\<open>value.replace("%%", "")\<close> and the removal of all references.\<close>

fun drop_escapes :: "string \<Rightarrow> string" where
  "drop_escapes (x # y # xs) =
     (if x = CHR ''%'' \<and> y = CHR ''%'' then drop_escapes xs else x # drop_escapes (y # xs))"
| "drop_escapes xs = xs"

function drop_references :: "string \<Rightarrow> string" where
  "drop_references [] = []"
| "drop_references (x # xs) =
     (case (if x = CHR ''%'' then reference xs else None) of
        Some (name, rest) \<Rightarrow> drop_references rest
      | None \<Rightarrow> x # drop_references xs)"
  by pat_completeness auto
termination
  by (relation "measure length") (auto dest: reference_shorter split: if_splits)

definition set_main_option :: "string \<Rightarrow> string res" where
  "set_main_option v =
     (if CHR ''%'' \<in> set (drop_references (drop_escapes v)) then Inl (ValueError ''invalid interpolation syntax'') else Inr v)"

text \<open>
  Reading an option: \<open>section\<close> are the raw options it may refer to, \<open>depth\<close> how deep references may still
  nest (\<open>MAX_INTERPOLATION_DEPTH\<close> is 10).
\<close>

function interpolate :: "(string \<Rightarrow> string option) \<Rightarrow> nat \<Rightarrow> string \<Rightarrow> string res" where
  "interpolate section 0 v = Inl (OtherException ''InterpolationDepthError'')"
| "interpolate section (Suc depth) [] = Inr []"
| "interpolate section (Suc depth) (x # xs) =
     (if x \<noteq> CHR ''%'' then res_bind (interpolate section (Suc depth) xs) (\<lambda>r. Inr (x # r))
      else if take 1 xs = ''%'' then res_bind (interpolate section (Suc depth) (drop 1 xs)) (\<lambda>r. Inr (CHR ''%'' # r))
      else if take 1 xs \<noteq> ''('' then Inl (OtherException ''InterpolationSyntaxError'')
      else
        (case reference xs of
           None \<Rightarrow> Inl (OtherException ''InterpolationSyntaxError'')
         | Some (name, rest) \<Rightarrow>
             (case section (py_lower name) of
                None \<Rightarrow> Inl (OtherException ''InterpolationMissingOptionError'')
              | Some v \<Rightarrow>
                  res_bind (if CHR ''%'' \<in> set v then interpolate section depth v else Inr v) (\<lambda>r1.
                  res_bind (interpolate section (Suc depth) rest) (\<lambda>r2. Inr (r1 @ r2))))))"
  by pat_completeness auto
termination
  by (relation "measures [\<lambda>(_, n, _). n, \<lambda>(_, _, v). length v]") (auto dest: reference_shorter)

text \<open>
  The run of \<^verbatim>\<open>env.py\<close> up to the migrations themselves: what they are configured with. \<open>ini\<close> are the raw
  options of the main section in the configuration file; online, the whole section is read.
\<close>

datatype migration_run =
    Offline_Run string
  | Online_Run "(string \<times> string) list"

fun interpolate_section :: "(string \<Rightarrow> string option) \<Rightarrow> (string \<times> string) list \<Rightarrow> (string \<times> string) list res" where
  "interpolate_section raw [] = Inr []"
| "interpolate_section raw ((k, v) # kvs) =
     res_bind (interpolate raw 10 v) (\<lambda>v'. res_bind (interpolate_section raw kvs) (\<lambda>kvs'. Inr ((k, v') # kvs')))"

fun set_option :: "string \<Rightarrow> string \<Rightarrow> (string \<times> string) list \<Rightarrow> (string \<times> string) list" where
  "set_option k v [] = [(k, v)]"
| "set_option k v ((k', v') # kvs) = (if k' = k then (k, v) # kvs else (k', v') # set_option k v kvs)"

definition migration_env :: "bool \<Rightarrow> (string \<times> string) list \<Rightarrow> settings \<Rightarrow> migration_run res" where
  "migration_env offline_mode ini s =
     res_bind (set_main_option (database_url s)) (\<lambda>url.
     let options = set_option ''sqlalchemy.url'' url ini; raw = map_of options in
     if offline_mode
     then res_bind (interpolate raw 10 url) (\<lambda>u. Inr (Offline_Run u))
     else res_bind (interpolate_section raw options) (\<lambda>section. Inr (Online_Run section)))"

lemma drop_escapes_set: "set (drop_escapes xs) \<subseteq> set xs"
  by (induction xs rule: drop_escapes.induct) auto

lemma drop_references_set: "set (drop_references xs) \<subseteq> set xs"
proof (induction xs rule: drop_references.induct)
  case (2 x xs)
  have "set rest \<subseteq> set xs" if "reference xs = Some (name, rest)" for name rest
    using that by (auto simp: reference_def Let_def split: list.splits if_splits dest!: in_set_dropD set_dropWhileD)
  with 2 show ?case by (fastforce split: option.splits if_splits)
qed simp

lemma lone_percent_escapes:
  assumes "CHR ''%'' \<notin> set (xs @ c # post)"
  shows "drop_escapes (xs @ CHR ''%'' # c # post) = xs @ CHR ''%'' # c # post"
proof -
  have id: "CHR ''%'' \<notin> set ys \<Longrightarrow> drop_escapes ys = ys" for ys by (induction ys rule: drop_escapes.induct) auto
  from assms show ?thesis
  proof (induction xs)
    case Nil
    then show ?case using id [of "c # post"] by auto
  next
    case (Cons x xs)
    then show ?case by (cases "xs @ CHR ''%'' # c # post") auto
  qed
qed

lemma lone_percent_references:
  assumes "CHR ''%'' \<notin> set xs" and "c \<noteq> CHR ''(''"
  shows "CHR ''%'' \<in> set (drop_references (xs @ CHR ''%'' # c # post))"
  using assms by (induction xs) (auto simp: reference_def Let_def)

lemma interpolate_plain: "CHR ''%'' \<notin> set v \<Longrightarrow> interpolate section (Suc n) v = Inr v"
  by (induction v) auto

lemma set_option_get: "map_of (set_option k v kvs) k = Some v"
  by (induction k v kvs rule: set_option.induct) auto

lemma interpolate_section_get:
  "interpolate_section raw kvs = Inr kvs' \<Longrightarrow> map_of kvs k = Some v \<Longrightarrow> interpolate raw 10 v = Inr v' \<Longrightarrow> map_of kvs' k = Some v'"
  by (induction raw kvs arbitrary: kvs' rule: interpolate_section.induct) (auto simp: res_bind_Inr split: if_splits)

text \<open>
  Without a percent sign in the address of the settings both modes of the migrations use exactly the
  address the application uses; so does whatever the online mode finds in its section.
\<close>

lemma migrations_use_application_url:
  assumes "CHR ''%'' \<notin> set (database_url s)"
  shows "migration_env True ini s = Inr (Offline_Run (database_url s))
    \<and> (\<forall>section. migration_env False ini s = Inr (Online_Run section)
          \<longrightarrow> map_of section ''sqlalchemy.url'' = Some (engine_url (engine_options_of s)))"
proof -
  have ten: "(10 :: nat) = Suc 9" by simp
  have "set_main_option (database_url s) = Inr (database_url s)"
    using assms drop_references_set drop_escapes_set by (fastforce simp: set_main_option_def)
  moreover have "interpolate raw 10 (database_url s) = Inr (database_url s)" for raw
    unfolding ten using assms by (rule interpolate_plain)
  ultimately show ?thesis
    using interpolate_section_get [OF _ set_option_get]
    by (auto simp: migration_env_def Let_def res_bind_Inr engine_options_of_def)
qed



end
