(* ===== verification/Orm_Schema.thy ===== *)
theory Orm_Schema
  imports Schema
begin

text \<open>
  The tables as the ORM classes of \<^verbatim>\<open>src/app/models\<close> declare them, as data: columns with type,
  nullability and server default, constraints and indexes. A column with \<open>index=True\<close> has the index
  \<^verbatim>\<open>ix_<table>_<column>\<close>, one with \<open>unique=True\<close> an unnamed unique constraint, a foreign key takes the
  type of the column it names and is declared \<open>ON DELETE CASCADE\<close> throughout; an \<open>Enum\<close> with \<open>native_enum=False, create_constraint=True\<close> is stored
  as a \<open>VARCHAR\<close> with a check constraint of the enum's name. The texts of the check constraints are
  translated into \<open>check_expr\<close>.

  \<open>row_ok\<close> says when a row satisfies its table's column types, nullability and checks; it is what the
  row checks of \<open>Schema\<close> are compared with.
\<close>

subsection \<open>Tables as data\<close>

datatype sql_type =
    Uuid | String nat | Integer | BigInteger | Boolean | DateTime | JSONB
  | Enum string "string list" nat

datatype server_default = Literal string | Sql_Text string

record column =
  col_name :: string
  col_type :: sql_type
  col_nullable :: bool
  col_server_default :: "server_default option"

definition col :: "string \<Rightarrow> sql_type \<Rightarrow> bool \<Rightarrow> server_default option \<Rightarrow> column" where
  "col n t nullable dflt = \<lparr>col_name = n, col_type = t, col_nullable = nullable, col_server_default = dflt\<rparr>"

datatype check_expr =
    Ge string int
  | Gt string int
  | Three_Capitals string
  | In_List string "string list"

datatype tconstraint =
    Check string check_expr
  | Foreign_Key string string string
  | Primary_Key "string list"
  | Unique "string option" "string list"

record table =
  t_name :: string
  t_columns :: "column list"
  t_constraints :: "tconstraint list"

record index =
  ix_name :: string
  ix_table :: string
  ix_columns :: "string list"

subsection \<open>The declared tables\<close>

text \<open>The columns of \<open>TimestampMixin\<close>.\<close>

definition timestamp_columns :: "column list" where
  "timestamp_columns =
     [col ''created_at'' DateTime False (Some (Sql_Text ''now()'')),
      col ''updated_at'' DateTime False (Some (Sql_Text ''now()''))]"

declare timestamp_columns_def [simp]

definition merchants_table :: table where
  "merchants_table =
     \<lparr>t_name = ''merchants'',
      t_columns =
       [col ''id'' Uuid False None,
        col ''name'' (String 255) False None,
        col ''is_active'' Boolean False (Some (Sql_Text ''true''))] @ timestamp_columns,
      t_constraints =
       [Primary_Key [''id'']]\<rparr>"

definition merchants_indexes :: "index list" where
  "merchants_indexes =
     []"

definition audit_events_table :: table where
  "audit_events_table =
     \<lparr>t_name = ''audit_events'',
      t_columns =
       [col ''id'' Uuid False None,
        col ''merchant_id'' Uuid False None,
        col ''entity_type'' (String 64) False None,
        col ''entity_id'' (String 64) False None,
        col ''event_type'' (String 128) False None,
        col ''actor'' (String 64) False (Some (Literal ''system'')),
        col ''correlation_id'' (String 64) True None,
        col ''payload'' JSONB False None,
        col ''created_at'' DateTime False (Some (Sql_Text ''now()''))],
      t_constraints =
       [Primary_Key [''id''],
        Foreign_Key ''merchant_id'' ''merchants'' ''id'']\<rparr>"

definition audit_events_indexes :: "index list" where
  "audit_events_indexes =
     [\<lparr>ix_name = ''ix_audit_events_merchant_id'', ix_table = ''audit_events'', ix_columns = [''merchant_id'']\<rparr>,
      \<lparr>ix_name = ''ix_audit_events_merchant_created_at'', ix_table = ''audit_events'', ix_columns = [''merchant_id'', ''created_at'']\<rparr>,
      \<lparr>ix_name = ''ix_audit_events_entity'', ix_table = ''audit_events'', ix_columns = [''entity_type'', ''entity_id'']\<rparr>]"

definition payments_table :: table where
  "payments_table =
     \<lparr>t_name = ''payments'',
      t_columns =
       [col ''id'' Uuid False None,
        col ''merchant_id'' Uuid False None,
        col ''provider'' (String 32) False (Some (Literal ''razorpay'')),
        col ''provider_payment_id'' (String 128) False None,
        col ''status'' (Enum ''paymentstatus'' [''CREATED'', ''FAILED'', ''CAPTURED''] 32) False (Some (Literal ''CREATED'')),
        col ''amount_minor'' BigInteger False None,
        col ''currency'' (String 3) False None,
        col ''failure_code'' (String 128) True None,
        col ''failure_reason'' (String 512) True None,
        col ''failed_at'' DateTime True None,
        col ''captured_at'' DateTime True None] @ timestamp_columns,
      t_constraints =
       [Primary_Key [''id''],
        Foreign_Key ''merchant_id'' ''merchants'' ''id'',
        Unique (Some ''uq_payments_merchant_provider_payment'') [''merchant_id'', ''provider'', ''provider_payment_id''],
        Check ''ck_payments_amount_minor_nonnegative'' (Ge ''amount_minor'' 0),
        Check ''ck_payments_currency_three_uppercase'' (Three_Capitals ''currency'')]\<rparr>"

definition payments_indexes :: "index list" where
  "payments_indexes =
     [\<lparr>ix_name = ''ix_payments_merchant_id'', ix_table = ''payments'', ix_columns = [''merchant_id'']\<rparr>,
      \<lparr>ix_name = ''ix_payments_merchant_status'', ix_table = ''payments'', ix_columns = [''merchant_id'', ''status'']\<rparr>]"

definition recovery_cases_table :: table where
  "recovery_cases_table =
     \<lparr>t_name = ''recovery_cases'',
      t_columns =
       [col ''id'' Uuid False None,
        col ''merchant_id'' Uuid False None,
        col ''payment_id'' Uuid False None,
        col ''status'' (Enum ''recoverycasestatus'' [''FAILED'', ''ELIGIBLE'', ''ANALYSING'', ''ACTION_SELECTED'', ''ACTION_SCHEDULED'', ''WAITING'', ''RECOVERED'', ''STOPPED'', ''ESCALATED''] 32) False (Some (Literal ''FAILED'')),
        col ''amount_minor'' BigInteger False None,
        col ''currency'' (String 3) False None,
        col ''failure_category'' (String 128) True None,
        col ''next_action_at'' DateTime True None,
        col ''version'' Integer False (Some (Literal ''1''))] @ timestamp_columns,
      t_constraints =
       [Primary_Key [''id''],
        Foreign_Key ''merchant_id'' ''merchants'' ''id'',
        Foreign_Key ''payment_id'' ''payments'' ''id'',
        Unique (Some ''uq_recovery_cases_payment_id'') [''payment_id''],
        Check ''ck_recovery_cases_amount_minor_nonnegative'' (Ge ''amount_minor'' 0),
        Check ''ck_recovery_cases_currency_three_uppercase'' (Three_Capitals ''currency''),
        Check ''ck_recovery_cases_version_positive'' (Gt ''version'' 0)]\<rparr>"

definition recovery_cases_indexes :: "index list" where
  "recovery_cases_indexes =
     [\<lparr>ix_name = ''ix_recovery_cases_merchant_id'', ix_table = ''recovery_cases'', ix_columns = [''merchant_id'']\<rparr>,
      \<lparr>ix_name = ''ix_recovery_cases_merchant_status_next'', ix_table = ''recovery_cases'', ix_columns = [''merchant_id'', ''status'', ''next_action_at'']\<rparr>,
      \<lparr>ix_name = ''ix_recovery_cases_status_next_action_at'', ix_table = ''recovery_cases'', ix_columns = [''status'', ''next_action_at'']\<rparr>]"

definition recovery_actions_table :: table where
  "recovery_actions_table =
     \<lparr>t_name = ''recovery_actions'',
      t_columns =
       [col ''id'' Uuid False None,
        col ''merchant_id'' Uuid False None,
        col ''recovery_case_id'' Uuid False None,
        col ''action_type'' (Enum ''recoveryactiontype'' [''WAIT'', ''CREATE_PAYMENT_LINK'', ''SEND_REMINDER'', ''STOP'', ''ESCALATE''] 32) False None,
        col ''status'' (Enum ''recoveryactionstatus'' [''PENDING'', ''APPROVED'', ''DENIED'', ''EXECUTING'', ''EXECUTED'', ''FAILED'', ''CANCELLED''] 32) False (Some (Literal ''PENDING'')),
        col ''idempotency_key'' (String 128) False None,
        col ''attempt_number'' Integer False (Some (Literal ''1'')),
        col ''provider_reference'' (String 128) True None,
        col ''scheduled_at'' DateTime True None,
        col ''executed_at'' DateTime True None,
        col ''failure_reason'' (String 512) True None] @ timestamp_columns,
      t_constraints =
       [Primary_Key [''id''],
        Foreign_Key ''merchant_id'' ''merchants'' ''id'',
        Foreign_Key ''recovery_case_id'' ''recovery_cases'' ''id'',
        Unique None [''idempotency_key''],
        Unique (Some ''uq_recovery_actions_case_type_attempt'') [''recovery_case_id'', ''action_type'', ''attempt_number''],
        Check ''ck_recovery_actions_attempt_number_positive'' (Gt ''attempt_number'' 0)]\<rparr>"

definition recovery_actions_indexes :: "index list" where
  "recovery_actions_indexes =
     [\<lparr>ix_name = ''ix_recovery_actions_merchant_id'', ix_table = ''recovery_actions'', ix_columns = [''merchant_id'']\<rparr>,
      \<lparr>ix_name = ''ix_recovery_actions_recovery_case_id'', ix_table = ''recovery_actions'', ix_columns = [''recovery_case_id'']\<rparr>,
      \<lparr>ix_name = ''ix_recovery_actions_merchant_status'', ix_table = ''recovery_actions'', ix_columns = [''merchant_id'', ''status'']\<rparr>,
      \<lparr>ix_name = ''ix_recovery_actions_case_status'', ix_table = ''recovery_actions'', ix_columns = [''recovery_case_id'', ''status'']\<rparr>]"

definition outbox_events_table :: table where
  "outbox_events_table =
     \<lparr>t_name = ''outbox_events'',
      t_columns =
       [col ''id'' Uuid False None,
        col ''merchant_id'' Uuid False None,
        col ''aggregate_type'' (String 64) False None,
        col ''aggregate_id'' (String 64) False None,
        col ''event_type'' (String 128) False None,
        col ''payload'' JSONB False None,
        col ''idempotency_key'' (String 128) False None,
        col ''status'' (Enum ''outboxeventstatus'' [''PENDING'', ''PUBLISHED'', ''FAILED''] 32) False (Some (Literal ''PENDING'')),
        col ''attempts'' Integer False (Some (Literal ''0'')),
        col ''last_error'' (String 512) True None,
        col ''created_at'' DateTime False (Some (Sql_Text ''now()'')),
        col ''published_at'' DateTime True None,
        col ''deliver_at'' DateTime True None],
      t_constraints =
       [Primary_Key [''id''],
        Foreign_Key ''merchant_id'' ''merchants'' ''id'',
        Unique None [''idempotency_key''],
        Check ''ck_outbox_events_attempts_nonnegative'' (Ge ''attempts'' 0)]\<rparr>"

definition outbox_events_indexes :: "index list" where
  "outbox_events_indexes =
     [\<lparr>ix_name = ''ix_outbox_events_merchant_id'', ix_table = ''outbox_events'', ix_columns = [''merchant_id'']\<rparr>,
      \<lparr>ix_name = ''ix_outbox_events_status_created_at'', ix_table = ''outbox_events'', ix_columns = [''status'', ''created_at'']\<rparr>,
      \<lparr>ix_name = ''ix_outbox_events_status_deliver_at'', ix_table = ''outbox_events'', ix_columns = [''status'', ''deliver_at'']\<rparr>,
      \<lparr>ix_name = ''ix_outbox_events_merchant_status'', ix_table = ''outbox_events'', ix_columns = [''merchant_id'', ''status'']\<rparr>]"

definition webhook_events_table :: table where
  "webhook_events_table =
     \<lparr>t_name = ''webhook_events'',
      t_columns =
       [col ''id'' Uuid False None,
        col ''merchant_id'' Uuid False None,
        col ''provider'' (String 32) False (Some (Literal ''razorpay'')),
        col ''provider_event_id'' (String 128) False None,
        col ''event_type'' (String 128) False None,
        col ''payload'' JSONB False None,
        col ''status'' (Enum ''webhookeventstatus'' [''RECEIVED'', ''PROCESSED'', ''IGNORED'', ''FAILED''] 32) False (Some (Literal ''RECEIVED'')),
        col ''received_at'' DateTime False (Some (Sql_Text ''now()'')),
        col ''processed_at'' DateTime True None,
        col ''error_message'' (String 512) True None],
      t_constraints =
       [Primary_Key [''id''],
        Foreign_Key ''merchant_id'' ''merchants'' ''id'',
        Unique (Some ''uq_webhook_events_provider_event'') [''provider'', ''provider_event_id'']]\<rparr>"

definition webhook_events_indexes :: "index list" where
  "webhook_events_indexes =
     [\<lparr>ix_name = ''ix_webhook_events_merchant_id'', ix_table = ''webhook_events'', ix_columns = [''merchant_id'']\<rparr>,
      \<lparr>ix_name = ''ix_webhook_events_merchant_status'', ix_table = ''webhook_events'', ix_columns = [''merchant_id'', ''status'']\<rparr>,
      \<lparr>ix_name = ''ix_webhook_events_merchant_event_type'', ix_table = ''webhook_events'', ix_columns = [''merchant_id'', ''event_type'']\<rparr>]"

definition merchant_policies_table :: table where
  "merchant_policies_table =
     \<lparr>t_name = ''merchant_policies'',
      t_columns =
       [col ''id'' Uuid False None,
        col ''merchant_id'' Uuid False None,
        col ''max_actions_per_case'' Integer False (Some (Literal ''3'')),
        col ''max_reminders_per_case'' Integer False (Some (Literal ''2'')),
        col ''one_active_payment_link'' Boolean False (Some (Sql_Text ''true'')),
        col ''high_value_escalation_enabled'' Boolean False (Some (Sql_Text ''true'')),
        col ''high_value_threshold_minor'' BigInteger False (Some (Literal ''500000'')),
        col ''is_active'' Boolean False (Some (Sql_Text ''true''))] @ timestamp_columns,
      t_constraints =
       [Primary_Key [''id''],
        Foreign_Key ''merchant_id'' ''merchants'' ''id'',
        Unique (Some ''uq_merchant_policies_merchant_id'') [''merchant_id''],
        Check ''ck_merchant_policies_max_actions_nonnegative'' (Ge ''max_actions_per_case'' 0),
        Check ''ck_merchant_policies_max_reminders_nonnegative'' (Ge ''max_reminders_per_case'' 0),
        Check ''ck_merchant_policies_high_value_threshold_nonnegative'' (Ge ''high_value_threshold_minor'' 0)]\<rparr>"

definition merchant_policies_indexes :: "index list" where
  "merchant_policies_indexes =
     [\<lparr>ix_name = ''ix_merchant_policies_merchant_id'', ix_table = ''merchant_policies'', ix_columns = [''merchant_id'']\<rparr>]"

subsection \<open>Rows of a table\<close>

datatype sql_value = V_Null | V_Uuid uuid | V_Str string | V_Int int | V_Bool bool | V_Time int | V_Json json_obj

fun fits :: "sql_type \<Rightarrow> sql_value \<Rightarrow> bool" where
  "fits Uuid (V_Uuid u) = True"
| "fits (String n) (V_Str s) = (length s \<le> n)"
| "fits (Enum nm vs n) (V_Str s) = (length s \<le> n)"
| "fits Integer (V_Int i) = (- (2 ^ 31) \<le> i \<and> i < 2 ^ 31)"
| "fits BigInteger (V_Int i) = (- (2 ^ 63) \<le> i \<and> i < 2 ^ 63)"
| "fits Boolean (V_Bool b) = True"
| "fits DateTime (V_Time t) = True"
| "fits JSONB (V_Json j) = True"
| "fits _ _ = False"

definition column_ok :: "(string \<Rightarrow> sql_value) \<Rightarrow> column \<Rightarrow> bool" where
  "column_ok row c = (if row (col_name c) = V_Null then col_nullable c else fits (col_type c) (row (col_name c)))"

text \<open>A check constraint accepts \<open>NULL\<close>.\<close>

fun check_ok :: "(string \<Rightarrow> sql_value) \<Rightarrow> check_expr \<Rightarrow> bool" where
  "check_ok row (Ge c n) = (case row c of V_Int i \<Rightarrow> n \<le> i | V_Null \<Rightarrow> True | _ \<Rightarrow> False)"
| "check_ok row (Gt c n) = (case row c of V_Int i \<Rightarrow> n < i | V_Null \<Rightarrow> True | _ \<Rightarrow> False)"
| "check_ok row (Three_Capitals c) =
     (case row c of V_Str s \<Rightarrow> length s = 3 \<and> list_all (\<lambda>c. c \<in> set ''ABCDEFGHIJKLMNOPQRSTUVWXYZ'') s | V_Null \<Rightarrow> True | _ \<Rightarrow> False)"
| "check_ok row (In_List c vs) = (case row c of V_Str s \<Rightarrow> s \<in> set vs | V_Null \<Rightarrow> True | _ \<Rightarrow> False)"

fun enum_check :: "column \<Rightarrow> tconstraint list" where
  "enum_check c = (case col_type c of Enum nm vs n \<Rightarrow> [Check nm (In_List (col_name c) vs)] | _ \<Rightarrow> [])"

definition row_ok :: "table \<Rightarrow> (string \<Rightarrow> sql_value) \<Rightarrow> bool" where
  "row_ok t row \<longleftrightarrow> list_all (column_ok row) (t_columns t)
     \<and> list_all (\<lambda>k. case k of Check _ e \<Rightarrow> check_ok row e | _ \<Rightarrow> True)
         (t_constraints t @ concat (map enum_check (t_columns t)))"

definition V_opt :: "('a \<Rightarrow> sql_value) \<Rightarrow> 'a option \<Rightarrow> sql_value" where
  "V_opt f x = (case x of None \<Rightarrow> V_Null | Some v \<Rightarrow> f v)"

text \<open>The row of a record: the value of each column. An enum is stored by the name of its member.\<close>

definition payment_row :: "payment \<Rightarrow> string \<Rightarrow> sql_value" where
  "payment_row r k =
     (case map_of
       [(''id'', V_Uuid (pay_id r)),
        (''merchant_id'', V_Uuid (pay_merchant_id r)),
        (''provider'', V_Str (pay_provider r)),
        (''provider_payment_id'', V_Str (pay_provider_payment_id r)),
        (''status'', V_Str (payment_status_value (pay_status r))),
        (''amount_minor'', V_Int (pay_amount_minor r)),
        (''currency'', V_Str (pay_currency r)),
        (''failure_code'', V_opt V_Str (pay_failure_code r)),
        (''failure_reason'', V_opt V_Str (pay_failure_reason r)),
        (''failed_at'', V_opt V_Time (pay_failed_at r)),
        (''captured_at'', V_opt V_Time (pay_captured_at r)),
        (''created_at'', V_Time (pay_created_at r)),
        (''updated_at'', V_Time (pay_updated_at r))] k of None \<Rightarrow> V_Null | Some v \<Rightarrow> v)"

definition recovery_case_row :: "recovery_case \<Rightarrow> string \<Rightarrow> sql_value" where
  "recovery_case_row r k =
     (case map_of
       [(''id'', V_Uuid (rc_id r)),
        (''merchant_id'', V_Uuid (rc_merchant_id r)),
        (''payment_id'', V_Uuid (rc_payment_id r)),
        (''status'', V_Str (recovery_case_status_value (rc_status r))),
        (''amount_minor'', V_Int (rc_amount_minor r)),
        (''currency'', V_Str (rc_currency r)),
        (''failure_category'', V_opt V_Str (rc_failure_category r)),
        (''next_action_at'', V_opt V_Time (rc_next_action_at r)),
        (''version'', V_Int (rc_version r)),
        (''created_at'', V_Time (rc_created_at r)),
        (''updated_at'', V_Time (rc_updated_at r))] k of None \<Rightarrow> V_Null | Some v \<Rightarrow> v)"

definition recovery_action_row :: "recovery_action \<Rightarrow> string \<Rightarrow> sql_value" where
  "recovery_action_row r k =
     (case map_of
       [(''id'', V_Uuid (ra_id r)),
        (''merchant_id'', V_Uuid (ra_merchant_id r)),
        (''recovery_case_id'', V_Uuid (ra_recovery_case_id r)),
        (''action_type'', V_Str (recovery_action_type_value (ra_action_type r))),
        (''status'', V_Str (recovery_action_status_value (ra_status r))),
        (''idempotency_key'', V_Str (ra_idempotency_key r)),
        (''attempt_number'', V_Int (ra_attempt_number r)),
        (''provider_reference'', V_opt V_Str (ra_provider_reference r)),
        (''scheduled_at'', V_opt V_Time (ra_scheduled_at r)),
        (''executed_at'', V_opt V_Time (ra_executed_at r)),
        (''failure_reason'', V_opt V_Str (ra_failure_reason r)),
        (''created_at'', V_Time (ra_created_at r)),
        (''updated_at'', V_Time (ra_updated_at r))] k of None \<Rightarrow> V_Null | Some v \<Rightarrow> v)"

definition merchant_policy_row :: "merchant_policy \<Rightarrow> string \<Rightarrow> sql_value" where
  "merchant_policy_row r k =
     (case map_of
       [(''id'', V_Uuid (mp_id r)),
        (''merchant_id'', V_Uuid (mp_merchant_id r)),
        (''max_actions_per_case'', V_Int (mp_max_actions_per_case r)),
        (''max_reminders_per_case'', V_Int (mp_max_reminders_per_case r)),
        (''one_active_payment_link'', V_Bool (mp_one_active_payment_link r)),
        (''high_value_escalation_enabled'', V_Bool (mp_high_value_escalation_enabled r)),
        (''high_value_threshold_minor'', V_Int (mp_high_value_threshold_minor r)),
        (''is_active'', V_Bool (mp_is_active r)),
        (''created_at'', V_Time (mp_created_at r)),
        (''updated_at'', V_Time (mp_updated_at r))] k of None \<Rightarrow> V_Null | Some v \<Rightarrow> v)"

definition webhook_event_row :: "webhook_event \<Rightarrow> string \<Rightarrow> sql_value" where
  "webhook_event_row r k =
     (case map_of
       [(''id'', V_Uuid (wh_id r)),
        (''merchant_id'', V_Uuid (wh_merchant_id r)),
        (''provider'', V_Str (wh_provider r)),
        (''provider_event_id'', V_Str (wh_provider_event_id r)),
        (''event_type'', V_Str (wh_event_type r)),
        (''payload'', V_Json (wh_payload r)),
        (''status'', V_Str (webhook_event_status_value (wh_status r))),
        (''received_at'', V_Time (wh_received_at r)),
        (''processed_at'', V_opt V_Time (wh_processed_at r)),
        (''error_message'', V_opt V_Str (wh_error_message r))] k of None \<Rightarrow> V_Null | Some v \<Rightarrow> v)"

definition outbox_event_row :: "outbox_event \<Rightarrow> string \<Rightarrow> sql_value" where
  "outbox_event_row r k =
     (case map_of
       [(''id'', V_Uuid (ob_id r)),
        (''merchant_id'', V_Uuid (ob_merchant_id r)),
        (''aggregate_type'', V_Str (ob_aggregate_type r)),
        (''aggregate_id'', V_Str (ob_aggregate_id r)),
        (''event_type'', V_Str (ob_event_type r)),
        (''payload'', V_Json (ob_payload r)),
        (''idempotency_key'', V_Str (ob_idempotency_key r)),
        (''status'', V_Str (outbox_event_status_value (ob_status r))),
        (''attempts'', V_Int (ob_attempts r)),
        (''last_error'', V_opt V_Str (ob_last_error r)),
        (''created_at'', V_Time (ob_created_at r)),
        (''published_at'', V_opt V_Time (ob_published_at r)),
        (''deliver_at'', V_opt V_Time (ob_deliver_at r))] k of None \<Rightarrow> V_Null | Some v \<Rightarrow> v)"

definition audit_event_row :: "audit_event \<Rightarrow> string \<Rightarrow> sql_value" where
  "audit_event_row r k =
     (case map_of
       [(''id'', V_Uuid (au_id r)),
        (''merchant_id'', V_Uuid (au_merchant_id r)),
        (''entity_type'', V_Str (au_entity_type r)),
        (''entity_id'', V_Str (au_entity_id r)),
        (''event_type'', V_Str (au_event_type r)),
        (''actor'', V_Str (au_actor r)),
        (''correlation_id'', V_opt V_Str (au_correlation_id r)),
        (''payload'', V_Json (au_payload r)),
        (''created_at'', V_Time (au_created_at r))] k of None \<Rightarrow> V_Null | Some v \<Rightarrow> v)"

subsection \<open>The row checks are those of the declared tables\<close>

lemma capital_iff: "c \<in> set ''ABCDEFGHIJKLMNOPQRSTUVWXYZ'' \<longleftrightarrow> 65 \<le> ord c \<and> ord c \<le> 90"
proof -
  have "map ord ''ABCDEFGHIJKLMNOPQRSTUVWXYZ'' = [65..<91]" by code_simp
  then have "ord ` set ''ABCDEFGHIJKLMNOPQRSTUVWXYZ'' = set [65..<91]" by (metis list.set_map)
  moreover have "ord c \<in> ord ` S \<longleftrightarrow> c \<in> S" for S by (rule inj_image_mem_iff [OF inj_of_char])
  ultimately have "c \<in> set ''ABCDEFGHIJKLMNOPQRSTUVWXYZ'' \<longleftrightarrow> ord c \<in> set [65..<91]" by metis
  then show ?thesis by (simp only: set_upt atLeastLessThan_iff) linarith
qed

lemma capitals_iff:
  "row c = V_Str s \<Longrightarrow> check_ok row (Three_Capitals c) = currency_ok s"
  unfolding check_ok.simps currency_ok_def using capital_iff by (simp only: sql_value.case)

lemma optional_column:
  "row n = V_opt V_Str x \<Longrightarrow> column_ok row (col n (String k) True d) = opt_varchar_ok k x"
  "row n = V_opt V_Time t \<Longrightarrow> column_ok row (col n DateTime True d)"
  by (simp_all add: column_ok_def col_def V_opt_def opt_varchar_ok_def varchar_ok_def split: option.split)

lemma required_column:
  "row n = V_Str s \<Longrightarrow> column_ok row (col n (String k) b d) = varchar_ok k s"
  "row n = V_Str s \<Longrightarrow> column_ok row (col n (Enum nm vs k) b d) = varchar_ok k s"
  "row n = V_Int i \<Longrightarrow> column_ok row (col n Integer b d) = integer_ok i"
  "row n = V_Int i \<Longrightarrow> column_ok row (col n BigInteger b d) = bigint_ok i"
  "row n = V_Uuid u \<Longrightarrow> column_ok row (col n Uuid b d)"
  "row n = V_Bool y \<Longrightarrow> column_ok row (col n Boolean b d)"
  "row n = V_Time t \<Longrightarrow> column_ok row (col n DateTime b d)"
  "row n = V_Json j \<Longrightarrow> column_ok row (col n JSONB b d)"
  by (simp_all add: column_ok_def col_def varchar_ok_def integer_ok_def bigint_ok_def)

lemma enum_check_col [simp]:
  "enum_check (col n (Enum nm vs k) b d) = [Check nm (In_List n vs)]"
  "enum_check (col n (String k) b d) = []" "enum_check (col n Integer b d) = []" "enum_check (col n BigInteger b d) = []"
  "enum_check (col n Uuid b d) = []" "enum_check (col n Boolean b d) = []" "enum_check (col n DateTime b d) = []"
  "enum_check (col n JSONB b d) = []"
  by (simp_all add: col_def)

lemma payment_status_stored:
  "row c = V_Str (payment_status_value x) \<Longrightarrow> check_ok row (In_List c [''CREATED'', ''FAILED'', ''CAPTURED''])" "varchar_ok 32 (payment_status_value x)"
  by (cases x; simp add: varchar_ok_def)+

lemma recovery_case_status_stored:
  "row c = V_Str (recovery_case_status_value x) \<Longrightarrow> check_ok row (In_List c [''FAILED'', ''ELIGIBLE'', ''ANALYSING'', ''ACTION_SELECTED'', ''ACTION_SCHEDULED'', ''WAITING'', ''RECOVERED'', ''STOPPED'', ''ESCALATED''])" "varchar_ok 32 (recovery_case_status_value x)"
  by (cases x; simp add: varchar_ok_def)+

lemma recovery_action_type_stored:
  "row c = V_Str (recovery_action_type_value x) \<Longrightarrow> check_ok row (In_List c [''WAIT'', ''CREATE_PAYMENT_LINK'', ''SEND_REMINDER'', ''STOP'', ''ESCALATE''])" "varchar_ok 32 (recovery_action_type_value x)"
  by (cases x; simp add: varchar_ok_def)+

lemma recovery_action_status_stored:
  "row c = V_Str (recovery_action_status_value x) \<Longrightarrow> check_ok row (In_List c [''PENDING'', ''APPROVED'', ''DENIED'', ''EXECUTING'', ''EXECUTED'', ''FAILED'', ''CANCELLED''])" "varchar_ok 32 (recovery_action_status_value x)"
  by (cases x; simp add: varchar_ok_def)+

lemma webhook_event_status_stored:
  "row c = V_Str (webhook_event_status_value x) \<Longrightarrow> check_ok row (In_List c [''RECEIVED'', ''PROCESSED'', ''IGNORED'', ''FAILED''])" "varchar_ok 32 (webhook_event_status_value x)"
  by (cases x; simp add: varchar_ok_def)+

lemma outbox_event_status_stored:
  "row c = V_Str (outbox_event_status_value x) \<Longrightarrow> check_ok row (In_List c [''PENDING'', ''PUBLISHED'', ''FAILED''])" "varchar_ok 32 (outbox_event_status_value x)"
  by (cases x; simp add: varchar_ok_def)+

lemmas stored = payment_status_stored recovery_case_status_stored recovery_action_type_stored
  recovery_action_status_stored webhook_event_status_stored outbox_event_status_stored

declare check_ok.simps(3,4) [simp del] enum_check.simps [simp del]

lemma payment_row_simps [simp]:
  "payment_row r ''id'' = V_Uuid (pay_id r)"
  "payment_row r ''merchant_id'' = V_Uuid (pay_merchant_id r)"
  "payment_row r ''provider'' = V_Str (pay_provider r)"
  "payment_row r ''provider_payment_id'' = V_Str (pay_provider_payment_id r)"
  "payment_row r ''status'' = V_Str (payment_status_value (pay_status r))"
  "payment_row r ''amount_minor'' = V_Int (pay_amount_minor r)"
  "payment_row r ''currency'' = V_Str (pay_currency r)"
  "payment_row r ''failure_code'' = V_opt V_Str (pay_failure_code r)"
  "payment_row r ''failure_reason'' = V_opt V_Str (pay_failure_reason r)"
  "payment_row r ''failed_at'' = V_opt V_Time (pay_failed_at r)"
  "payment_row r ''captured_at'' = V_opt V_Time (pay_captured_at r)"
  "payment_row r ''created_at'' = V_Time (pay_created_at r)"
  "payment_row r ''updated_at'' = V_Time (pay_updated_at r)"
  by (simp_all add: payment_row_def)

lemma payment_row_iff: "payment_row_check r = Inr () \<longleftrightarrow> row_ok payments_table (payment_row r)"
  by (auto simp: row_ok_def payments_table_def payment_row_check_def required_column optional_column stored capitals_iff not_le not_less)

lemma recovery_case_row_simps [simp]:
  "recovery_case_row r ''id'' = V_Uuid (rc_id r)"
  "recovery_case_row r ''merchant_id'' = V_Uuid (rc_merchant_id r)"
  "recovery_case_row r ''payment_id'' = V_Uuid (rc_payment_id r)"
  "recovery_case_row r ''status'' = V_Str (recovery_case_status_value (rc_status r))"
  "recovery_case_row r ''amount_minor'' = V_Int (rc_amount_minor r)"
  "recovery_case_row r ''currency'' = V_Str (rc_currency r)"
  "recovery_case_row r ''failure_category'' = V_opt V_Str (rc_failure_category r)"
  "recovery_case_row r ''next_action_at'' = V_opt V_Time (rc_next_action_at r)"
  "recovery_case_row r ''version'' = V_Int (rc_version r)"
  "recovery_case_row r ''created_at'' = V_Time (rc_created_at r)"
  "recovery_case_row r ''updated_at'' = V_Time (rc_updated_at r)"
  by (simp_all add: recovery_case_row_def)

lemma case_row_iff: "case_row_check r = Inr () \<longleftrightarrow> row_ok recovery_cases_table (recovery_case_row r)"
  by (auto simp: row_ok_def recovery_cases_table_def case_row_check_def required_column optional_column stored capitals_iff not_le not_less)

lemma recovery_action_row_simps [simp]:
  "recovery_action_row r ''id'' = V_Uuid (ra_id r)"
  "recovery_action_row r ''merchant_id'' = V_Uuid (ra_merchant_id r)"
  "recovery_action_row r ''recovery_case_id'' = V_Uuid (ra_recovery_case_id r)"
  "recovery_action_row r ''action_type'' = V_Str (recovery_action_type_value (ra_action_type r))"
  "recovery_action_row r ''status'' = V_Str (recovery_action_status_value (ra_status r))"
  "recovery_action_row r ''idempotency_key'' = V_Str (ra_idempotency_key r)"
  "recovery_action_row r ''attempt_number'' = V_Int (ra_attempt_number r)"
  "recovery_action_row r ''provider_reference'' = V_opt V_Str (ra_provider_reference r)"
  "recovery_action_row r ''scheduled_at'' = V_opt V_Time (ra_scheduled_at r)"
  "recovery_action_row r ''executed_at'' = V_opt V_Time (ra_executed_at r)"
  "recovery_action_row r ''failure_reason'' = V_opt V_Str (ra_failure_reason r)"
  "recovery_action_row r ''created_at'' = V_Time (ra_created_at r)"
  "recovery_action_row r ''updated_at'' = V_Time (ra_updated_at r)"
  by (simp_all add: recovery_action_row_def)

lemma action_row_iff: "action_row_check r = Inr () \<longleftrightarrow> row_ok recovery_actions_table (recovery_action_row r)"
  by (auto simp: row_ok_def recovery_actions_table_def action_row_check_def required_column optional_column stored capitals_iff not_le not_less)

lemma merchant_policy_row_simps [simp]:
  "merchant_policy_row r ''id'' = V_Uuid (mp_id r)"
  "merchant_policy_row r ''merchant_id'' = V_Uuid (mp_merchant_id r)"
  "merchant_policy_row r ''max_actions_per_case'' = V_Int (mp_max_actions_per_case r)"
  "merchant_policy_row r ''max_reminders_per_case'' = V_Int (mp_max_reminders_per_case r)"
  "merchant_policy_row r ''one_active_payment_link'' = V_Bool (mp_one_active_payment_link r)"
  "merchant_policy_row r ''high_value_escalation_enabled'' = V_Bool (mp_high_value_escalation_enabled r)"
  "merchant_policy_row r ''high_value_threshold_minor'' = V_Int (mp_high_value_threshold_minor r)"
  "merchant_policy_row r ''is_active'' = V_Bool (mp_is_active r)"
  "merchant_policy_row r ''created_at'' = V_Time (mp_created_at r)"
  "merchant_policy_row r ''updated_at'' = V_Time (mp_updated_at r)"
  by (simp_all add: merchant_policy_row_def)

lemma policy_row_iff: "policy_row_check r = Inr () \<longleftrightarrow> row_ok merchant_policies_table (merchant_policy_row r)"
  by (auto simp: row_ok_def merchant_policies_table_def policy_row_check_def required_column optional_column stored capitals_iff not_le not_less)

lemma webhook_event_row_simps [simp]:
  "webhook_event_row r ''id'' = V_Uuid (wh_id r)"
  "webhook_event_row r ''merchant_id'' = V_Uuid (wh_merchant_id r)"
  "webhook_event_row r ''provider'' = V_Str (wh_provider r)"
  "webhook_event_row r ''provider_event_id'' = V_Str (wh_provider_event_id r)"
  "webhook_event_row r ''event_type'' = V_Str (wh_event_type r)"
  "webhook_event_row r ''payload'' = V_Json (wh_payload r)"
  "webhook_event_row r ''status'' = V_Str (webhook_event_status_value (wh_status r))"
  "webhook_event_row r ''received_at'' = V_Time (wh_received_at r)"
  "webhook_event_row r ''processed_at'' = V_opt V_Time (wh_processed_at r)"
  "webhook_event_row r ''error_message'' = V_opt V_Str (wh_error_message r)"
  by (simp_all add: webhook_event_row_def)

lemma webhook_row_iff: "webhook_row_check r = Inr () \<longleftrightarrow> row_ok webhook_events_table (webhook_event_row r)"
  by (auto simp: row_ok_def webhook_events_table_def webhook_row_check_def required_column optional_column stored capitals_iff not_le not_less)

lemma outbox_event_row_simps [simp]:
  "outbox_event_row r ''id'' = V_Uuid (ob_id r)"
  "outbox_event_row r ''merchant_id'' = V_Uuid (ob_merchant_id r)"
  "outbox_event_row r ''aggregate_type'' = V_Str (ob_aggregate_type r)"
  "outbox_event_row r ''aggregate_id'' = V_Str (ob_aggregate_id r)"
  "outbox_event_row r ''event_type'' = V_Str (ob_event_type r)"
  "outbox_event_row r ''payload'' = V_Json (ob_payload r)"
  "outbox_event_row r ''idempotency_key'' = V_Str (ob_idempotency_key r)"
  "outbox_event_row r ''status'' = V_Str (outbox_event_status_value (ob_status r))"
  "outbox_event_row r ''attempts'' = V_Int (ob_attempts r)"
  "outbox_event_row r ''last_error'' = V_opt V_Str (ob_last_error r)"
  "outbox_event_row r ''created_at'' = V_Time (ob_created_at r)"
  "outbox_event_row r ''published_at'' = V_opt V_Time (ob_published_at r)"
  "outbox_event_row r ''deliver_at'' = V_opt V_Time (ob_deliver_at r)"
  by (simp_all add: outbox_event_row_def)

lemma outbox_row_iff: "outbox_row_check r = Inr () \<longleftrightarrow> row_ok outbox_events_table (outbox_event_row r)"
  by (auto simp: row_ok_def outbox_events_table_def outbox_row_check_def required_column optional_column stored capitals_iff not_le not_less)

lemma audit_event_row_simps [simp]:
  "audit_event_row r ''id'' = V_Uuid (au_id r)"
  "audit_event_row r ''merchant_id'' = V_Uuid (au_merchant_id r)"
  "audit_event_row r ''entity_type'' = V_Str (au_entity_type r)"
  "audit_event_row r ''entity_id'' = V_Str (au_entity_id r)"
  "audit_event_row r ''event_type'' = V_Str (au_event_type r)"
  "audit_event_row r ''actor'' = V_Str (au_actor r)"
  "audit_event_row r ''correlation_id'' = V_opt V_Str (au_correlation_id r)"
  "audit_event_row r ''payload'' = V_Json (au_payload r)"
  "audit_event_row r ''created_at'' = V_Time (au_created_at r)"
  by (simp_all add: audit_event_row_def)

lemma audit_row_iff: "audit_row_check r = Inr () \<longleftrightarrow> row_ok audit_events_table (audit_event_row r)"
  by (auto simp: row_ok_def audit_events_table_def audit_row_check_def required_column optional_column stored capitals_iff not_le not_less)


end
