(* ===== verification/Migrations.thy ===== *)
theory Migrations
  imports Orm_Schema
begin

text \<open>
  The schema migrations of \<^verbatim>\<open>src/alembic/versions\<close>, as lists of the operations their \<open>upgrade\<close> and
  \<open>downgrade\<close> functions perform, and what they do to a schema. An operation fails (\<open>None\<close>) where
  PostgreSQL rejects it: a table, index, column or constraint that is missing or exists already, a
  foreign key to a table that is not there, dropping a table others refer to. A table is created
  with its enum columns as \<open>VARCHAR\<close> plus a check constraint, as SQLAlchemy does. Dropping a table
  or column drops its indexes and, for a column, the constraints on it.

  The revisions are found by their \<open>down_revision\<close> links.
\<close>

subsection \<open>Operations\<close>

record schema =
  tables :: "table list"
  indexes :: "index list"

datatype ddl =
    Create_Table string "column list" "tconstraint list"
  | Drop_Table string
  | Create_Index index
  | Drop_Index string string
  | Add_Column string column
  | Drop_Column string string
  | Drop_Check string string
  | Create_Check string string check_expr

definition physical :: "column \<Rightarrow> column" where
  "physical c = (case col_type c of Enum nm vs n \<Rightarrow> c\<lparr>col_type := String n\<rparr> | _ \<Rightarrow> c)"

definition find_table :: "string \<Rightarrow> schema \<Rightarrow> table option" where
  "find_table n s = find (\<lambda>t. t_name t = n) (tables s)"

definition set_table :: "table \<Rightarrow> schema \<Rightarrow> schema" where
  "set_table t s = s\<lparr>tables := map (\<lambda>u. if t_name u = t_name t then t else u) (tables s)\<rparr>"

fun references :: "string \<Rightarrow> tconstraint \<Rightarrow> bool" where
  "references n (Foreign_Key _ t _) = (t = n)"
| "references n _ = False"

fun on_column :: "string \<Rightarrow> tconstraint \<Rightarrow> bool" where
  "on_column c (Check _ (Ge d _)) = (d = c)"
| "on_column c (Check _ (Gt d _)) = (d = c)"
| "on_column c (Check _ (Three_Capitals d)) = (d = c)"
| "on_column c (Check _ (In_List d _)) = (d = c)"
| "on_column c (Foreign_Key d _ _) = (d = c)"
| "on_column c (Primary_Key ds) = (c \<in> set ds)"
| "on_column c (Unique _ ds) = (c \<in> set ds)"

fun is_check :: "string \<Rightarrow> tconstraint \<Rightarrow> bool" where
  "is_check n (Check m _) = (m = n)"
| "is_check n _ = False"

definition has_column :: "table \<Rightarrow> string \<Rightarrow> bool" where
  "has_column t n = (n \<in> set (map col_name (t_columns t)))"

definition targets_exist :: "schema \<Rightarrow> tconstraint \<Rightarrow> bool" where
  "targets_exist s k = (case k of Foreign_Key _ t c \<Rightarrow>
     (case find_table t s of None \<Rightarrow> False | Some u \<Rightarrow> has_column u c) | _ \<Rightarrow> True)"

fun run_op :: "ddl \<Rightarrow> schema \<Rightarrow> schema option" where
  "run_op (Create_Table n cols cons) s =
     (if find_table n s \<noteq> None \<or> \<not> list_all (targets_exist s) cons then None
      else Some (s\<lparr>tables := tables s @ [\<lparr>t_name = n, t_columns = map physical cols,
             t_constraints = cons @ concat (map enum_check cols)\<rparr>]\<rparr>))"
| "run_op (Drop_Table n) s =
     (if find_table n s = None
         \<or> list_ex (\<lambda>t. t_name t \<noteq> n \<and> list_ex (references n) (t_constraints t)) (tables s) then None
      else Some (s\<lparr>tables := filter (\<lambda>t. t_name t \<noteq> n) (tables s),
                   indexes := filter (\<lambda>i. ix_table i \<noteq> n) (indexes s)\<rparr>))"
| "run_op (Create_Index i) s =
     (case find_table (ix_table i) s of
        None \<Rightarrow> None
      | Some t \<Rightarrow>
          if list_ex (\<lambda>j. ix_name j = ix_name i) (indexes s) \<or> \<not> list_all (has_column t) (ix_columns i) then None
          else Some (s\<lparr>indexes := indexes s @ [i]\<rparr>))"
| "run_op (Drop_Index n t) s =
     (if list_ex (\<lambda>j. ix_name j = n \<and> ix_table j = t) (indexes s)
      then Some (s\<lparr>indexes := filter (\<lambda>j. ix_name j \<noteq> n) (indexes s)\<rparr>) else None)"
| "run_op (Add_Column n c) s =
     (case find_table n s of
        None \<Rightarrow> None
      | Some t \<Rightarrow>
          if has_column t (col_name c) then None
          else Some (set_table (t\<lparr>t_columns := t_columns t @ [physical c], t_constraints := t_constraints t @ enum_check c\<rparr>) s))"
| "run_op (Drop_Column n c) s =
     (case find_table n s of
        None \<Rightarrow> None
      | Some t \<Rightarrow>
          if \<not> has_column t c then None
          else Some ((set_table (t\<lparr>t_columns := filter (\<lambda>d. col_name d \<noteq> c) (t_columns t),
                                 t_constraints := filter (\<lambda>k. \<not> on_column c k) (t_constraints t)\<rparr>) s)
                 \<lparr>indexes := filter (\<lambda>i. \<not> (ix_table i = n \<and> c \<in> set (ix_columns i))) (indexes s)\<rparr>))"
| "run_op (Drop_Check nm n) s =
     (case find_table n s of
        None \<Rightarrow> None
      | Some t \<Rightarrow>
          if list_ex (is_check nm) (t_constraints t)
          then Some (set_table (t\<lparr>t_constraints := filter (\<lambda>k. \<not> is_check nm k) (t_constraints t)\<rparr>) s)
          else None)"
| "run_op (Create_Check nm n e) s =
     (case find_table n s of
        None \<Rightarrow> None
      | Some t \<Rightarrow>
          if list_ex (is_check nm) (t_constraints t) then None
          else Some (set_table (t\<lparr>t_constraints := t_constraints t @ [Check nm e]\<rparr>) s))"

fun run_ops :: "ddl list \<Rightarrow> schema \<Rightarrow> schema option" where
  "run_ops [] s = Some s"
| "run_ops (x # xs) s = (case run_op x s of None \<Rightarrow> None | Some s' \<Rightarrow> run_ops xs s')"

subsection \<open>The revisions\<close>

definition upgrade_core_recovery_schema :: "ddl list" where
  "upgrade_core_recovery_schema =
     [Create_Table ''merchants''
         [col ''id'' Uuid False None,
          col ''name'' (String 255) False None,
          col ''is_active'' Boolean False (Some (Sql_Text ''true'')),
          col ''created_at'' DateTime False (Some (Sql_Text ''now()'')),
          col ''updated_at'' DateTime False (Some (Sql_Text ''now()''))]
         [Primary_Key [''id'']],
      Create_Table ''audit_events''
         [col ''id'' Uuid False None,
          col ''merchant_id'' Uuid False None,
          col ''entity_type'' (String 64) False None,
          col ''entity_id'' (String 64) False None,
          col ''event_type'' (String 128) False None,
          col ''actor'' (String 64) False (Some (Literal ''system'')),
          col ''correlation_id'' (String 64) True None,
          col ''payload'' JSONB False None,
          col ''created_at'' DateTime False (Some (Sql_Text ''now()''))]
         [Foreign_Key ''merchant_id'' ''merchants'' ''id'',
          Primary_Key [''id'']],
      Create_Index \<lparr>ix_name = ''ix_audit_events_entity'', ix_table = ''audit_events'', ix_columns = [''entity_type'', ''entity_id'']\<rparr>,
      Create_Index \<lparr>ix_name = ''ix_audit_events_merchant_created_at'', ix_table = ''audit_events'', ix_columns = [''merchant_id'', ''created_at'']\<rparr>,
      Create_Index \<lparr>ix_name = ''ix_audit_events_merchant_id'', ix_table = ''audit_events'', ix_columns = [''merchant_id'']\<rparr>,
      Create_Table ''payments''
         [col ''id'' Uuid False None,
          col ''merchant_id'' Uuid False None,
          col ''provider'' (String 32) False (Some (Literal ''razorpay'')),
          col ''provider_payment_id'' (String 128) False None,
          col ''status'' (Enum ''paymentstatus'' [''CREATED'', ''FAILED'', ''CAPTURED''] 32) False (Some (Literal ''CREATED'')),
          col ''amount_minor'' BigInteger False None,
          col ''currency'' (String 3) False None,
          col ''failure_code'' (String 128) True None,
          col ''failure_reason'' (String 512) True None,
          col ''failed_at'' DateTime True None,
          col ''captured_at'' DateTime True None,
          col ''created_at'' DateTime False (Some (Sql_Text ''now()'')),
          col ''updated_at'' DateTime False (Some (Sql_Text ''now()''))]
         [Check ''ck_payments_currency_three_uppercase'' (Three_Capitals ''currency''),
          Check ''ck_payments_amount_minor_nonnegative'' (Ge ''amount_minor'' 0),
          Foreign_Key ''merchant_id'' ''merchants'' ''id'',
          Primary_Key [''id''],
          Unique (Some ''uq_payments_merchant_provider_payment'') [''merchant_id'', ''provider'', ''provider_payment_id'']],
      Create_Index \<lparr>ix_name = ''ix_payments_merchant_id'', ix_table = ''payments'', ix_columns = [''merchant_id'']\<rparr>,
      Create_Index \<lparr>ix_name = ''ix_payments_merchant_status'', ix_table = ''payments'', ix_columns = [''merchant_id'', ''status'']\<rparr>,
      Create_Table ''recovery_cases''
         [col ''id'' Uuid False None,
          col ''merchant_id'' Uuid False None,
          col ''payment_id'' Uuid False None,
          col ''status'' (Enum ''recoverycasestatus'' [''FAILED'', ''ELIGIBLE'', ''ANALYSING'', ''ACTION_SELECTED'', ''ACTION_SCHEDULED'', ''WAITING'', ''RECOVERED'', ''STOPPED'', ''ESCALATED''] 32) False (Some (Literal ''FAILED'')),
          col ''amount_minor'' BigInteger False None,
          col ''currency'' (String 3) False None,
          col ''failure_category'' (String 128) True None,
          col ''next_action_at'' DateTime True None,
          col ''version'' Integer False (Some (Literal ''1'')),
          col ''created_at'' DateTime False (Some (Sql_Text ''now()'')),
          col ''updated_at'' DateTime False (Some (Sql_Text ''now()''))]
         [Check ''ck_recovery_cases_currency_three_uppercase'' (Three_Capitals ''currency''),
          Check ''ck_recovery_cases_amount_minor_nonnegative'' (Ge ''amount_minor'' 0),
          Check ''ck_recovery_cases_version_positive'' (Gt ''version'' 0),
          Foreign_Key ''merchant_id'' ''merchants'' ''id'',
          Foreign_Key ''payment_id'' ''payments'' ''id'',
          Primary_Key [''id''],
          Unique (Some ''uq_recovery_cases_payment_id'') [''payment_id'']],
      Create_Index \<lparr>ix_name = ''ix_recovery_cases_merchant_id'', ix_table = ''recovery_cases'', ix_columns = [''merchant_id'']\<rparr>,
      Create_Index \<lparr>ix_name = ''ix_recovery_cases_merchant_status_next'', ix_table = ''recovery_cases'', ix_columns = [''merchant_id'', ''status'', ''next_action_at'']\<rparr>,
      Create_Index \<lparr>ix_name = ''ix_recovery_cases_status_next_action_at'', ix_table = ''recovery_cases'', ix_columns = [''status'', ''next_action_at'']\<rparr>,
      Create_Table ''recovery_actions''
         [col ''id'' Uuid False None,
          col ''merchant_id'' Uuid False None,
          col ''recovery_case_id'' Uuid False None,
          col ''action_type'' (Enum ''recoveryactiontype'' [''WAIT'', ''CREATE_PAYMENT_LINK'', ''SEND_REMINDER'', ''STOP'', ''ESCALATE''] 32) False None,
          col ''status'' (Enum ''recoveryactionstatus'' [''PENDING'', ''APPROVED'', ''DENIED'', ''EXECUTING'', ''EXECUTED'', ''FAILED'', ''CANCELLED''] 32) False (Some (Literal ''PENDING'')),
          col ''idempotency_key'' (String 128) False None,
          col ''attempt_number'' Integer False (Some (Literal ''1'')),
          col ''provider_reference'' (String 128) True None,
          col ''scheduled_at'' DateTime True None,
          col ''executed_at'' DateTime True None,
          col ''failure_reason'' (String 512) True None,
          col ''created_at'' DateTime False (Some (Sql_Text ''now()'')),
          col ''updated_at'' DateTime False (Some (Sql_Text ''now()''))]
         [Check ''ck_recovery_actions_attempt_number_positive'' (Gt ''attempt_number'' 0),
          Foreign_Key ''merchant_id'' ''merchants'' ''id'',
          Foreign_Key ''recovery_case_id'' ''recovery_cases'' ''id'',
          Primary_Key [''id''],
          Unique None [''idempotency_key''],
          Unique (Some ''uq_recovery_actions_case_type_attempt'') [''recovery_case_id'', ''action_type'', ''attempt_number'']],
      Create_Index \<lparr>ix_name = ''ix_recovery_actions_case_status'', ix_table = ''recovery_actions'', ix_columns = [''recovery_case_id'', ''status'']\<rparr>,
      Create_Index \<lparr>ix_name = ''ix_recovery_actions_merchant_id'', ix_table = ''recovery_actions'', ix_columns = [''merchant_id'']\<rparr>,
      Create_Index \<lparr>ix_name = ''ix_recovery_actions_merchant_status'', ix_table = ''recovery_actions'', ix_columns = [''merchant_id'', ''status'']\<rparr>,
      Create_Index \<lparr>ix_name = ''ix_recovery_actions_recovery_case_id'', ix_table = ''recovery_actions'', ix_columns = [''recovery_case_id'']\<rparr>]"

definition downgrade_core_recovery_schema :: "ddl list" where
  "downgrade_core_recovery_schema =
     [Drop_Index ''ix_recovery_actions_recovery_case_id'' ''recovery_actions'',
      Drop_Index ''ix_recovery_actions_merchant_status'' ''recovery_actions'',
      Drop_Index ''ix_recovery_actions_merchant_id'' ''recovery_actions'',
      Drop_Index ''ix_recovery_actions_case_status'' ''recovery_actions'',
      Drop_Table ''recovery_actions'',
      Drop_Index ''ix_recovery_cases_status_next_action_at'' ''recovery_cases'',
      Drop_Index ''ix_recovery_cases_merchant_status_next'' ''recovery_cases'',
      Drop_Index ''ix_recovery_cases_merchant_id'' ''recovery_cases'',
      Drop_Table ''recovery_cases'',
      Drop_Index ''ix_payments_merchant_status'' ''payments'',
      Drop_Index ''ix_payments_merchant_id'' ''payments'',
      Drop_Table ''payments'',
      Drop_Index ''ix_audit_events_merchant_id'' ''audit_events'',
      Drop_Index ''ix_audit_events_merchant_created_at'' ''audit_events'',
      Drop_Index ''ix_audit_events_entity'' ''audit_events'',
      Drop_Table ''audit_events'',
      Drop_Table ''merchants'']"

definition upgrade_webhook_inbox_and_outbox :: "ddl list" where
  "upgrade_webhook_inbox_and_outbox =
     [Create_Table ''outbox_events''
         [col ''id'' Uuid False None,
          col ''merchant_id'' Uuid False None,
          col ''aggregate_type'' (String 64) False None,
          col ''aggregate_id'' (String 64) False None,
          col ''event_type'' (String 128) False None,
          col ''payload'' JSONB False None,
          col ''idempotency_key'' (String 128) False None,
          col ''status'' (Enum ''outboxeventstatus'' [''PENDING'', ''PUBLISHED'', ''FAILED''] 32) False (Some (Literal ''PENDING'')),
          col ''attempts'' Integer False (Some (Literal ''0'')),
          col ''last_error'' (String 512) True None,
          col ''created_at'' DateTime False (Some (Sql_Text ''now()'')),
          col ''published_at'' DateTime True None]
         [Check ''ck_outbox_events_attempts_nonnegative'' (Ge ''attempts'' 0),
          Foreign_Key ''merchant_id'' ''merchants'' ''id'',
          Primary_Key [''id''],
          Unique None [''idempotency_key'']],
      Create_Index \<lparr>ix_name = ''ix_outbox_events_merchant_id'', ix_table = ''outbox_events'', ix_columns = [''merchant_id'']\<rparr>,
      Create_Index \<lparr>ix_name = ''ix_outbox_events_merchant_status'', ix_table = ''outbox_events'', ix_columns = [''merchant_id'', ''status'']\<rparr>,
      Create_Index \<lparr>ix_name = ''ix_outbox_events_status_created_at'', ix_table = ''outbox_events'', ix_columns = [''status'', ''created_at'']\<rparr>,
      Create_Table ''webhook_events''
         [col ''id'' Uuid False None,
          col ''merchant_id'' Uuid False None,
          col ''provider'' (String 32) False (Some (Literal ''razorpay'')),
          col ''provider_event_id'' (String 128) False None,
          col ''event_type'' (String 128) False None,
          col ''payload'' JSONB False None,
          col ''status'' (Enum ''webhookeventstatus'' [''RECEIVED'', ''PROCESSED'', ''IGNORED'', ''FAILED''] 32) False (Some (Literal ''RECEIVED'')),
          col ''received_at'' DateTime False (Some (Sql_Text ''now()'')),
          col ''processed_at'' DateTime True None,
          col ''error_message'' (String 512) True None]
         [Foreign_Key ''merchant_id'' ''merchants'' ''id'',
          Primary_Key [''id''],
          Unique (Some ''uq_webhook_events_provider_event'') [''provider'', ''provider_event_id'']],
      Create_Index \<lparr>ix_name = ''ix_webhook_events_merchant_event_type'', ix_table = ''webhook_events'', ix_columns = [''merchant_id'', ''event_type'']\<rparr>,
      Create_Index \<lparr>ix_name = ''ix_webhook_events_merchant_id'', ix_table = ''webhook_events'', ix_columns = [''merchant_id'']\<rparr>,
      Create_Index \<lparr>ix_name = ''ix_webhook_events_merchant_status'', ix_table = ''webhook_events'', ix_columns = [''merchant_id'', ''status'']\<rparr>]"

definition downgrade_webhook_inbox_and_outbox :: "ddl list" where
  "downgrade_webhook_inbox_and_outbox =
     [Drop_Index ''ix_webhook_events_merchant_status'' ''webhook_events'',
      Drop_Index ''ix_webhook_events_merchant_id'' ''webhook_events'',
      Drop_Index ''ix_webhook_events_merchant_event_type'' ''webhook_events'',
      Drop_Table ''webhook_events'',
      Drop_Index ''ix_outbox_events_status_created_at'' ''outbox_events'',
      Drop_Index ''ix_outbox_events_merchant_status'' ''outbox_events'',
      Drop_Index ''ix_outbox_events_merchant_id'' ''outbox_events'',
      Drop_Table ''outbox_events'']"

definition upgrade_merchant_policies :: "ddl list" where
  "upgrade_merchant_policies =
     [Create_Table ''merchant_policies''
         [col ''id'' Uuid False None,
          col ''merchant_id'' Uuid False None,
          col ''max_actions_per_case'' Integer False (Some (Literal ''3'')),
          col ''max_reminders_per_case'' Integer False (Some (Literal ''2'')),
          col ''one_active_payment_link'' Boolean False (Some (Sql_Text ''true'')),
          col ''high_value_escalation_enabled'' Boolean False (Some (Sql_Text ''true'')),
          col ''high_value_threshold_minor'' BigInteger False (Some (Literal ''500000'')),
          col ''is_active'' Boolean False (Some (Sql_Text ''true'')),
          col ''created_at'' DateTime False (Some (Sql_Text ''now()'')),
          col ''updated_at'' DateTime False (Some (Sql_Text ''now()''))]
         [Check ''ck_merchant_policies_high_value_threshold_nonnegative'' (Ge ''high_value_threshold_minor'' 0),
          Check ''ck_merchant_policies_max_actions_nonnegative'' (Ge ''max_actions_per_case'' 0),
          Check ''ck_merchant_policies_max_reminders_nonnegative'' (Ge ''max_reminders_per_case'' 0),
          Foreign_Key ''merchant_id'' ''merchants'' ''id'',
          Primary_Key [''id''],
          Unique (Some ''uq_merchant_policies_merchant_id'') [''merchant_id'']],
      Create_Index \<lparr>ix_name = ''ix_merchant_policies_merchant_id'', ix_table = ''merchant_policies'', ix_columns = [''merchant_id'']\<rparr>,
      Drop_Check ''outboxeventstatus'' ''outbox_events'',
      Drop_Check ''paymentstatus'' ''payments'',
      Drop_Check ''recoveryactionstatus'' ''recovery_actions'',
      Drop_Check ''recoveryactiontype'' ''recovery_actions'',
      Drop_Check ''recoverycasestatus'' ''recovery_cases'',
      Drop_Check ''webhookeventstatus'' ''webhook_events'']"

definition downgrade_merchant_policies :: "ddl list" where
  "downgrade_merchant_policies =
     [Create_Check ''webhookeventstatus'' ''webhook_events'' (In_List ''status'' [''RECEIVED'', ''PROCESSED'', ''IGNORED'', ''FAILED'']),
      Create_Check ''recoverycasestatus'' ''recovery_cases'' (In_List ''status'' [''FAILED'', ''ELIGIBLE'', ''ANALYSING'', ''ACTION_SELECTED'', ''ACTION_SCHEDULED'', ''WAITING'', ''RECOVERED'', ''STOPPED'', ''ESCALATED'']),
      Create_Check ''recoveryactiontype'' ''recovery_actions'' (In_List ''action_type'' [''WAIT'', ''CREATE_PAYMENT_LINK'', ''SEND_REMINDER'', ''STOP'', ''ESCALATE'']),
      Create_Check ''recoveryactionstatus'' ''recovery_actions'' (In_List ''status'' [''PENDING'', ''APPROVED'', ''DENIED'', ''EXECUTING'', ''EXECUTED'', ''FAILED'', ''CANCELLED'']),
      Create_Check ''paymentstatus'' ''payments'' (In_List ''status'' [''CREATED'', ''FAILED'', ''CAPTURED'']),
      Create_Check ''outboxeventstatus'' ''outbox_events'' (In_List ''status'' [''PENDING'', ''PUBLISHED'', ''FAILED'']),
      Drop_Index ''ix_merchant_policies_merchant_id'' ''merchant_policies'',
      Drop_Table ''merchant_policies'']"

definition upgrade_outbox_deliver_at :: "ddl list" where
  "upgrade_outbox_deliver_at =
     [Add_Column ''outbox_events'' (col ''deliver_at'' DateTime True None),
      Create_Index \<lparr>ix_name = ''ix_outbox_events_status_deliver_at'', ix_table = ''outbox_events'', ix_columns = [''status'', ''deliver_at'']\<rparr>]"

definition downgrade_outbox_deliver_at :: "ddl list" where
  "downgrade_outbox_deliver_at =
     [Drop_Index ''ix_outbox_events_status_deliver_at'' ''outbox_events'',
      Drop_Column ''outbox_events'' ''deliver_at'']"

record revision =
  rev_id :: string
  down_revision :: "string option"
  upgrade_ops :: "ddl list"
  downgrade_ops :: "ddl list"

definition revisions :: "revision list" where
  "revisions =
     [\<lparr>rev_id = ''a038dd8ec971'', down_revision = Some ''cee67bdeeb49'',
       upgrade_ops = upgrade_webhook_inbox_and_outbox, downgrade_ops = downgrade_webhook_inbox_and_outbox\<rparr>,
      \<lparr>rev_id = ''cee67bdeeb49'', down_revision = None,
       upgrade_ops = upgrade_core_recovery_schema, downgrade_ops = downgrade_core_recovery_schema\<rparr>,
      \<lparr>rev_id = ''deeabd8cc35e'', down_revision = Some ''fce6482ccae7'',
       upgrade_ops = upgrade_outbox_deliver_at, downgrade_ops = downgrade_outbox_deliver_at\<rparr>,
      \<lparr>rev_id = ''fce6482ccae7'', down_revision = Some ''a038dd8ec971'',
       upgrade_ops = upgrade_merchant_policies, downgrade_ops = downgrade_merchant_policies\<rparr>]"

text \<open>The chain of revisions from a given one on; \<open>n\<close> bounds its length.\<close>

fun chain_from :: "nat \<Rightarrow> string option \<Rightarrow> revision list" where
  "chain_from 0 cur = []"
| "chain_from (Suc n) cur =
     (case find (\<lambda>r. down_revision r = cur) revisions of
        None \<Rightarrow> []
      | Some r \<Rightarrow> r # chain_from n (Some (rev_id r)))"

definition chain :: "revision list" where
  "chain = chain_from (length revisions) None"

definition empty_schema :: schema where
  "empty_schema = \<lparr>tables = [], indexes = []\<rparr>"

text \<open>The schema after the first \<open>k\<close> revisions.\<close>

definition migrated :: "nat \<Rightarrow> schema option" where
  "migrated k = run_ops (concat (map upgrade_ops (take k chain))) empty_schema"

subsection \<open>Comparing schemas\<close>

text \<open>Equal columns in the same order, equal constraints and indexes in any order.\<close>

definition same_table :: "table \<Rightarrow> table \<Rightarrow> bool" where
  "same_table t u =
     (if t_name t \<noteq> t_name u then False
      else t_columns t = t_columns u \<and> set (t_constraints t) = set (t_constraints u))"

definition same_schema :: "schema \<Rightarrow> schema \<Rightarrow> bool" where
  "same_schema s r \<longleftrightarrow> list_all (\<lambda>t. list_ex (same_table t) (tables r)) (tables s)
     \<and> list_all (\<lambda>t. list_ex (same_table t) (tables s)) (tables r)
     \<and> set (indexes s) = set (indexes r)"

text \<open>What \<open>Base.metadata.create_all\<close> makes of the models.\<close>

definition declare_table :: "table \<Rightarrow> index list \<Rightarrow> ddl list" where
  "declare_table t is = Create_Table (t_name t) (t_columns t) (t_constraints t) # map Create_Index is"

definition declared :: "schema option" where
  "declared = run_ops
     (declare_table merchants_table merchants_indexes @ declare_table audit_events_table audit_events_indexes
      @ declare_table payments_table payments_indexes @ declare_table recovery_cases_table recovery_cases_indexes
      @ declare_table recovery_actions_table recovery_actions_indexes
      @ declare_table outbox_events_table outbox_events_indexes
      @ declare_table webhook_events_table webhook_events_indexes
      @ declare_table merchant_policies_table merchant_policies_indexes) empty_schema"

fun is_enum_check :: "tconstraint \<Rightarrow> bool" where
  "is_enum_check (Check _ (In_List _ _)) = True"
| "is_enum_check _ = False"

definition without_enum_checks :: "schema \<Rightarrow> schema" where
  "without_enum_checks s = s\<lparr>tables := map (\<lambda>t. t\<lparr>t_constraints := filter (\<lambda>k. \<not> is_enum_check k) (t_constraints t)\<rparr>) (tables s)\<rparr>"

text \<open>
  From a schema on, every upgrade of the revisions in turn applies, and its downgrade applies to the
  result and gives the schema back.
\<close>

fun round_trips :: "revision list \<Rightarrow> schema \<Rightarrow> bool" where
  "round_trips [] s = True"
| "round_trips (r # rs) s =
     (case run_ops (upgrade_ops r) s of
        None \<Rightarrow> False
      | Some s' \<Rightarrow>
          (case run_ops (downgrade_ops r) s' of None \<Rightarrow> False | Some s'' \<Rightarrow> same_schema s'' s)
          \<and> round_trips rs s')"

subsection \<open>Facts\<close>



end
