(* ===== verification/Spec2Isabelle.thy ===== *)
theory Spec2Isabelle
  imports Witnesses_System Witnesses_App Witnesses_Labs Witnesses_Pipeline Process_Setup Migrations
begin

text \<open>
  \<^bold>\<open>RecoverAI.\<close> The program recovers failed payments. The payment provider posts webhooks; a failed
  payment opens a recovery case and writes an outbox event in the same transaction; a dispatcher
  hands due events to a broker; a worker analyses an eligible case (rules, a language-model agent, a
  policy) and writes an approved action with its own outbox event; a worker executes a due action,
  which may create a payment link at the provider; a captured payment closes the case. A dashboard
  reads all this, a simulation estimates it, migrations build the tables, and scripts and labs
  exercise it. This development models these parts as functions on an explicit database and proves
  what they promise, alone and together.

  \<^bold>\<open>How the code is represented.\<close>

  \<^item> \<open>db\<close> (theory \<open>Schema\<close>) is a record with one list of row records per table, in insertion order,
    plus what a transaction draws from outside: \<open>clock\<close> (every read of the time in one transaction) and
    \<open>uuid4\<close> with a counter of the draws. A function that changes the database takes a \<open>db\<close> and returns it
    updated.
  \<^item> A function that may raise has a result in \<open>'a res = exc + 'a\<close>; \<open>res_bind\<close> is sequencing,
    \<open>in_transaction\<close> a session block that rolls back on an exception. What a rolled-back transaction did
    outside the database (messages in the broker, external calls) is returned separately.
  \<^item> Interference inside one transaction, where other transactions may commit between two of its
    statements, is an argument (\<open>rival\<close>, \<open>exec_rivals\<close>, \<open>locked\<close>): an arbitrary change of the database at
    that point. Interference between transactions is the order of the steps in \<open>System\<close>, and for the
    concurrency lab the order of the choices in \<open>Labs\<close>.
  \<^item> A Python string is a list of characters that stand for the code points below 256; a column width
    is the number of characters. Integers are unbounded, with the range of the database column checked
    when a row is written. A float is a rational: rounding is not modelled, nor are the special values.
    A JSON value is \<open>json\<close>, a dict an association list. A UUID is a 128-bit word. Times are microseconds
    since the epoch.

  \<^bold>\<open>The parts and their theories\<close> (paths under \<^verbatim>\<open>src/app\<close> unless they start with a directory of \<^verbatim>\<open>src\<close>).

  \<^item> \<open>Prelude\<close>, \<open>Python_Lib\<close>: exceptions, results, tables, the locales; strings, UUIDs, printing of integers.
  \<^item> \<open>Enums\<close>, \<open>Settings\<close>, \<open>Schema\<close>: \<^verbatim>\<open>models/enums.py\<close>, \<^verbatim>\<open>config.py\<close>, \<^verbatim>\<open>models/*.py\<close>. Rows, the checks
    made when a row is written, lookups, inserts and updates of every table.
  \<^item> \<open>Orm_Schema\<close>, \<open>Migrations\<close>: the declared tables as data, and the four revisions of
    \<^verbatim>\<open>alembic/versions\<close> run on a schema.
  \<^item> \<open>Recovery_State\<close>, \<open>Recovery_Engine\<close>, \<open>Policy\<close>, \<open>Money\<close>: the pure core of \<^verbatim>\<open>domain/*.py\<close>.
  \<^item> \<open>Recovery_Cases\<close>, \<open>Recovery_Actions\<close>, \<open>Policy_Service\<close>: the services of the same names, which write
    cases, actions and policies.
  \<^item> \<open>Agent\<close>: \<^verbatim>\<open>agents/*.py\<close>, the two-node graph and its fallbacks.
  \<^item> \<open>Eligible_Worker\<close>, \<open>Outbox_Task\<close>: \<^verbatim>\<open>tasks/recovery.py\<close> and \<^verbatim>\<open>tasks/backoff.py\<close>. \<open>Action_Executor\<close>:
    \<^verbatim>\<open>services/action_executor.py\<close> and \<^verbatim>\<open>integrations/razorpay.py\<close>.
  \<^item> \<open>Webhook_Handlers\<close>, \<open>Webhook_Endpoint\<close>: \<^verbatim>\<open>webhooks/*.py\<close>. \<open>App\<close>: \<^verbatim>\<open>main.py\<close>.
  \<^item> \<open>Process_Setup\<close>: \<^verbatim>\<open>observability.py\<close>, \<^verbatim>\<open>celery_app.py\<close>, the clients created on first use in \<^verbatim>\<open>db.py\<close>
    and \<^verbatim>\<open>redis_client.py\<close> with the readiness endpoint on them, and \<^verbatim>\<open>alembic/env.py\<close>.
  \<^item> \<open>Dispatcher\<close>: \<^verbatim>\<open>outbox/dispatcher.py\<close>. \<open>Loops\<close>: \<^verbatim>\<open>scripts/run_outbox_dispatcher.py\<close>,
    \<^verbatim>\<open>scripts/dispatch_once.py\<close> and the retries of a task.
  \<^item> \<open>Dashboard\<close>: \<^verbatim>\<open>services/dashboard_service.py\<close> and \<^verbatim>\<open>api/*.py\<close>. \<open>Dashboard_Pages\<close>:
    \<^verbatim>\<open>dashboard/api_client.py\<close>, the pages of metrics and cases and the pipeline row of
    \<^verbatim>\<open>dashboard/Overview.py\<close>.
  \<^item> \<open>Simulation\<close>: \<^verbatim>\<open>simulation/*.py\<close>, with the table of probabilities as an argument. \<open>Run_Simulation\<close>:
    \<^verbatim>\<open>scripts/run_simulation.py\<close> and the page that shows its output. \<open>Assumption_Lab\<close>:
    \<^verbatim>\<open>labs/simulation_assumption_lab.py\<close>, which runs the experiment under patched tables.
  \<^item> \<open>Seed\<close>: \<^verbatim>\<open>scripts/create_dev_merchant.py\<close> and \<^verbatim>\<open>scripts/seed_demo_data.py\<close>. \<open>Local_Webhooks\<close>: the two
    scripts that post webhooks.
  \<^item> \<open>Deletes\<close>: deletion with its cascades. \<open>Labs\<close>, \<open>Dual_Write\<close>, \<open>Stale_Execution\<close>: the labs on the
    database. \<open>Labs_Pure\<close>: the labs without one; the stopwatch
    readings of \<^verbatim>\<open>labs/pure_vs_coupled_lab.py\<close> are an argument.
  \<^item> \<open>System\<close>: the composition. A state is the database, the messages in the broker and the calls in
    progress; the steps are a webhook, a dispatch, the analysis of a case, the claim of an action, the
    recording of an outcome, a crash and the passing of time. Messages are delivered at least once and in
    any order. \<open>Pipeline\<close>: the stages in a row, from the webhook of a failed payment to the record of what
    the executor's call brought about.
  \<^item> \<open>Action_Protocol\<close>: the specification of the actions' life as a protocol on an abstract board.
  \<^item> \<open>Demo\<close> and the \<open>Witnesses\<close> theories apply the theorems with hypotheses to small concrete databases.

  \<^bold>\<open>The lemmas.\<close>

  \<^item> \<open>History\<close> states what every transaction is held to: \<open>db_ok\<close> (constraints and tenancy), \<open>db_evolves\<close>
    (rows are only appended or moved along allowed transitions, terminal rows are frozen), both as the
    preorder \<open>db_step\<close>; \<open>same_others m\<close>, a preorder too, says that only rows of merchant \<open>m\<close> changed. Each
    component shows its operations to be steps of these relations, and \<open>System\<close> lifts this to all
    runs. The captured-payment path writes the case without comparing its version, so its step needs
    that no other transaction changed the case since it was read; \<open>Webhook_Facts\<close> shows what happens
    otherwise.
  \<^item> \<open>Frames\<close>: whole transactions of the worker and the executor stay within a relation that their
    statements respect. \<open>Announcements\<close>: a case and its outbox event are committed together. \<open>System\<close>: an action is called
    for at most once, a closed case is left alone, a new case can always progress.
    \<open>Pipeline\<close>: after a first failed payment some run ends with its case stopped or escalated, or
    with the outcome of the one call for it recorded, as \<open>pursued\<close> and \<open>settled\<close> spell out. \<open>Action_Protocol\<close>: every run of the
    system is a run of the protocol on the board; what holds on the board therefore holds of the system,
    so that every call is accounted for and a recovered case has no open action.
  \<^item> \<open>Action_Executor\<close>, \<open>Executor_Facts\<close>, \<open>Worker_Facts\<close>: a claim needs a permission of the policy, only
    one claimant wins, every outcome is recorded; the worker creates permitted actions only and reaches
    its end.
  \<^item> \<open>Webhook_Facts\<close>, \<open>Webhook_Outcomes\<close>: redelivery, order of delivery, tenants, authentication; and the
    complete effect of the first failure of a payment and of the capture of a payment under recovery.
    \<open>Local_Webhooks\<close> puts the two together behind the scripts and the middleware.
  \<^item> \<open>Policy\<close>, \<open>Orm_Schema\<close>, \<open>Migrations\<close>: the decision procedure refines an abstract permission; the row
    checks agree with the declared tables; the migrations build exactly the declared tables, apart from
    the enum checks a revision drops, and their downgrades undo them.
  \<^item> \<open>Dashboard\<close>, \<open>Simulation\<close>, \<open>Money\<close>, \<open>Agent\<close>, \<open>Dispatcher\<close>: the functional behaviour of each on all
    of its branches.
  \<^item> \<open>Process_Setup\<close>: each client is created once, from the options of the first use; a percent sign in
    the database URL that is no escape stops the migrations, a URL without one reaches them unchanged.
  \<^item> \<open>Seed\<close>, \<open>Labs\<close>, \<open>Dual_Write\<close>, \<open>Stale_Execution\<close>, \<open>Labs_Pure\<close>, \<open>Assumption_Lab\<close>, \<open>Dashboard_Pages\<close>,
    \<open>Run_Simulation\<close>: the scripts succeed and write what they say, the labs pass (the concurrency lab under every
    interleaving, unless its barrier times out) and remove what they created, the pages show what the services computed.

  \<^bold>\<open>Interfaces.\<close> \<open>keyed_table\<close> is the contract of a table with a primary key, interpreted on each of the
  seven tables the components write (payments, cases, actions, policies, webhooks, outbox, audit);
  \<open>row_history\<close> is a history relation on rows, interpreted on the same tables; \<open>state_preorder\<close> carries a
  relation through a sequence of statements, interpreted on \<open>db_step\<close>, \<open>same_others\<close>, \<open>quiet\<close>,
  \<open>same_actions\<close>, \<open>traced\<close>, \<open>calm\<close> and \<open>kept_clients\<close>; \<open>worker_frame\<close> extends it to relations that every
  statement of the worker and the executor respects, and carries them through whole transactions,
  interpreted on \<open>quiet\<close> and \<open>no_recovery\<close>; \<open>absorbing_machine\<close> is a state machine with final states, interpreted on
  the statuses of cases and of actions; \<open>guardrail\<close> is a procedure that lets only permitted actions pass,
  interpreted on the policy engine.

  \<^bold>\<open>What is an argument.\<close> The digests, the JSON decoder and encoder, LangGraph's
  \<open>invoke\<close>, the HTTP client, the broker, the random generator, the parsing of numbers from text, the time
  format and the framework's routing are arguments of the definitions that use them. Where a theorem
  needs more of them than their type, the hypothesis says what their documentation promises
  (\<open>rng_ok\<close>, \<open>libraries_ok\<close>), and a witness gives an instance.

  \<^bold>\<open>Termination and bounds.\<close> The polling loop of the dispatcher and the retries of a task are partial
  functions, with \<open>None\<close> for a run that does not end. \<open>Loops\<close> proves that the part of the polling loop
  between two sleeps ends, since every iteration that does not sleep removes due events, and that a task
  ends after at most \<open>max_retries\<close> = 5 retries with at most 62 seconds of delay together. All other
  definitions are total.

  \<^bold>\<open>Not modelled.\<close> The fixed text of \<^verbatim>\<open>dashboard/Overview.py\<close>, the wiring of the web framework (registration of
  routes, the lifespan function), log lines, the layout of pages and tables, widgets, and HTTP between
  the dashboard and the API. Query plans, deadlocks, lost connections and other failures of the database
  server itself, apart from its answer to the health checks, are not modelled either.
\<close>

end
